theory Spec2Isabelle
  imports Main "HOL-Library.Word" "HOL-Library.Signed_Division"
begin

unbundle bit_operations_syntax

section \<open>Constant values\<close>

text \<open>
  Modelled from the spec: the declaration of \<^verbatim>\<open>nir_const_value\<close> (in nir.h, which is
  not among the sources). It is a fixed-size C union holding one scalar: \<^verbatim>\<open>bool b\<close>, the
  integers \<^verbatim>\<open>i8 u8 i16 u16 i32 u32 i64 u64\<close> and the floats \<^verbatim>\<open>f32 f64\<close>. The union is
  modelled as its 64 bits of storage; every member starts at the union's first byte, so a
  member of width w is the low w bits (little-endian), and a store through a member
  replaces those bits and leaves the others. Signed and unsigned members of one width
  share their bits: signedness lives in the operations. A float member is its IEEE
  encoding.
\<close>

type_synonym nir_const_value = "64 word"

type_synonym int_t = "32 word"  \<comment> \<open>C \<^verbatim>\<open>int\<close>, the type small operands are promoted to\<close>

definition get_8 :: "nir_const_value \<Rightarrow> 8 word" where
  "get_8 v = ucast v"

definition get_16 :: "nir_const_value \<Rightarrow> 16 word" where
  "get_16 v = ucast v"

definition get_32 :: "nir_const_value \<Rightarrow> 32 word" where
  "get_32 v = ucast v"

definition get_64 :: "nir_const_value \<Rightarrow> 64 word" where
  "get_64 v = v"

definition set_8 :: "nir_const_value \<Rightarrow> 8 word \<Rightarrow> nir_const_value" where
  "set_8 v x = (v AND NOT (mask 8)) OR ucast x"

definition set_16 :: "nir_const_value \<Rightarrow> 16 word \<Rightarrow> nir_const_value" where
  "set_16 v x = (v AND NOT (mask 16)) OR ucast x"

definition set_32 :: "nir_const_value \<Rightarrow> 32 word \<Rightarrow> nir_const_value" where
  "set_32 v x = (v AND NOT (mask 32)) OR ucast x"

definition set_64 :: "nir_const_value \<Rightarrow> 64 word \<Rightarrow> nir_const_value" where
  "set_64 v x = x"

text \<open>
  The member \<^verbatim>\<open>b\<close> is a C \<^verbatim>\<open>bool\<close>, one byte holding 0 or 1. Reading it gives its
  least-significant bit; storing an integer expression \<^verbatim>\<open>e\<close> into it converts \<^verbatim>\<open>e\<close> to
  \<^verbatim>\<open>bool\<close> (\<^verbatim>\<open>e != 0\<close>) and writes the byte 0 or 1.
\<close>

definition get_b :: "nir_const_value \<Rightarrow> bool" where
  "get_b v = bit v 0"

definition set_b :: "nir_const_value \<Rightarrow> bool \<Rightarrow> nir_const_value" where
  "set_b v x = set_8 v (if x then 1 else 0)"

text \<open>
  A source typed as a 1-bit signed integer is read as \<^verbatim>\<open>-(int1_t)_src[k][_i].b\<close>, where
  \<^verbatim>\<open>int1_t\<close> is \<^verbatim>\<open>int8_t\<close>: the cast gives 0 or 1, the negation is done in \<^verbatim>\<open>int\<close> and the
  result goes back to \<^verbatim>\<open>int8_t\<close>. A 1-bit unsigned source is \<^verbatim>\<open>_src[k][_i].b\<close> converted
  to \<^verbatim>\<open>uint8_t\<close>. A 1-bit integer result \<^verbatim>\<open>dst\<close> is stored as \<^verbatim>\<open>_dst_val[_i].b = dst & 1\<close>,
  with \<^verbatim>\<open>dst\<close> promoted to \<^verbatim>\<open>int\<close> (sign-extended for \<^verbatim>\<open>int1_t\<close>, zero-extended for
  \<^verbatim>\<open>uint1_t\<close>); a boolean result is stored as \<^verbatim>\<open>_dst_val[_i].b = -(int)dst\<close>.
\<close>

definition get_int1 :: "nir_const_value \<Rightarrow> 8 word" where
  "get_int1 v = ucast (- (scast (of_bool (get_b v) :: 8 word) :: int_t))"

definition get_uint1 :: "nir_const_value \<Rightarrow> 8 word" where
  "get_uint1 v = of_bool (get_b v)"

definition set_int1 :: "nir_const_value \<Rightarrow> 8 word \<Rightarrow> nir_const_value" where
  "set_int1 v dst = set_b v ((scast dst :: int_t) AND 1 \<noteq> 0)"

definition set_uint1 :: "nir_const_value \<Rightarrow> 8 word \<Rightarrow> nir_const_value" where
  "set_uint1 v dst = set_b v ((ucast dst :: int_t) AND 1 \<noteq> 0)"

definition neg_int_bool :: "bool \<Rightarrow> int_t" where
  "neg_int_bool dst = - of_bool dst"

definition set_bool1 :: "nir_const_value \<Rightarrow> bool \<Rightarrow> nir_const_value" where
  "set_bool1 v dst = set_b v (neg_int_bool dst \<noteq> 0)"

definition set_bool32 :: "nir_const_value \<Rightarrow> bool \<Rightarrow> nir_const_value" where
  "set_bool32 v dst = set_32 v (neg_int_bool dst)"

section \<open>Evaluator results and the component loop\<close>

text \<open>
  Modelled from the spec: the macro \<^verbatim>\<open>unreachable\<close> (util/macros.h, not among the
  sources) is a fatal, immediate abort; an evaluator that reaches it returns
  \<open>Inl Unreachable\<close>. \<open>Inl Undefined\<close> marks an operation C leaves undefined and for which
  no machine convention exists: a shift by a count outside the operand's width and the
  signed division of the minimum by -1. Signed addition that overflows \<^verbatim>\<open>int\<close> or
  \<^verbatim>\<open>int64_t\<close> is modelled as two's-complement wrap-around, which is what the compiled
  code stores, except in \<^verbatim>\<open>iadd_sat\<close> at 32 and 64 bits, whose overflow tests compare the
  overflowing sum itself: there it is \<open>Undefined\<close>. A conversion to a narrower integer
  type keeps the low bits.
\<close>

datatype fault = Unreachable | Undefined

type_synonym result = "fault + nir_const_value list"

text \<open>
  \<^verbatim>\<open>for (unsigned _i = 0; _i < num_components; _i++) { ... _dst_val[_i].m = dst; }\<close>:
  the body computes the new contents of destination lane \<open>i\<close> (the source's
  \<^verbatim>\<open>_i\<close>; \<^verbatim>\<open>_dst_val\<close> and \<^verbatim>\<open>_src\<close> are written \<open>dst_val\<close> and \<open>src\<close>) from its old contents
  (a store through a narrow member keeps the other bits) and the sources. The vectors are
  the caller's arrays of 4 lanes, modelled as lists; the destination is distinct from the
  sources.
\<close>

primrec loop_components :: "(nat \<Rightarrow> nir_const_value \<Rightarrow> fault + nir_const_value) \<Rightarrow> nat list \<Rightarrow>
    nir_const_value list \<Rightarrow> result" where
  "loop_components body [] dst_val = Inr dst_val"
| "loop_components body (i # rest) dst_val =
     (case body i (dst_val ! i) of
        Inl e \<Rightarrow> Inl e
      | Inr v \<Rightarrow> loop_components body rest (dst_val[i := v]))"

definition for_components :: "nat \<Rightarrow> (nat \<Rightarrow> nir_const_value \<Rightarrow> fault + nir_const_value) \<Rightarrow>
    nir_const_value list \<Rightarrow> result" where
  "for_components num_components body dst_val =
     loop_components body [0..<num_components] dst_val"

text \<open>
  The evaluators are generated from one template: a switch on \<^verbatim>\<open>bit_size\<close> whose cases
  loop over the components, read each source lane through the member of the case's type,
  evaluate the opcode's expression and store the result through the destination's member.
  \<open>per_component2\<close> is that loop for two sources of one type and \<open>per_component3\<close>
  for three; the expression returns \<open>None\<close> where C leaves it undefined.
\<close>

definition per_component1 :: "(nir_const_value \<Rightarrow> 'a) \<Rightarrow> (nir_const_value \<Rightarrow> 'b \<Rightarrow> nir_const_value) \<Rightarrow>
    ('a \<Rightarrow> 'b option) \<Rightarrow> nir_const_value list \<Rightarrow> nat \<Rightarrow> nir_const_value list list \<Rightarrow> result" where
  "per_component1 rd wr expr dst_val num_components src =
     for_components num_components (\<lambda>i d.
       case expr (rd (src ! 0 ! i)) of
         None \<Rightarrow> Inl Undefined
       | Some dst \<Rightarrow> Inr (wr d dst)) dst_val"

definition per_component2 :: "(nir_const_value \<Rightarrow> 'a) \<Rightarrow> (nir_const_value \<Rightarrow> 'b \<Rightarrow> nir_const_value) \<Rightarrow>
    ('a \<Rightarrow> 'a \<Rightarrow> 'b option) \<Rightarrow> nir_const_value list \<Rightarrow> nat \<Rightarrow> nir_const_value list list \<Rightarrow> result" where
  "per_component2 rd wr expr dst_val num_components src =
     for_components num_components (\<lambda>i d.
       case expr (rd (src ! 0 ! i)) (rd (src ! 1 ! i)) of
         None \<Rightarrow> Inl Undefined
       | Some dst \<Rightarrow> Inr (wr d dst)) dst_val"

definition per_component3 :: "(nir_const_value \<Rightarrow> 'a) \<Rightarrow> (nir_const_value \<Rightarrow> 'b \<Rightarrow> nir_const_value) \<Rightarrow>
    ('a \<Rightarrow> 'a \<Rightarrow> 'a \<Rightarrow> 'b option) \<Rightarrow> nir_const_value list \<Rightarrow> nat \<Rightarrow> nir_const_value list list \<Rightarrow> result" where
  "per_component3 rd wr expr dst_val num_components src =
     for_components num_components (\<lambda>i d.
       case expr (rd (src ! 0 ! i)) (rd (src ! 1 ! i)) (rd (src ! 2 ! i)) of
         None \<Rightarrow> Inl Undefined
       | Some dst \<Rightarrow> Inr (wr d dst)) dst_val"

section \<open>iadd\<close>

text \<open>
  \<^verbatim>\<open>int8_t dst = src0 + src1;\<close> and its siblings. At 1, 8 and 16 bits the operands are
  promoted to \<^verbatim>\<open>int\<close>, added there and converted back; at 32 and 64 bits the addition
  is done at the operands' own width.
\<close>

definition iadd_8 :: "8 word \<Rightarrow> 8 word \<Rightarrow> 8 word" where
  "iadd_8 src0 src1 = ucast ((scast src0 :: int_t) + scast src1)"

definition iadd_16 :: "16 word \<Rightarrow> 16 word \<Rightarrow> 16 word" where
  "iadd_16 src0 src1 = ucast ((scast src0 :: int_t) + scast src1)"

definition iadd_32 :: "32 word \<Rightarrow> 32 word \<Rightarrow> 32 word" where
  "iadd_32 src0 src1 = src0 + src1"

definition iadd_64 :: "64 word \<Rightarrow> 64 word \<Rightarrow> 64 word" where
  "iadd_64 src0 src1 = src0 + src1"

definition evaluate_iadd :: "nir_const_value list \<Rightarrow> nat \<Rightarrow> nat \<Rightarrow> nir_const_value list list \<Rightarrow> result" where
  "evaluate_iadd dst_val num_components bit_size src =
     (if bit_size = 1 then
        per_component2 get_int1 set_int1 (\<lambda>src0 src1. Some (iadd_8 src0 src1)) dst_val num_components src
      else if bit_size = 8 then
        per_component2 get_8 set_8 (\<lambda>src0 src1. Some (iadd_8 src0 src1)) dst_val num_components src
      else if bit_size = 16 then
        per_component2 get_16 set_16 (\<lambda>src0 src1. Some (iadd_16 src0 src1)) dst_val num_components src
      else if bit_size = 32 then
        per_component2 get_32 set_32 (\<lambda>src0 src1. Some (iadd_32 src0 src1)) dst_val num_components src
      else if bit_size = 64 then
        per_component2 get_64 set_64 (\<lambda>src0 src1. Some (iadd_64 src0 src1)) dst_val num_components src
      else Inl Unreachable)"

section \<open>Saturating addition\<close>

text \<open>
  \<^verbatim>\<open>#define MAX_UINT_FOR_SIZE(bits) (UINT64_MAX >> (64 - (bits)))\<close>
\<close>

definition MAX_UINT_FOR_SIZE :: "nat \<Rightarrow> 64 word" where
  "MAX_UINT_FOR_SIZE bits = drop_bit (64 - bits) (- 1)"

text \<open>
  \<^verbatim>\<open>uint8_t dst = (src0 + src1) < src0 ? MAX_UINT_FOR_SIZE(sizeof(src0) * 8) : (src0 + src1);\<close>
  At 1, 8 and 16 bits \<^verbatim>\<open>src0 + src1\<close> and the comparison are done in \<^verbatim>\<open>int\<close>, after
  promotion; at 32 and 64 bits in the unsigned type itself. The conditional has type
  \<^verbatim>\<open>uint64_t\<close> (the macro's), and its value is converted to the type of \<^verbatim>\<open>dst\<close>.
  \<^verbatim>\<open>uint1_t\<close> is \<^verbatim>\<open>uint8_t\<close>, so case 1 evaluates the expression of case 8.
\<close>

definition uadd_sat_8 :: "8 word \<Rightarrow> 8 word \<Rightarrow> 8 word" where
  "uadd_sat_8 src0 src1 =
     ucast (if (ucast src0 :: int_t) + ucast src1 <s ucast src0
            then MAX_UINT_FOR_SIZE (1 * 8)
            else scast ((ucast src0 :: int_t) + ucast src1))"

definition uadd_sat_16 :: "16 word \<Rightarrow> 16 word \<Rightarrow> 16 word" where
  "uadd_sat_16 src0 src1 =
     ucast (if (ucast src0 :: int_t) + ucast src1 <s ucast src0
            then MAX_UINT_FOR_SIZE (2 * 8)
            else scast ((ucast src0 :: int_t) + ucast src1))"

definition uadd_sat_32 :: "32 word \<Rightarrow> 32 word \<Rightarrow> 32 word" where
  "uadd_sat_32 src0 src1 =
     ucast (if src0 + src1 < src0 then MAX_UINT_FOR_SIZE (4 * 8) else ucast (src0 + src1))"

definition uadd_sat_64 :: "64 word \<Rightarrow> 64 word \<Rightarrow> 64 word" where
  "uadd_sat_64 src0 src1 =
     (if src0 + src1 < src0 then MAX_UINT_FOR_SIZE (8 * 8) else src0 + src1)"

definition evaluate_uadd_sat :: "nir_const_value list \<Rightarrow> nat \<Rightarrow> nat \<Rightarrow> nir_const_value list list \<Rightarrow> result" where
  "evaluate_uadd_sat dst_val num_components bit_size src =
     (if bit_size = 1 then
        per_component2 get_uint1 set_uint1 (\<lambda>src0 src1. Some (uadd_sat_8 src0 src1)) dst_val num_components src
      else if bit_size = 8 then
        per_component2 get_8 set_8 (\<lambda>src0 src1. Some (uadd_sat_8 src0 src1)) dst_val num_components src
      else if bit_size = 16 then
        per_component2 get_16 set_16 (\<lambda>src0 src1. Some (uadd_sat_16 src0 src1)) dst_val num_components src
      else if bit_size = 32 then
        per_component2 get_32 set_32 (\<lambda>src0 src1. Some (uadd_sat_32 src0 src1)) dst_val num_components src
      else if bit_size = 64 then
        per_component2 get_64 set_64 (\<lambda>src0 src1. Some (uadd_sat_64 src0 src1)) dst_val num_components src
      else Inl Unreachable)"

text \<open>
  \<^verbatim>\<open>src1 > 0 ?
     (src0 + src1 < src0 ? (1ull << (bit_size - 1)) - 1 : src0 + src1) :
     (src0 < src0 + src1 ? (1ull << (bit_size - 1))     : src0 + src1)\<close>
  Both inner conditionals have type \<^verbatim>\<open>unsigned long long\<close>: the sum is sign-extended to
  64 bits, and the value of the whole expression is converted to the type of \<^verbatim>\<open>dst\<close>.
  \<^verbatim>\<open>bit_size\<close> is the evaluator's parameter.
\<close>

definition iadd_sat_8 :: "nat \<Rightarrow> 8 word \<Rightarrow> 8 word \<Rightarrow> 8 word" where
  "iadd_sat_8 bit_size src0 src1 =
     (let a = scast src0 :: int_t; b = scast src1 :: int_t in
      ucast (if 0 <s b
             then (if a + b <s a then push_bit (bit_size - 1) (1 :: 64 word) - 1 else scast (a + b))
             else (if a <s a + b then push_bit (bit_size - 1) (1 :: 64 word) else scast (a + b))))"

definition iadd_sat_16 :: "nat \<Rightarrow> 16 word \<Rightarrow> 16 word \<Rightarrow> 16 word" where
  "iadd_sat_16 bit_size src0 src1 =
     (let a = scast src0 :: int_t; b = scast src1 :: int_t in
      ucast (if 0 <s b
             then (if a + b <s a then push_bit (bit_size - 1) (1 :: 64 word) - 1 else scast (a + b))
             else (if a <s a + b then push_bit (bit_size - 1) (1 :: 64 word) else scast (a + b))))"

text \<open>
  At 32 and 64 bits the sum \<^verbatim>\<open>src0 + src1\<close> is a signed addition at the operands' own
  width, which C leaves undefined when it overflows: a compiler may take the overflow
  tests \<^verbatim>\<open>src0 + src1 < src0\<close> and \<^verbatim>\<open>src0 < src0 + src1\<close> to be false. \<open>c_sadd\<close> is the
  signed addition, defined where the sum is representable.
\<close>

definition c_sadd :: "'a::len word \<Rightarrow> 'a word \<Rightarrow> 'a word option" where
  "c_sadd a b =
     (if - (2 ^ (LENGTH('a) - 1)) \<le> sint a + sint b \<and> sint a + sint b < 2 ^ (LENGTH('a) - 1)
      then Some (a + b) else None)"

definition iadd_sat_32 :: "nat \<Rightarrow> 32 word \<Rightarrow> 32 word \<Rightarrow> 32 word option" where
  "iadd_sat_32 bit_size src0 src1 =
     (case c_sadd src0 src1 of
        None \<Rightarrow> None
      | Some s01 \<Rightarrow>
          Some (ucast (if 0 <s src1
                       then (if s01 <s src0 then push_bit (bit_size - 1) (1 :: 64 word) - 1 else scast s01)
                       else (if src0 <s s01 then push_bit (bit_size - 1) (1 :: 64 word) else scast s01))))"

definition iadd_sat_64 :: "nat \<Rightarrow> 64 word \<Rightarrow> 64 word \<Rightarrow> 64 word option" where
  "iadd_sat_64 bit_size src0 src1 =
     (case c_sadd src0 src1 of
        None \<Rightarrow> None
      | Some s01 \<Rightarrow>
          Some (if 0 <s src1
                then (if s01 <s src0 then push_bit (bit_size - 1) (1 :: 64 word) - 1 else s01)
                else (if src0 <s s01 then push_bit (bit_size - 1) (1 :: 64 word) else s01)))"

definition evaluate_iadd_sat :: "nir_const_value list \<Rightarrow> nat \<Rightarrow> nat \<Rightarrow> nir_const_value list list \<Rightarrow> result" where
  "evaluate_iadd_sat dst_val num_components bit_size src =
     (if bit_size = 1 then
        per_component2 get_int1 set_int1 (\<lambda>src0 src1. Some (iadd_sat_8 bit_size src0 src1)) dst_val num_components src
      else if bit_size = 8 then
        per_component2 get_8 set_8 (\<lambda>src0 src1. Some (iadd_sat_8 bit_size src0 src1)) dst_val num_components src
      else if bit_size = 16 then
        per_component2 get_16 set_16 (\<lambda>src0 src1. Some (iadd_sat_16 bit_size src0 src1)) dst_val num_components src
      else if bit_size = 32 then
        per_component2 get_32 set_32 (iadd_sat_32 bit_size) dst_val num_components src
      else if bit_size = 64 then
        per_component2 get_64 set_64 (iadd_sat_64 bit_size) dst_val num_components src
      else Inl Unreachable)"

section \<open>Integer division and remainder\<close>

text \<open>
  C's \<^verbatim>\<open>/\<close> and \<^verbatim>\<open>%\<close> on signed operands truncate the quotient towards zero and give
  the remainder the sign of the dividend. Both are undefined for a zero divisor and when
  the quotient is not representable (the minimum divided by -1). On unsigned operands
  they are the natural-number quotient and remainder.
\<close>

definition c_sdiv :: "'a::len word \<Rightarrow> 'a word \<Rightarrow> 'a word option" where
  "c_sdiv a b =
     (if b = 0 \<or> (sint a = - (2 ^ (LENGTH('a) - 1)) \<and> b = - 1) then None
      else Some (word_of_int (sint a sdiv sint b)))"

definition c_srem :: "'a::len word \<Rightarrow> 'a word \<Rightarrow> 'a word option" where
  "c_srem a b =
     (if b = 0 \<or> (sint a = - (2 ^ (LENGTH('a) - 1)) \<and> b = - 1) then None
      else Some (word_of_int (sint a smod sint b)))"

definition c_udiv :: "'a::len word \<Rightarrow> 'a word \<Rightarrow> 'a word option" where
  "c_udiv a b = (if b = 0 then None else Some (a div b))"

definition c_urem :: "'a::len word \<Rightarrow> 'a word \<Rightarrow> 'a word option" where
  "c_urem a b = (if b = 0 then None else Some (a mod b))"

text \<open>
  \<^verbatim>\<open>int8_t dst = src1 == 0 ? 0 : (src0 / src1);\<close> At 1, 8 and 16 bits the operands are
  promoted to \<^verbatim>\<open>int\<close> and the quotient is converted back.
\<close>

definition idiv_8 :: "8 word \<Rightarrow> 8 word \<Rightarrow> 8 word option" where
  "idiv_8 src0 src1 =
     (if (scast src1 :: int_t) = 0 then Some 0
      else map_option ucast (c_sdiv (scast src0 :: int_t) (scast src1)))"

definition idiv_16 :: "16 word \<Rightarrow> 16 word \<Rightarrow> 16 word option" where
  "idiv_16 src0 src1 =
     (if (scast src1 :: int_t) = 0 then Some 0
      else map_option ucast (c_sdiv (scast src0 :: int_t) (scast src1)))"

definition idiv_32 :: "32 word \<Rightarrow> 32 word \<Rightarrow> 32 word option" where
  "idiv_32 src0 src1 = (if src1 = 0 then Some 0 else c_sdiv src0 src1)"

definition idiv_64 :: "64 word \<Rightarrow> 64 word \<Rightarrow> 64 word option" where
  "idiv_64 src0 src1 = (if src1 = 0 then Some 0 else c_sdiv src0 src1)"

definition evaluate_idiv :: "nir_const_value list \<Rightarrow> nat \<Rightarrow> nat \<Rightarrow> nir_const_value list list \<Rightarrow> result" where
  "evaluate_idiv dst_val num_components bit_size src =
     (if bit_size = 1 then per_component2 get_int1 set_int1 idiv_8 dst_val num_components src
      else if bit_size = 8 then per_component2 get_8 set_8 idiv_8 dst_val num_components src
      else if bit_size = 16 then per_component2 get_16 set_16 idiv_16 dst_val num_components src
      else if bit_size = 32 then per_component2 get_32 set_32 idiv_32 dst_val num_components src
      else if bit_size = 64 then per_component2 get_64 set_64 idiv_64 dst_val num_components src
      else Inl Unreachable)"

text \<open>
  \<^verbatim>\<open>uint8_t dst = src1 == 0 ? 0 : (src0 / src1);\<close> The promoted operands of the narrow
  cases are non-negative \<^verbatim>\<open>int\<close>s.
\<close>

definition udiv_8 :: "8 word \<Rightarrow> 8 word \<Rightarrow> 8 word option" where
  "udiv_8 src0 src1 =
     (if (ucast src1 :: int_t) = 0 then Some 0
      else map_option ucast (c_sdiv (ucast src0 :: int_t) (ucast src1)))"

definition udiv_16 :: "16 word \<Rightarrow> 16 word \<Rightarrow> 16 word option" where
  "udiv_16 src0 src1 =
     (if (ucast src1 :: int_t) = 0 then Some 0
      else map_option ucast (c_sdiv (ucast src0 :: int_t) (ucast src1)))"

definition udiv_32 :: "32 word \<Rightarrow> 32 word \<Rightarrow> 32 word option" where
  "udiv_32 src0 src1 = (if src1 = 0 then Some 0 else c_udiv src0 src1)"

definition udiv_64 :: "64 word \<Rightarrow> 64 word \<Rightarrow> 64 word option" where
  "udiv_64 src0 src1 = (if src1 = 0 then Some 0 else c_udiv src0 src1)"

definition evaluate_udiv :: "nir_const_value list \<Rightarrow> nat \<Rightarrow> nat \<Rightarrow> nir_const_value list list \<Rightarrow> result" where
  "evaluate_udiv dst_val num_components bit_size src =
     (if bit_size = 1 then per_component2 get_uint1 set_uint1 udiv_8 dst_val num_components src
      else if bit_size = 8 then per_component2 get_8 set_8 udiv_8 dst_val num_components src
      else if bit_size = 16 then per_component2 get_16 set_16 udiv_16 dst_val num_components src
      else if bit_size = 32 then per_component2 get_32 set_32 udiv_32 dst_val num_components src
      else if bit_size = 64 then per_component2 get_64 set_64 udiv_64 dst_val num_components src
      else Inl Unreachable)"

text \<open>
  \<^verbatim>\<open>src1 == 0 ? 0 : ((src0 % src1 == 0 || (src0 >= 0) == (src1 >= 0)) ?
     src0 % src1 : src0 % src1 + src1)\<close>
\<close>

definition imod_expr :: "'a::len word \<Rightarrow> 'a word \<Rightarrow> 'a word option" where
  "imod_expr src0 src1 =
     (if src1 = 0 then Some 0
      else case c_srem src0 src1 of
             None \<Rightarrow> None
           | Some r \<Rightarrow> Some (if r = 0 \<or> ((0 \<le>s src0) = (0 \<le>s src1)) then r else r + src1))"

definition imod_8 :: "8 word \<Rightarrow> 8 word \<Rightarrow> 8 word option" where
  "imod_8 src0 src1 = map_option ucast (imod_expr (scast src0 :: int_t) (scast src1))"

definition imod_16 :: "16 word \<Rightarrow> 16 word \<Rightarrow> 16 word option" where
  "imod_16 src0 src1 = map_option ucast (imod_expr (scast src0 :: int_t) (scast src1))"

definition imod_32 :: "32 word \<Rightarrow> 32 word \<Rightarrow> 32 word option" where
  "imod_32 src0 src1 = imod_expr src0 src1"

definition imod_64 :: "64 word \<Rightarrow> 64 word \<Rightarrow> 64 word option" where
  "imod_64 src0 src1 = imod_expr src0 src1"

definition evaluate_imod :: "nir_const_value list \<Rightarrow> nat \<Rightarrow> nat \<Rightarrow> nir_const_value list list \<Rightarrow> result" where
  "evaluate_imod dst_val num_components bit_size src =
     (if bit_size = 1 then per_component2 get_int1 set_int1 imod_8 dst_val num_components src
      else if bit_size = 8 then per_component2 get_8 set_8 imod_8 dst_val num_components src
      else if bit_size = 16 then per_component2 get_16 set_16 imod_16 dst_val num_components src
      else if bit_size = 32 then per_component2 get_32 set_32 imod_32 dst_val num_components src
      else if bit_size = 64 then per_component2 get_64 set_64 imod_64 dst_val num_components src
      else Inl Unreachable)"

text \<open>
  \<^verbatim>\<open>int8_t dst = src1 == 0 ? 0 : src0 % src1;\<close>
\<close>

definition irem_8 :: "8 word \<Rightarrow> 8 word \<Rightarrow> 8 word option" where
  "irem_8 src0 src1 =
     (if (scast src1 :: int_t) = 0 then Some 0
      else map_option ucast (c_srem (scast src0 :: int_t) (scast src1)))"

definition irem_16 :: "16 word \<Rightarrow> 16 word \<Rightarrow> 16 word option" where
  "irem_16 src0 src1 =
     (if (scast src1 :: int_t) = 0 then Some 0
      else map_option ucast (c_srem (scast src0 :: int_t) (scast src1)))"

definition irem_32 :: "32 word \<Rightarrow> 32 word \<Rightarrow> 32 word option" where
  "irem_32 src0 src1 = (if src1 = 0 then Some 0 else c_srem src0 src1)"

definition irem_64 :: "64 word \<Rightarrow> 64 word \<Rightarrow> 64 word option" where
  "irem_64 src0 src1 = (if src1 = 0 then Some 0 else c_srem src0 src1)"

definition evaluate_irem :: "nir_const_value list \<Rightarrow> nat \<Rightarrow> nat \<Rightarrow> nir_const_value list list \<Rightarrow> result" where
  "evaluate_irem dst_val num_components bit_size src =
     (if bit_size = 1 then per_component2 get_int1 set_int1 irem_8 dst_val num_components src
      else if bit_size = 8 then per_component2 get_8 set_8 irem_8 dst_val num_components src
      else if bit_size = 16 then per_component2 get_16 set_16 irem_16 dst_val num_components src
      else if bit_size = 32 then per_component2 get_32 set_32 irem_32 dst_val num_components src
      else if bit_size = 64 then per_component2 get_64 set_64 irem_64 dst_val num_components src
      else Inl Unreachable)"

text \<open>
  \<^verbatim>\<open>uint8_t dst = src1 == 0 ? 0 : src0 % src1;\<close>
\<close>

definition umod_8 :: "8 word \<Rightarrow> 8 word \<Rightarrow> 8 word option" where
  "umod_8 src0 src1 =
     (if (ucast src1 :: int_t) = 0 then Some 0
      else map_option ucast (c_srem (ucast src0 :: int_t) (ucast src1)))"

definition umod_16 :: "16 word \<Rightarrow> 16 word \<Rightarrow> 16 word option" where
  "umod_16 src0 src1 =
     (if (ucast src1 :: int_t) = 0 then Some 0
      else map_option ucast (c_srem (ucast src0 :: int_t) (ucast src1)))"

definition umod_32 :: "32 word \<Rightarrow> 32 word \<Rightarrow> 32 word option" where
  "umod_32 src0 src1 = (if src1 = 0 then Some 0 else c_urem src0 src1)"

definition umod_64 :: "64 word \<Rightarrow> 64 word \<Rightarrow> 64 word option" where
  "umod_64 src0 src1 = (if src1 = 0 then Some 0 else c_urem src0 src1)"

definition evaluate_umod :: "nir_const_value list \<Rightarrow> nat \<Rightarrow> nat \<Rightarrow> nir_const_value list list \<Rightarrow> result" where
  "evaluate_umod dst_val num_components bit_size src =
     (if bit_size = 1 then per_component2 get_uint1 set_uint1 umod_8 dst_val num_components src
      else if bit_size = 8 then per_component2 get_8 set_8 umod_8 dst_val num_components src
      else if bit_size = 16 then per_component2 get_16 set_16 umod_16 dst_val num_components src
      else if bit_size = 32 then per_component2 get_32 set_32 umod_32 dst_val num_components src
      else if bit_size = 64 then per_component2 get_64 set_64 umod_64 dst_val num_components src
      else Inl Unreachable)"

section \<open>Bitfield extraction\<close>

text \<open>
  C's shifts of an unsigned operand by an \<^verbatim>\<open>int\<close> count: defined for a count from 0 to
  the operand's width minus one.
\<close>

definition c_shl :: "'a::len word \<Rightarrow> int_t \<Rightarrow> 'a word option" where
  "c_shl a n = (if 0 \<le>s n \<and> sint n < int LENGTH('a) then Some (push_bit (unat n) a) else None)"

definition c_shr :: "'a::len word \<Rightarrow> int_t \<Rightarrow> 'a word option" where
  "c_shr a n = (if 0 \<le>s n \<and> sint n < int LENGTH('a) then Some (drop_bit (unat n) a) else None)"

text \<open>
  \<^verbatim>\<open>unsigned base = src0;
  int offset = src1, bits = src2;
  if (bits == 0) {
     dst = 0;
  } else if (bits < 0 || offset < 0) {
     dst = 0; /* undefined */
  } else if (offset + bits < 32) {
     dst = (base << (32 - bits - offset)) >> (32 - bits);
  } else {
     dst = base >> offset;
  }\<close>
\<close>

definition ubfe :: "32 word \<Rightarrow> int_t \<Rightarrow> int_t \<Rightarrow> 32 word option" where
  "ubfe src0 src1 src2 =
     (let base = src0; offset = src1; bits = src2 in
      if bits = 0 then Some 0
      else if bits <s 0 \<or> offset <s 0 then Some 0
      else if offset + bits <s 32 then
        (case c_shl base (32 - bits - offset) of
           None \<Rightarrow> None
         | Some t \<Rightarrow> c_shr t (32 - bits))
      else c_shr base offset)"

definition evaluate_ubfe :: "nir_const_value list \<Rightarrow> nat \<Rightarrow> nat \<Rightarrow> nir_const_value list list \<Rightarrow> result" where
  "evaluate_ubfe dst_val num_components bit_size src =
     per_component3 get_32 set_32 ubfe dst_val num_components src"

text \<open>
  \<^verbatim>\<open>unsigned base = src0;
  int offset = src1, bits = src2;
  if (bits == 0) {
     dst = 0;
  } else if (bits < 0 || offset < 0 || offset + bits > 32) {
     dst = 0; /* undefined per the spec */
  } else {
     dst = (base >> offset) & ((1ull << bits) - 1);
  }\<close>
\<close>

definition ubitfield_extract :: "32 word \<Rightarrow> int_t \<Rightarrow> int_t \<Rightarrow> 32 word option" where
  "ubitfield_extract src0 src1 src2 =
     (let base = src0; offset = src1; bits = src2 in
      if bits = 0 then Some 0
      else if bits <s 0 \<or> offset <s 0 \<or> 32 <s offset + bits then Some 0
      else
        (case c_shr base offset of
           None \<Rightarrow> None
         | Some s \<Rightarrow>
             (case c_shl (1 :: 64 word) bits of
                None \<Rightarrow> None
              | Some m \<Rightarrow> Some (ucast ((ucast s :: 64 word) AND (m - 1))))))"

definition evaluate_ubitfield_extract :: "nir_const_value list \<Rightarrow> nat \<Rightarrow> nat \<Rightarrow> nir_const_value list list \<Rightarrow> result" where
  "evaluate_ubitfield_extract dst_val num_components bit_size src =
     per_component3 get_32 set_32 ubitfield_extract dst_val num_components src"

section \<open>Comparisons\<close>

text \<open>
  The integer comparisons \<^verbatim>\<open>bool1_t dst = src0 < src1;\<close> compare the values of their
  operands: signed for \<^verbatim>\<open>ieq ine ilt ige\<close>, unsigned for \<^verbatim>\<open>ult uge\<close> (integer promotion
  keeps values and order). The opcodes without suffix store \<^verbatim>\<open>_dst_val[_i].b = -(int)dst\<close>,
  the opcodes with suffix 32 store \<^verbatim>\<open>_dst_val[_i].i32 = -(int)dst\<close>; \<^verbatim>\<open>bit_size\<close> selects the
  type of the sources.
\<close>

definition evaluate_ieq :: "nir_const_value list \<Rightarrow> nat \<Rightarrow> nat \<Rightarrow> nir_const_value list list \<Rightarrow> result" where
  "evaluate_ieq dst_val num_components bit_size src =
     (if bit_size = 1 then per_component2 get_int1 set_bool1 (\<lambda>src0 src1. Some (src0 = src1)) dst_val num_components src
      else if bit_size = 8 then per_component2 get_8 set_bool1 (\<lambda>src0 src1. Some (src0 = src1)) dst_val num_components src
      else if bit_size = 16 then per_component2 get_16 set_bool1 (\<lambda>src0 src1. Some (src0 = src1)) dst_val num_components src
      else if bit_size = 32 then per_component2 get_32 set_bool1 (\<lambda>src0 src1. Some (src0 = src1)) dst_val num_components src
      else if bit_size = 64 then per_component2 get_64 set_bool1 (\<lambda>src0 src1. Some (src0 = src1)) dst_val num_components src
      else Inl Unreachable)"

definition evaluate_ine :: "nir_const_value list \<Rightarrow> nat \<Rightarrow> nat \<Rightarrow> nir_const_value list list \<Rightarrow> result" where
  "evaluate_ine dst_val num_components bit_size src =
     (if bit_size = 1 then per_component2 get_int1 set_bool1 (\<lambda>src0 src1. Some (src0 \<noteq> src1)) dst_val num_components src
      else if bit_size = 8 then per_component2 get_8 set_bool1 (\<lambda>src0 src1. Some (src0 \<noteq> src1)) dst_val num_components src
      else if bit_size = 16 then per_component2 get_16 set_bool1 (\<lambda>src0 src1. Some (src0 \<noteq> src1)) dst_val num_components src
      else if bit_size = 32 then per_component2 get_32 set_bool1 (\<lambda>src0 src1. Some (src0 \<noteq> src1)) dst_val num_components src
      else if bit_size = 64 then per_component2 get_64 set_bool1 (\<lambda>src0 src1. Some (src0 \<noteq> src1)) dst_val num_components src
      else Inl Unreachable)"

definition evaluate_ilt :: "nir_const_value list \<Rightarrow> nat \<Rightarrow> nat \<Rightarrow> nir_const_value list list \<Rightarrow> result" where
  "evaluate_ilt dst_val num_components bit_size src =
     (if bit_size = 1 then per_component2 get_int1 set_bool1 (\<lambda>src0 src1. Some (src0 <s src1)) dst_val num_components src
      else if bit_size = 8 then per_component2 get_8 set_bool1 (\<lambda>src0 src1. Some (src0 <s src1)) dst_val num_components src
      else if bit_size = 16 then per_component2 get_16 set_bool1 (\<lambda>src0 src1. Some (src0 <s src1)) dst_val num_components src
      else if bit_size = 32 then per_component2 get_32 set_bool1 (\<lambda>src0 src1. Some (src0 <s src1)) dst_val num_components src
      else if bit_size = 64 then per_component2 get_64 set_bool1 (\<lambda>src0 src1. Some (src0 <s src1)) dst_val num_components src
      else Inl Unreachable)"

definition evaluate_ige :: "nir_const_value list \<Rightarrow> nat \<Rightarrow> nat \<Rightarrow> nir_const_value list list \<Rightarrow> result" where
  "evaluate_ige dst_val num_components bit_size src =
     (if bit_size = 1 then per_component2 get_int1 set_bool1 (\<lambda>src0 src1. Some (src1 \<le>s src0)) dst_val num_components src
      else if bit_size = 8 then per_component2 get_8 set_bool1 (\<lambda>src0 src1. Some (src1 \<le>s src0)) dst_val num_components src
      else if bit_size = 16 then per_component2 get_16 set_bool1 (\<lambda>src0 src1. Some (src1 \<le>s src0)) dst_val num_components src
      else if bit_size = 32 then per_component2 get_32 set_bool1 (\<lambda>src0 src1. Some (src1 \<le>s src0)) dst_val num_components src
      else if bit_size = 64 then per_component2 get_64 set_bool1 (\<lambda>src0 src1. Some (src1 \<le>s src0)) dst_val num_components src
      else Inl Unreachable)"

definition evaluate_ult :: "nir_const_value list \<Rightarrow> nat \<Rightarrow> nat \<Rightarrow> nir_const_value list list \<Rightarrow> result" where
  "evaluate_ult dst_val num_components bit_size src =
     (if bit_size = 1 then per_component2 get_uint1 set_bool1 (\<lambda>src0 src1. Some (src0 < src1)) dst_val num_components src
      else if bit_size = 8 then per_component2 get_8 set_bool1 (\<lambda>src0 src1. Some (src0 < src1)) dst_val num_components src
      else if bit_size = 16 then per_component2 get_16 set_bool1 (\<lambda>src0 src1. Some (src0 < src1)) dst_val num_components src
      else if bit_size = 32 then per_component2 get_32 set_bool1 (\<lambda>src0 src1. Some (src0 < src1)) dst_val num_components src
      else if bit_size = 64 then per_component2 get_64 set_bool1 (\<lambda>src0 src1. Some (src0 < src1)) dst_val num_components src
      else Inl Unreachable)"

definition evaluate_uge :: "nir_const_value list \<Rightarrow> nat \<Rightarrow> nat \<Rightarrow> nir_const_value list list \<Rightarrow> result" where
  "evaluate_uge dst_val num_components bit_size src =
     (if bit_size = 1 then per_component2 get_uint1 set_bool1 (\<lambda>src0 src1. Some (src1 \<le> src0)) dst_val num_components src
      else if bit_size = 8 then per_component2 get_8 set_bool1 (\<lambda>src0 src1. Some (src1 \<le> src0)) dst_val num_components src
      else if bit_size = 16 then per_component2 get_16 set_bool1 (\<lambda>src0 src1. Some (src1 \<le> src0)) dst_val num_components src
      else if bit_size = 32 then per_component2 get_32 set_bool1 (\<lambda>src0 src1. Some (src1 \<le> src0)) dst_val num_components src
      else if bit_size = 64 then per_component2 get_64 set_bool1 (\<lambda>src0 src1. Some (src1 \<le> src0)) dst_val num_components src
      else Inl Unreachable)"

definition evaluate_ieq32 :: "nir_const_value list \<Rightarrow> nat \<Rightarrow> nat \<Rightarrow> nir_const_value list list \<Rightarrow> result" where
  "evaluate_ieq32 dst_val num_components bit_size src =
     (if bit_size = 1 then per_component2 get_int1 set_bool32 (\<lambda>src0 src1. Some (src0 = src1)) dst_val num_components src
      else if bit_size = 8 then per_component2 get_8 set_bool32 (\<lambda>src0 src1. Some (src0 = src1)) dst_val num_components src
      else if bit_size = 16 then per_component2 get_16 set_bool32 (\<lambda>src0 src1. Some (src0 = src1)) dst_val num_components src
      else if bit_size = 32 then per_component2 get_32 set_bool32 (\<lambda>src0 src1. Some (src0 = src1)) dst_val num_components src
      else if bit_size = 64 then per_component2 get_64 set_bool32 (\<lambda>src0 src1. Some (src0 = src1)) dst_val num_components src
      else Inl Unreachable)"

definition evaluate_ine32 :: "nir_const_value list \<Rightarrow> nat \<Rightarrow> nat \<Rightarrow> nir_const_value list list \<Rightarrow> result" where
  "evaluate_ine32 dst_val num_components bit_size src =
     (if bit_size = 1 then per_component2 get_int1 set_bool32 (\<lambda>src0 src1. Some (src0 \<noteq> src1)) dst_val num_components src
      else if bit_size = 8 then per_component2 get_8 set_bool32 (\<lambda>src0 src1. Some (src0 \<noteq> src1)) dst_val num_components src
      else if bit_size = 16 then per_component2 get_16 set_bool32 (\<lambda>src0 src1. Some (src0 \<noteq> src1)) dst_val num_components src
      else if bit_size = 32 then per_component2 get_32 set_bool32 (\<lambda>src0 src1. Some (src0 \<noteq> src1)) dst_val num_components src
      else if bit_size = 64 then per_component2 get_64 set_bool32 (\<lambda>src0 src1. Some (src0 \<noteq> src1)) dst_val num_components src
      else Inl Unreachable)"

definition evaluate_ilt32 :: "nir_const_value list \<Rightarrow> nat \<Rightarrow> nat \<Rightarrow> nir_const_value list list \<Rightarrow> result" where
  "evaluate_ilt32 dst_val num_components bit_size src =
     (if bit_size = 1 then per_component2 get_int1 set_bool32 (\<lambda>src0 src1. Some (src0 <s src1)) dst_val num_components src
      else if bit_size = 8 then per_component2 get_8 set_bool32 (\<lambda>src0 src1. Some (src0 <s src1)) dst_val num_components src
      else if bit_size = 16 then per_component2 get_16 set_bool32 (\<lambda>src0 src1. Some (src0 <s src1)) dst_val num_components src
      else if bit_size = 32 then per_component2 get_32 set_bool32 (\<lambda>src0 src1. Some (src0 <s src1)) dst_val num_components src
      else if bit_size = 64 then per_component2 get_64 set_bool32 (\<lambda>src0 src1. Some (src0 <s src1)) dst_val num_components src
      else Inl Unreachable)"

definition evaluate_ige32 :: "nir_const_value list \<Rightarrow> nat \<Rightarrow> nat \<Rightarrow> nir_const_value list list \<Rightarrow> result" where
  "evaluate_ige32 dst_val num_components bit_size src =
     (if bit_size = 1 then per_component2 get_int1 set_bool32 (\<lambda>src0 src1. Some (src1 \<le>s src0)) dst_val num_components src
      else if bit_size = 8 then per_component2 get_8 set_bool32 (\<lambda>src0 src1. Some (src1 \<le>s src0)) dst_val num_components src
      else if bit_size = 16 then per_component2 get_16 set_bool32 (\<lambda>src0 src1. Some (src1 \<le>s src0)) dst_val num_components src
      else if bit_size = 32 then per_component2 get_32 set_bool32 (\<lambda>src0 src1. Some (src1 \<le>s src0)) dst_val num_components src
      else if bit_size = 64 then per_component2 get_64 set_bool32 (\<lambda>src0 src1. Some (src1 \<le>s src0)) dst_val num_components src
      else Inl Unreachable)"

definition evaluate_ult32 :: "nir_const_value list \<Rightarrow> nat \<Rightarrow> nat \<Rightarrow> nir_const_value list list \<Rightarrow> result" where
  "evaluate_ult32 dst_val num_components bit_size src =
     (if bit_size = 1 then per_component2 get_uint1 set_bool32 (\<lambda>src0 src1. Some (src0 < src1)) dst_val num_components src
      else if bit_size = 8 then per_component2 get_8 set_bool32 (\<lambda>src0 src1. Some (src0 < src1)) dst_val num_components src
      else if bit_size = 16 then per_component2 get_16 set_bool32 (\<lambda>src0 src1. Some (src0 < src1)) dst_val num_components src
      else if bit_size = 32 then per_component2 get_32 set_bool32 (\<lambda>src0 src1. Some (src0 < src1)) dst_val num_components src
      else if bit_size = 64 then per_component2 get_64 set_bool32 (\<lambda>src0 src1. Some (src0 < src1)) dst_val num_components src
      else Inl Unreachable)"

definition evaluate_uge32 :: "nir_const_value list \<Rightarrow> nat \<Rightarrow> nat \<Rightarrow> nir_const_value list list \<Rightarrow> result" where
  "evaluate_uge32 dst_val num_components bit_size src =
     (if bit_size = 1 then per_component2 get_uint1 set_bool32 (\<lambda>src0 src1. Some (src1 \<le> src0)) dst_val num_components src
      else if bit_size = 8 then per_component2 get_8 set_bool32 (\<lambda>src0 src1. Some (src1 \<le> src0)) dst_val num_components src
      else if bit_size = 16 then per_component2 get_16 set_bool32 (\<lambda>src0 src1. Some (src1 \<le> src0)) dst_val num_components src
      else if bit_size = 32 then per_component2 get_32 set_bool32 (\<lambda>src0 src1. Some (src1 \<le> src0)) dst_val num_components src
      else if bit_size = 64 then per_component2 get_64 set_bool32 (\<lambda>src0 src1. Some (src1 \<le> src0)) dst_val num_components src
      else Inl Unreachable)"

text \<open>
  The float comparisons follow IEEE 754, on the encodings: a NaN is unordered (\<^verbatim>\<open>==\<close>,
  \<^verbatim>\<open><\<close> and \<^verbatim>\<open>>=\<close> are false, \<^verbatim>\<open>!=\<close> is true), the two zeros are equal, and all other values
  are ordered as sign and magnitude. \<open>float_key\<close> is the signed magnitude of an
  encoding. A 16-bit source is first converted with \<^verbatim>\<open>_mesa_half_to_float\<close>
  (util/half_float.c, not among the sources), which the evaluators take as parameter.
\<close>

definition is_nan_32 :: "32 word \<Rightarrow> bool" where
  "is_nan_32 w = (0x7F800000 < (w AND 0x7FFFFFFF))"

definition is_nan_64 :: "64 word \<Rightarrow> bool" where
  "is_nan_64 w = (0x7FF0000000000000 < (w AND 0x7FFFFFFFFFFFFFFF))"

definition float_key :: "'a::len word \<Rightarrow> int" where
  "float_key w =
     (let m = uint (take_bit (LENGTH('a) - 1) w)
      in if bit w (LENGTH('a) - 1) then - m else m)"

definition feq_32 :: "32 word \<Rightarrow> 32 word \<Rightarrow> bool" where
  "feq_32 src0 src1 = (\<not> is_nan_32 src0 \<and> \<not> is_nan_32 src1 \<and> float_key src0 = float_key src1)"

definition flt_32 :: "32 word \<Rightarrow> 32 word \<Rightarrow> bool" where
  "flt_32 src0 src1 = (\<not> is_nan_32 src0 \<and> \<not> is_nan_32 src1 \<and> float_key src0 < float_key src1)"

definition fge_32 :: "32 word \<Rightarrow> 32 word \<Rightarrow> bool" where
  "fge_32 src0 src1 = (\<not> is_nan_32 src0 \<and> \<not> is_nan_32 src1 \<and> float_key src1 \<le> float_key src0)"

definition feq_64 :: "64 word \<Rightarrow> 64 word \<Rightarrow> bool" where
  "feq_64 src0 src1 = (\<not> is_nan_64 src0 \<and> \<not> is_nan_64 src1 \<and> float_key src0 = float_key src1)"

definition flt_64 :: "64 word \<Rightarrow> 64 word \<Rightarrow> bool" where
  "flt_64 src0 src1 = (\<not> is_nan_64 src0 \<and> \<not> is_nan_64 src1 \<and> float_key src0 < float_key src1)"

definition fge_64 :: "64 word \<Rightarrow> 64 word \<Rightarrow> bool" where
  "fge_64 src0 src1 = (\<not> is_nan_64 src0 \<and> \<not> is_nan_64 src1 \<and> float_key src1 \<le> float_key src0)"

definition evaluate_feq :: "(16 word \<Rightarrow> 32 word) \<Rightarrow> nir_const_value list \<Rightarrow> nat \<Rightarrow> nat \<Rightarrow> nir_const_value list list \<Rightarrow> result" where
  "evaluate_feq half_to_float dst_val num_components bit_size src =
     (if bit_size = 16 then per_component2 (\<lambda>v. half_to_float (get_16 v)) set_bool1 (\<lambda>src0 src1. Some (feq_32 src0 src1)) dst_val num_components src
      else if bit_size = 32 then per_component2 get_32 set_bool1 (\<lambda>src0 src1. Some (feq_32 src0 src1)) dst_val num_components src
      else if bit_size = 64 then per_component2 get_64 set_bool1 (\<lambda>src0 src1. Some (feq_64 src0 src1)) dst_val num_components src
      else Inl Unreachable)"

definition evaluate_fne :: "(16 word \<Rightarrow> 32 word) \<Rightarrow> nir_const_value list \<Rightarrow> nat \<Rightarrow> nat \<Rightarrow> nir_const_value list list \<Rightarrow> result" where
  "evaluate_fne half_to_float dst_val num_components bit_size src =
     (if bit_size = 16 then per_component2 (\<lambda>v. half_to_float (get_16 v)) set_bool1 (\<lambda>src0 src1. Some (\<not> feq_32 src0 src1)) dst_val num_components src
      else if bit_size = 32 then per_component2 get_32 set_bool1 (\<lambda>src0 src1. Some (\<not> feq_32 src0 src1)) dst_val num_components src
      else if bit_size = 64 then per_component2 get_64 set_bool1 (\<lambda>src0 src1. Some (\<not> feq_64 src0 src1)) dst_val num_components src
      else Inl Unreachable)"

definition evaluate_flt :: "(16 word \<Rightarrow> 32 word) \<Rightarrow> nir_const_value list \<Rightarrow> nat \<Rightarrow> nat \<Rightarrow> nir_const_value list list \<Rightarrow> result" where
  "evaluate_flt half_to_float dst_val num_components bit_size src =
     (if bit_size = 16 then per_component2 (\<lambda>v. half_to_float (get_16 v)) set_bool1 (\<lambda>src0 src1. Some (flt_32 src0 src1)) dst_val num_components src
      else if bit_size = 32 then per_component2 get_32 set_bool1 (\<lambda>src0 src1. Some (flt_32 src0 src1)) dst_val num_components src
      else if bit_size = 64 then per_component2 get_64 set_bool1 (\<lambda>src0 src1. Some (flt_64 src0 src1)) dst_val num_components src
      else Inl Unreachable)"

definition evaluate_fge :: "(16 word \<Rightarrow> 32 word) \<Rightarrow> nir_const_value list \<Rightarrow> nat \<Rightarrow> nat \<Rightarrow> nir_const_value list list \<Rightarrow> result" where
  "evaluate_fge half_to_float dst_val num_components bit_size src =
     (if bit_size = 16 then per_component2 (\<lambda>v. half_to_float (get_16 v)) set_bool1 (\<lambda>src0 src1. Some (fge_32 src0 src1)) dst_val num_components src
      else if bit_size = 32 then per_component2 get_32 set_bool1 (\<lambda>src0 src1. Some (fge_32 src0 src1)) dst_val num_components src
      else if bit_size = 64 then per_component2 get_64 set_bool1 (\<lambda>src0 src1. Some (fge_64 src0 src1)) dst_val num_components src
      else Inl Unreachable)"

definition evaluate_feq32 :: "(16 word \<Rightarrow> 32 word) \<Rightarrow> nir_const_value list \<Rightarrow> nat \<Rightarrow> nat \<Rightarrow> nir_const_value list list \<Rightarrow> result" where
  "evaluate_feq32 half_to_float dst_val num_components bit_size src =
     (if bit_size = 16 then per_component2 (\<lambda>v. half_to_float (get_16 v)) set_bool32 (\<lambda>src0 src1. Some (feq_32 src0 src1)) dst_val num_components src
      else if bit_size = 32 then per_component2 get_32 set_bool32 (\<lambda>src0 src1. Some (feq_32 src0 src1)) dst_val num_components src
      else if bit_size = 64 then per_component2 get_64 set_bool32 (\<lambda>src0 src1. Some (feq_64 src0 src1)) dst_val num_components src
      else Inl Unreachable)"

definition evaluate_fne32 :: "(16 word \<Rightarrow> 32 word) \<Rightarrow> nir_const_value list \<Rightarrow> nat \<Rightarrow> nat \<Rightarrow> nir_const_value list list \<Rightarrow> result" where
  "evaluate_fne32 half_to_float dst_val num_components bit_size src =
     (if bit_size = 16 then per_component2 (\<lambda>v. half_to_float (get_16 v)) set_bool32 (\<lambda>src0 src1. Some (\<not> feq_32 src0 src1)) dst_val num_components src
      else if bit_size = 32 then per_component2 get_32 set_bool32 (\<lambda>src0 src1. Some (\<not> feq_32 src0 src1)) dst_val num_components src
      else if bit_size = 64 then per_component2 get_64 set_bool32 (\<lambda>src0 src1. Some (\<not> feq_64 src0 src1)) dst_val num_components src
      else Inl Unreachable)"

definition evaluate_flt32 :: "(16 word \<Rightarrow> 32 word) \<Rightarrow> nir_const_value list \<Rightarrow> nat \<Rightarrow> nat \<Rightarrow> nir_const_value list list \<Rightarrow> result" where
  "evaluate_flt32 half_to_float dst_val num_components bit_size src =
     (if bit_size = 16 then per_component2 (\<lambda>v. half_to_float (get_16 v)) set_bool32 (\<lambda>src0 src1. Some (flt_32 src0 src1)) dst_val num_components src
      else if bit_size = 32 then per_component2 get_32 set_bool32 (\<lambda>src0 src1. Some (flt_32 src0 src1)) dst_val num_components src
      else if bit_size = 64 then per_component2 get_64 set_bool32 (\<lambda>src0 src1. Some (flt_64 src0 src1)) dst_val num_components src
      else Inl Unreachable)"

definition evaluate_fge32 :: "(16 word \<Rightarrow> 32 word) \<Rightarrow> nir_const_value list \<Rightarrow> nat \<Rightarrow> nat \<Rightarrow> nir_const_value list list \<Rightarrow> result" where
  "evaluate_fge32 half_to_float dst_val num_components bit_size src =
     (if bit_size = 16 then per_component2 (\<lambda>v. half_to_float (get_16 v)) set_bool32 (\<lambda>src0 src1. Some (fge_32 src0 src1)) dst_val num_components src
      else if bit_size = 32 then per_component2 get_32 set_bool32 (\<lambda>src0 src1. Some (fge_32 src0 src1)) dst_val num_components src
      else if bit_size = 64 then per_component2 get_64 set_bool32 (\<lambda>src0 src1. Some (fge_64 src0 src1)) dst_val num_components src
      else Inl Unreachable)"

text \<open>
  The set-on comparisons store a float, not a boolean:
  \<^verbatim>\<open>float32_t dst = (src0 == src1) ? 1.0f : 0.0f; _dst_val[_i].f32 = dst;\<close>
  for \<^verbatim>\<open>seq\<close>, and likewise \<^verbatim>\<open>!=\<close> for \<^verbatim>\<open>sne\<close> and \<^verbatim>\<open><\<close> for \<^verbatim>\<open>slt\<close>; these three have no
  switch and read 32-bit floats whatever \<^verbatim>\<open>bit_size\<close> is. \<^verbatim>\<open>sge\<close> (\<^verbatim>\<open>>=\<close>) has the switch
  of the float opcodes: at 64 bits it stores the double 1.0 or 0.0, at 16 bits
  \<^verbatim>\<open>_dst_val[_i].u16 = _mesa_float_to_half(dst)\<close> (util/half_float.c, not among the
  sources, a parameter). 1.0 is encoded 0x3F800000 as a float and 0x3FF0000000000000 as
  a double.
\<close>

definition set_on_32 :: "bool \<Rightarrow> 32 word" where
  "set_on_32 c = (if c then 0x3F800000 else 0)"

definition set_on_64 :: "bool \<Rightarrow> 64 word" where
  "set_on_64 c = (if c then 0x3FF0000000000000 else 0)"

definition evaluate_seq :: "nir_const_value list \<Rightarrow> nat \<Rightarrow> nat \<Rightarrow> nir_const_value list list \<Rightarrow> result" where
  "evaluate_seq dst_val num_components bit_size src =
     per_component2 get_32 set_32 (\<lambda>src0 src1. Some (set_on_32 (feq_32 src0 src1))) dst_val num_components src"

definition evaluate_sne :: "nir_const_value list \<Rightarrow> nat \<Rightarrow> nat \<Rightarrow> nir_const_value list list \<Rightarrow> result" where
  "evaluate_sne dst_val num_components bit_size src =
     per_component2 get_32 set_32 (\<lambda>src0 src1. Some (set_on_32 (\<not> feq_32 src0 src1))) dst_val num_components src"

definition evaluate_slt :: "nir_const_value list \<Rightarrow> nat \<Rightarrow> nat \<Rightarrow> nir_const_value list list \<Rightarrow> result" where
  "evaluate_slt dst_val num_components bit_size src =
     per_component2 get_32 set_32 (\<lambda>src0 src1. Some (set_on_32 (flt_32 src0 src1))) dst_val num_components src"

definition evaluate_sge :: "(32 word \<Rightarrow> 16 word) \<Rightarrow> (16 word \<Rightarrow> 32 word) \<Rightarrow> nir_const_value list \<Rightarrow> nat \<Rightarrow> nat \<Rightarrow>
    nir_const_value list list \<Rightarrow> result" where
  "evaluate_sge float_to_half half_to_float dst_val num_components bit_size src =
     (if bit_size = 16 then per_component2 (\<lambda>v. half_to_float (get_16 v)) set_16 (\<lambda>src0 src1. Some (float_to_half (set_on_32 (fge_32 src0 src1)))) dst_val num_components src
      else if bit_size = 32 then per_component2 get_32 set_32 (\<lambda>src0 src1. Some (set_on_32 (fge_32 src0 src1))) dst_val num_components src
      else if bit_size = 64 then per_component2 get_64 set_64 (\<lambda>src0 src1. Some (set_on_64 (fge_64 src0 src1))) dst_val num_components src
      else Inl Unreachable)"

section \<open>The reductions ball-iequal4 and b32all-iequal4\<close>

text \<open>
  \<^verbatim>\<open>const struct int32_vec src0 = { _src[0][0].i32, _src[0][1].i32, _src[0][2].i32, _src[0][3].i32 };
  const struct int32_vec src1 = { _src[1][0].i32, ... };
  struct bool1_vec dst;
  dst.x = dst.y = dst.z = dst.w = ((src0.x == src1.x) && (src0.y == src1.y) &&
                                   (src0.z == src1.z) && (src0.w == src1.w));
  _dst_val[0].b = -(int)dst.x;\<close>
  There is no loop: the four lanes of both sources are read and destination lane 0 alone
  is stored. \<^verbatim>\<open>b32all_iequal4\<close> differs in the store, \<^verbatim>\<open>_dst_val[0].i32 = -(int)dst.x\<close>.
\<close>

definition read_vec4 :: "(nir_const_value \<Rightarrow> 'a) \<Rightarrow> nir_const_value list \<Rightarrow> 'a \<times> 'a \<times> 'a \<times> 'a" where
  "read_vec4 rd v = (rd (v ! 0), rd (v ! 1), rd (v ! 2), rd (v ! 3))"

definition all_iequal4 :: "'a \<times> 'a \<times> 'a \<times> 'a \<Rightarrow> 'a \<times> 'a \<times> 'a \<times> 'a \<Rightarrow> bool" where
  "all_iequal4 src0 src1 =
     (case src0 of (x0, y0, z0, w0) \<Rightarrow> case src1 of (x1, y1, z1, w1) \<Rightarrow>
        x0 = x1 \<and> y0 = y1 \<and> z0 = z1 \<and> w0 = w1)"

definition store_lane0 :: "(nir_const_value \<Rightarrow> 'b \<Rightarrow> nir_const_value) \<Rightarrow> nir_const_value list \<Rightarrow> 'b \<Rightarrow> result" where
  "store_lane0 wr dst_val dst = Inr (dst_val[0 := wr (dst_val ! 0) dst])"

definition evaluate_ball_iequal4 :: "nir_const_value list \<Rightarrow> nat \<Rightarrow> nat \<Rightarrow> nir_const_value list list \<Rightarrow> result" where
  "evaluate_ball_iequal4 dst_val num_components bit_size src =
     (if bit_size = 1 then
        store_lane0 set_bool1 dst_val (all_iequal4 (read_vec4 get_int1 (src ! 0)) (read_vec4 get_int1 (src ! 1)))
      else if bit_size = 8 then
        store_lane0 set_bool1 dst_val (all_iequal4 (read_vec4 get_8 (src ! 0)) (read_vec4 get_8 (src ! 1)))
      else if bit_size = 16 then
        store_lane0 set_bool1 dst_val (all_iequal4 (read_vec4 get_16 (src ! 0)) (read_vec4 get_16 (src ! 1)))
      else if bit_size = 32 then
        store_lane0 set_bool1 dst_val (all_iequal4 (read_vec4 get_32 (src ! 0)) (read_vec4 get_32 (src ! 1)))
      else if bit_size = 64 then
        store_lane0 set_bool1 dst_val (all_iequal4 (read_vec4 get_64 (src ! 0)) (read_vec4 get_64 (src ! 1)))
      else Inl Unreachable)"

definition evaluate_b32all_iequal4 :: "nir_const_value list \<Rightarrow> nat \<Rightarrow> nat \<Rightarrow> nir_const_value list list \<Rightarrow> result" where
  "evaluate_b32all_iequal4 dst_val num_components bit_size src =
     (if bit_size = 1 then
        store_lane0 set_bool32 dst_val (all_iequal4 (read_vec4 get_int1 (src ! 0)) (read_vec4 get_int1 (src ! 1)))
      else if bit_size = 8 then
        store_lane0 set_bool32 dst_val (all_iequal4 (read_vec4 get_8 (src ! 0)) (read_vec4 get_8 (src ! 1)))
      else if bit_size = 16 then
        store_lane0 set_bool32 dst_val (all_iequal4 (read_vec4 get_16 (src ! 0)) (read_vec4 get_16 (src ! 1)))
      else if bit_size = 32 then
        store_lane0 set_bool32 dst_val (all_iequal4 (read_vec4 get_32 (src ! 0)) (read_vec4 get_32 (src ! 1)))
      else if bit_size = 64 then
        store_lane0 set_bool32 dst_val (all_iequal4 (read_vec4 get_64 (src ! 0)) (read_vec4 get_64 (src ! 1)))
      else Inl Unreachable)"

section \<open>f2i1\<close>

text \<open>
  \<^verbatim>\<open>int1_t dst = src0;\<close> converts a float to \<^verbatim>\<open>int8_t\<close>: the fractional part is discarded,
  and the conversion is undefined when the integral part is not representable (also for
  infinities and NaN). \<open>f32_trunc\<close> and \<open>f64_trunc\<close> give the integral part of a finite
  encoding. The result is stored as \<^verbatim>\<open>_dst_val[_i].b = dst & 1\<close>.
\<close>

definition f32_trunc :: "32 word \<Rightarrow> int option" where
  "f32_trunc w =
     (let e = unat (drop_bit 23 w AND 0xFF); m = uint (w AND 0x7FFFFF);
          mag = (if e = 0 then 0
                 else if 150 \<le> e then (2 ^ 23 + m) * 2 ^ (e - 150)
                 else (2 ^ 23 + m) div 2 ^ (150 - e))
      in if e = 255 then None else Some (if bit w 31 then - mag else mag))"

definition f64_trunc :: "64 word \<Rightarrow> int option" where
  "f64_trunc w =
     (let e = unat (drop_bit 52 w AND 0x7FF); m = uint (w AND 0xFFFFFFFFFFFFF);
          mag = (if e = 0 then 0
                 else if 1075 \<le> e then (2 ^ 52 + m) * 2 ^ (e - 1075)
                 else (2 ^ 52 + m) div 2 ^ (1075 - e))
      in if e = 2047 then None else Some (if bit w 63 then - mag else mag))"

definition int_to_int8 :: "int option \<Rightarrow> 8 word option" where
  "int_to_int8 k =
     (case k of
        None \<Rightarrow> None
      | Some v \<Rightarrow> if - 128 \<le> v \<and> v \<le> 127 then Some (word_of_int v) else None)"

definition evaluate_f2i1 :: "(16 word \<Rightarrow> 32 word) \<Rightarrow> nir_const_value list \<Rightarrow> nat \<Rightarrow> nat \<Rightarrow>
    nir_const_value list list \<Rightarrow> result" where
  "evaluate_f2i1 half_to_float dst_val num_components bit_size src =
     (if bit_size = 16 then
        per_component1 (\<lambda>v. half_to_float (get_16 v)) set_int1 (\<lambda>src0. int_to_int8 (f32_trunc src0))
          dst_val num_components src
      else if bit_size = 32 then
        per_component1 get_32 set_int1 (\<lambda>src0. int_to_int8 (f32_trunc src0)) dst_val num_components src
      else if bit_size = 64 then
        per_component1 get_64 set_int1 (\<lambda>src0. int_to_int8 (f64_trunc src0)) dst_val num_components src
      else Inl Unreachable)"

section \<open>Reading the claims\<close>

text \<open>
  The caller's vectors have 4 lanes. A lane typed as a 1-bit signed integer denotes 0 or
  -1 (the 0/-1 convention of the source). The exact result of a non-saturating signed
  operation at width W, reduced modulo \<open>2 ^ W\<close> into the signed range, is \<open>wrap_signed W\<close>.
\<close>

definition vec4 :: "nir_const_value list \<Rightarrow> bool" where
  "vec4 v = (length v = 4)"

definition int1_value :: "nir_const_value \<Rightarrow> int" where
  "int1_value v = (if get_b v then - 1 else 0)"

definition wrap_signed :: "nat \<Rightarrow> int \<Rightarrow> int" where
  "wrap_signed W k = (k + 2 ^ (W - 1)) mod 2 ^ W - 2 ^ (W - 1)"

text \<open>
  An offset and a bit count are out of range for a 32-bit bitfield when one of them is
  negative or the field ends beyond bit 32 (the sum taken in the integers).
\<close>

definition out_of_range :: "int_t \<Rightarrow> int_t \<Rightarrow> bool" where
  "out_of_range offset bits = (sint bits < 0 \<or> sint offset < 0 \<or> 32 < sint offset + sint bits)"

text \<open>
  The two kinds of operands of \<^verbatim>\<open>ubfe\<close> that claim C10 speaks of: those for which the
  code stores 0, and those for which it stores the base shifted right by the offset.
\<close>

definition ubfe_zero_case :: "int_t \<Rightarrow> int_t \<Rightarrow> bool" where
  "ubfe_zero_case offset bits = (bits = 0 \<or> sint bits < 0 \<or> sint offset < 0)"

definition ubfe_shift_case :: "int_t \<Rightarrow> int_t \<Rightarrow> bool" where
  "ubfe_shift_case offset bits =
     (0 < sint bits \<and> 0 \<le> sint offset \<and> sint offset < 32 \<and> 32 \<le> sint offset + sint bits \<and>
      sint offset + sint bits < 2147483648)"

text \<open>
  The operands for which C defines the expression of \<^verbatim>\<open>ubfe\<close>: with a positive bit count
  and a non-negative offset the code shifts, and the offset must be below 32 and the sum
  offset + bits must not overflow \<^verbatim>\<open>int\<close>.
\<close>

definition ubfe_defined :: "int_t \<Rightarrow> int_t \<Rightarrow> bool" where
  "ubfe_defined offset bits =
     (sint bits \<le> 0 \<or> sint offset < 0 \<or>
      (sint offset < 32 \<and> sint offset + sint bits < 2147483648))"

text \<open>
  The value of a lane as a signed or an unsigned integer of a given bit width; a 1-bit
  unsigned lane is 0 or 1. A signed division overflows when the dividend is the minimum
  of the width and the divisor is -1: the quotient \<open>2 ^ (W - 1)\<close> is not representable.
\<close>

definition uint1_value :: "nir_const_value \<Rightarrow> nat" where
  "uint1_value v = (if get_b v then 1 else 0)"

definition signed_lane :: "nat \<Rightarrow> nir_const_value \<Rightarrow> int" where
  "signed_lane bit_size v =
     (if bit_size = 1 then int1_value v
      else if bit_size = 8 then sint (get_8 v)
      else if bit_size = 16 then sint (get_16 v)
      else if bit_size = 32 then sint (get_32 v)
      else sint (get_64 v))"

definition unsigned_lane :: "nat \<Rightarrow> nir_const_value \<Rightarrow> nat" where
  "unsigned_lane bit_size v =
     (if bit_size = 1 then uint1_value v
      else if bit_size = 8 then unat (get_8 v)
      else if bit_size = 16 then unat (get_16 v)
      else if bit_size = 32 then unat (get_32 v)
      else unat (get_64 v))"

definition overflowing_division :: "nat \<Rightarrow> nir_const_value \<Rightarrow> nir_const_value \<Rightarrow> bool" where
  "overflowing_division bit_size a b =
     (signed_lane bit_size a = - (2 ^ (bit_size - 1)) \<and> signed_lane bit_size b = - 1)"

text \<open>
  The encodings of a boolean result that claim C2 speaks of. At a 32-bit destination
  (the opcodes with suffix 32) the lane's 32-bit member is all-zero or all-one bits; at
  a 1-bit destination (the opcodes without suffix) the lane's boolean member, one byte,
  is exactly 0 or 1. The comparison opcodes are the boolean-valued \<^verbatim>\<open>eq ne lt ge\<close> of the
  integers (\<^verbatim>\<open>i\<close> signed, \<^verbatim>\<open>u\<close> unsigned; equality needs no unsigned twin) and of the
  floats, each with either destination.
\<close>

definition boolean32 :: "nir_const_value \<Rightarrow> bool" where
  "boolean32 v = (get_32 v = 0 \<or> get_32 v = - 1)"

definition boolean1 :: "nir_const_value \<Rightarrow> bool" where
  "boolean1 v = (get_8 v = 0 \<or> get_8 v = 1)"

type_synonym evaluator = "nir_const_value list \<Rightarrow> nat \<Rightarrow> nat \<Rightarrow> nir_const_value list list \<Rightarrow> result"

definition integer_comparisons :: "evaluator list" where
  "integer_comparisons =
     [evaluate_ieq, evaluate_ine, evaluate_ilt, evaluate_ige, evaluate_ult, evaluate_uge]"

definition integer_comparisons32 :: "evaluator list" where
  "integer_comparisons32 =
     [evaluate_ieq32, evaluate_ine32, evaluate_ilt32, evaluate_ige32, evaluate_ult32, evaluate_uge32]"

definition float_comparisons :: "(16 word \<Rightarrow> 32 word) \<Rightarrow> evaluator list" where
  "float_comparisons half_to_float =
     [evaluate_feq half_to_float, evaluate_fne half_to_float, evaluate_flt half_to_float,
      evaluate_fge half_to_float]"

definition float_comparisons32 :: "(16 word \<Rightarrow> 32 word) \<Rightarrow> evaluator list" where
  "float_comparisons32 half_to_float =
     [evaluate_feq32 half_to_float, evaluate_fne32 half_to_float, evaluate_flt32 half_to_float,
      evaluate_fge32 half_to_float]"

text \<open>
  The set-on comparisons at bit width 32 leave the float 1.0 or 0.0 in a lane.
\<close>

definition float_one_or_zero :: "nir_const_value \<Rightarrow> bool" where
  "float_one_or_zero v = (get_32 v = 0x3F800000 \<or> get_32 v = 0)"

definition set_on_comparisons :: "(32 word \<Rightarrow> 16 word) \<Rightarrow> (16 word \<Rightarrow> 32 word) \<Rightarrow> evaluator list" where
  "set_on_comparisons float_to_half half_to_float =
     [evaluate_seq, evaluate_sne, evaluate_slt, evaluate_sge float_to_half half_to_float]"

text \<open>
  The value stored into a 1-bit destination is the lane's boolean member, one byte:
  claim C7 says that its bits above bit 0 are zero. The opcodes of this development with
  a 1-bit destination are the integer opcodes, at bit width 1 (their destination has the
  width of their sources), and, at every bit width, the comparisons without suffix and
  the conversion \<^verbatim>\<open>f2i1\<close>; the reduction \<^verbatim>\<open>ball_iequal4\<close> stores lane 0 alone.
  \<open>f2i1_value\<close> is the \<^verbatim>\<open>int1_t dst\<close> that \<^verbatim>\<open>f2i1\<close> computes from a source lane, where C
  defines the conversion.
\<close>

definition bits_above_0_clear :: "nir_const_value \<Rightarrow> bool" where
  "bits_above_0_clear v = (drop_bit 1 (get_8 v) = 0)"

definition one_bit_integer_opcodes :: "evaluator list" where
  "one_bit_integer_opcodes =
     [evaluate_iadd, evaluate_uadd_sat, evaluate_iadd_sat, evaluate_idiv, evaluate_udiv,
      evaluate_imod, evaluate_irem, evaluate_umod]"

definition one_bit_destination_opcodes :: "(16 word \<Rightarrow> 32 word) \<Rightarrow> evaluator list" where
  "one_bit_destination_opcodes half_to_float =
     integer_comparisons @ float_comparisons half_to_float @ [evaluate_f2i1 half_to_float]"

definition f2i1_value :: "(16 word \<Rightarrow> 32 word) \<Rightarrow> nat \<Rightarrow> nir_const_value \<Rightarrow> 8 word option" where
  "f2i1_value half_to_float bit_size v =
     (if bit_size = 16 then int_to_int8 (f32_trunc (half_to_float (get_16 v)))
      else if bit_size = 32 then int_to_int8 (f32_trunc (get_32 v))
      else int_to_int8 (f64_trunc (get_64 v)))"

section \<open>The switch on the bit width and the dispatcher\<close>











section \<open>Properties of the accessors and of the loop\<close>

lemma get_set_8: "get_8 (set_8 v x) = x"
  unfolding get_8_def set_8_def
  by (rule bit_word_eqI) (auto simp add: bit_simps)

lemma get_set_16: "get_16 (set_16 v x) = x"
  unfolding get_16_def set_16_def
  by (rule bit_word_eqI) (auto simp add: bit_simps)

lemma get_set_32: "get_32 (set_32 v x) = x"
  unfolding get_32_def set_32_def
  by (rule bit_word_eqI) (auto simp add: bit_simps)

lemma get_set_64: "get_64 (set_64 v x) = x"
  unfolding get_64_def set_64_def by simp

lemma get_8_set_b: "get_8 (set_b v x) = (if x then 1 else 0)"
  unfolding set_b_def by (simp add: get_set_8)

lemma get_set_b: "get_b (set_b v x) = x"
  unfolding set_b_def get_b_def set_8_def
  by (auto simp add: bit_simps)

lemma ucast_32_8_wi: "(ucast (word_of_int k :: 32 word) :: 8 word) = word_of_int k"
  by (rule ucast_down_wi) (simp add: is_down)

lemma ucast_32_16_wi: "(ucast (word_of_int k :: 32 word) :: 16 word) = word_of_int k"
  by (rule ucast_down_wi) (simp add: is_down)

lemma ucast_32_8_m1: "(ucast (- 1 :: 32 word) :: 8 word) = - 1"
  using ucast_32_8_wi[of "- 1"] by simp

lemma get_int1_eq: "get_int1 v = (if get_b v then - 1 else 0)"
  by (simp add: get_int1_def ucast_32_8_m1)

lemma even_scast_8_32: "even (scast dst :: 32 word) = even (dst :: 8 word)"
  using bit_word_scast_iff[of dst 0, where ?'b = 32] by (simp add: bit_0)

lemma even_ucast_8_32: "even (ucast dst :: 32 word) = even (dst :: 8 word)"
  using bit_word_ucast_iff[of dst 0, where ?'b = 32] by (simp add: bit_0)

lemma get_b_set_int1: "get_b (set_int1 v dst) = bit dst 0"
proof -
  have "((scast dst :: int_t) AND 1 \<noteq> 0) = bit dst 0"
    by (simp add: and_one_eq bit_0 flip: even_scast_8_32) (simp add: mod_2_eq_odd)
  then show ?thesis by (simp add: set_int1_def get_set_b)
qed

lemma get_b_set_uint1: "get_b (set_uint1 v dst) = bit dst 0"
proof -
  have "((ucast dst :: int_t) AND 1 \<noteq> 0) = bit dst 0"
    by (simp add: and_one_eq bit_0 flip: even_ucast_8_32) (simp add: mod_2_eq_odd)
  then show ?thesis by (simp add: set_uint1_def get_set_b)
qed

lemma loop_components_Inr:
  assumes "distinct js" "\<forall>j\<in>set js. j < length d" "\<forall>j\<in>set js. body j (d ! j) = Inr (f j)"
  shows "\<exists>d'. loop_components body js d = Inr d' \<and> length d' = length d \<and>
           (\<forall>j\<in>set js. d' ! j = f j) \<and> (\<forall>j. j \<notin> set js \<longrightarrow> d' ! j = d ! j)"
  using assms
proof (induction js arbitrary: d)
  case Nil
  then show ?case by simp
next
  case (Cons k ks)
  let ?d1 = "d[k := f k]"
  have b: "body k (d ! k) = Inr (f k)" using Cons.prems by simp
  have k: "k < length d" "k \<notin> set ks" "distinct ks" using Cons.prems by simp_all
  have pre1: "\<forall>j\<in>set ks. j < length ?d1" using Cons.prems by simp
  have pre2: "\<forall>j\<in>set ks. body j (?d1 ! j) = Inr (f j)"
  proof
    fix j assume j: "j \<in> set ks"
    then have "j \<noteq> k" using k(2) by blast
    then have "?d1 ! j = d ! j" by simp
    then show "body j (?d1 ! j) = Inr (f j)" using Cons.prems(3) j by simp
  qed
  from Cons.IH[OF k(3) pre1 pre2] obtain d' where d':
    "loop_components body ks ?d1 = Inr d'" "length d' = length ?d1"
    "\<forall>j\<in>set ks. d' ! j = f j" "\<forall>j. j \<notin> set ks \<longrightarrow> d' ! j = ?d1 ! j"
    by blast
  have "loop_components body (k # ks) d = Inr d'" using b d'(1) by simp
  moreover have "d' ! k = f k" using d'(4) k by simp
  moreover have "\<forall>j. j \<notin> set (k # ks) \<longrightarrow> d' ! j = d ! j" using d'(4) by simp
  ultimately show ?case using d'(2,3) by auto
qed

lemma for_components_Inr:
  assumes "n \<le> length d" "\<forall>j<n. body j (d ! j) = Inr (f j)"
  shows "\<exists>d'. for_components n body d = Inr d' \<and> length d' = length d \<and>
           (\<forall>j<n. d' ! j = f j) \<and> (\<forall>j\<ge>n. d' ! j = d ! j)"
  using loop_components_Inr[of "[0..<n]" d body f] assms
  unfolding for_components_def by force

lemma for_components_pure_all:
  assumes "n \<le> length d"
  shows "\<exists>d'. for_components n (\<lambda>i old. Inr (g i old)) d = Inr d' \<and> length d' = length d \<and>
           (\<forall>j<n. d' ! j = g j (d ! j)) \<and> (\<forall>j\<ge>n. d' ! j = d ! j)"
  using for_components_Inr[OF assms, of "\<lambda>i old. Inr (g i old)" "\<lambda>i. g i (d ! i)"] by simp

lemma for_components_pure:
  assumes "n \<le> length d" "i < n"
  shows "\<exists>d'. for_components n (\<lambda>i old. Inr (g i old)) d = Inr d' \<and> d' ! i = g i (d ! i)"
  using for_components_pure_all[OF assms(1), of g] assms(2) by blast

lemma per_component2_Some_all:
  assumes "n \<le> length d" "\<forall>j<n. expr (rd (src ! 0 ! j)) (rd (src ! 1 ! j)) = Some (g j)"
  shows "\<exists>d'. per_component2 rd wr expr d n src = Inr d' \<and> length d' = length d \<and>
           (\<forall>j<n. d' ! j = wr (d ! j) (g j)) \<and> (\<forall>j\<ge>n. d' ! j = d ! j)"
  unfolding per_component2_def
  using for_components_Inr[OF assms(1), of _ "\<lambda>j. wr (d ! j) (g j)"] assms(2) by simp

lemma per_component2_pure:
  assumes "n \<le> length d" "i < n"
  shows "\<exists>d'. per_component2 rd wr (\<lambda>a b. Some (f a b)) d n [src0, src1] = Inr d' \<and>
           d' ! i = wr (d ! i) (f (rd (src0 ! i)) (rd (src1 ! i)))"
  using per_component2_Some_all[OF assms(1), of "\<lambda>a b. Some (f a b)" rd "[src0, src1]"
      "\<lambda>j. f (rd (src0 ! j)) (rd (src1 ! j))" wr] assms(2)
  by auto

lemma loop_components_frame:
  "loop_components body js d = Inr d' \<Longrightarrow>
     length d' = length d \<and> (\<forall>j. j \<notin> set js \<longrightarrow> d' ! j = d ! j)"
proof (induction js arbitrary: d)
  case Nil
  then show ?case by simp
next
  case (Cons k ks)
  from Cons.prems obtain v where v: "body k (d ! k) = Inr v"
    "loop_components body ks (d[k := v]) = Inr d'"
    by (auto split: sum.splits)
  from Cons.IH[OF v(2)] show ?case by auto
qed

lemma loop_components_lane:
  assumes "loop_components body js d = Inr d'" "distinct js" "\<forall>j\<in>set js. j < length d"
  shows "\<forall>j\<in>set js. body j (d ! j) = Inr (d' ! j)"
  using assms
proof (induction js arbitrary: d)
  case Nil
  then show ?case by simp
next
  case (Cons k ks)
  from Cons.prems(1) obtain v where v: "body k (d ! k) = Inr v"
    "loop_components body ks (d[k := v]) = Inr d'"
    by (auto split: sum.splits)
  have k: "k \<notin> set ks" "distinct ks" "k < length d" using Cons.prems by simp_all
  have "\<forall>j\<in>set ks. j < length (d[k := v])" using Cons.prems(3) by simp
  from Cons.IH[OF v(2) k(2) this]
  have "\<forall>j\<in>set ks. body j (d[k := v] ! j) = Inr (d' ! j)" .
  note ih = this
  have rest: "\<forall>j\<in>set ks. body j (d ! j) = Inr (d' ! j)"
  proof
    fix j assume j: "j \<in> set ks"
    then have "k \<noteq> j" using k(1) by blast
    then have "d[k := v] ! j = d ! j" by (rule nth_list_update_neq)
    moreover have "body j (d[k := v] ! j) = Inr (d' ! j)" using ih j by (rule bspec)
    ultimately show "body j (d ! j) = Inr (d' ! j)" by (simp only:)
  qed
  from loop_components_frame[OF v(2)] k(1) have "d' ! k = d[k := v] ! k" by blast
  then have "d' ! k = v" using k(3) by simp
  then show ?case using rest v(1) by simp
qed

lemma for_components_lane:
  assumes "for_components n body d = Inr d'" "n \<le> length d" "j < n"
  shows "body j (d ! j) = Inr (d' ! j)"
  using loop_components_lane[of body "[0..<n]" d d'] assms
  unfolding for_components_def by auto

lemma per_component2_lane:
  assumes "per_component2 rd wr expr d n src = Inr d'" "n \<le> length d" "j < n"
  shows "\<exists>r. expr (rd (src ! 0 ! j)) (rd (src ! 1 ! j)) = Some r \<and> d' ! j = wr (d ! j) r"
  using for_components_lane[OF assms(1)[unfolded per_component2_def] assms(2,3)]
  by (auto split: option.splits)

lemma per_component3_lane:
  assumes "per_component3 rd wr expr d n src = Inr d'" "n \<le> length d" "j < n"
  shows "\<exists>r. expr (rd (src ! 0 ! j)) (rd (src ! 1 ! j)) (rd (src ! 2 ! j)) = Some r \<and>
           d' ! j = wr (d ! j) r"
  using for_components_lane[OF assms(1)[unfolded per_component3_def] assms(2,3)]
  by (auto split: option.splits)

lemma per_component2_lane_val:
  assumes "per_component2 rd wr expr d n [s0, s1] = Inr d'" "n \<le> length d" "j < n"
    and "\<exists>r. expr (rd (s0 ! j)) (rd (s1 ! j)) = Some r \<and> val (wr (d ! j) r) = f"
  shows "val (d' ! j) = f"
  using per_component2_lane[OF assms(1,2,3)] assms(4) by auto

lemma sint_eq_0_iff: "(sint w = 0) = (w = 0)"
proof
  assume a: "sint w = 0"
  have "w = word_of_int (sint w)" by simp
  then show "w = 0" unfolding a by simp
qed simp

section \<open>iadd wraps around\<close>

lemma iadd_8_eq: "iadd_8 a b = a + b"
  unfolding iadd_8_def scast_eq wi_hom_add ucast_32_8_wi
  by (simp flip: wi_hom_add)

lemma iadd_16_eq: "iadd_16 a b = a + b"
  unfolding iadd_16_def scast_eq wi_hom_add ucast_32_16_wi
  by (simp flip: wi_hom_add)

lemma sint_add_wrap: "sint (a + b :: 'a::len word) = wrap_signed LENGTH('a) (sint a + sint b)"
proof -
  have "a + b = word_of_int (sint a + sint b)" by simp
  then have "sint (a + b) = sint (word_of_int (sint a + sint b) :: 'a word)" by simp
  then show ?thesis unfolding wrap_signed_def by (simp only: int_word_sint)
qed

lemma iadd_1_value:
  "int1_value (set_int1 d (iadd_8 (get_int1 a) (get_int1 b))) =
     wrap_signed 1 (int1_value a + int1_value b)"
  by (simp add: int1_value_def get_b_set_int1 iadd_8_eq get_int1_eq wrap_signed_def)

lemma evaluate_iadd_lanes:
  assumes "num_components \<le> length dst_val" "i < num_components"
  shows "\<exists>d. evaluate_iadd dst_val num_components 1 [src0, src1] = Inr d \<and>
           d ! i = set_int1 (dst_val ! i) (iadd_8 (get_int1 (src0 ! i)) (get_int1 (src1 ! i)))"
    and "\<exists>d. evaluate_iadd dst_val num_components 8 [src0, src1] = Inr d \<and>
           d ! i = set_8 (dst_val ! i) (iadd_8 (get_8 (src0 ! i)) (get_8 (src1 ! i)))"
    and "\<exists>d. evaluate_iadd dst_val num_components 16 [src0, src1] = Inr d \<and>
           d ! i = set_16 (dst_val ! i) (iadd_16 (get_16 (src0 ! i)) (get_16 (src1 ! i)))"
    and "\<exists>d. evaluate_iadd dst_val num_components 32 [src0, src1] = Inr d \<and>
           d ! i = set_32 (dst_val ! i) (iadd_32 (get_32 (src0 ! i)) (get_32 (src1 ! i)))"
    and "\<exists>d. evaluate_iadd dst_val num_components 64 [src0, src1] = Inr d \<and>
           d ! i = set_64 (dst_val ! i) (iadd_64 (get_64 (src0 ! i)) (get_64 (src1 ! i)))"
  using per_component2_pure[OF assms]
  by (simp_all add: evaluate_iadd_def)

text \<open>
  Claim C8. \<^verbatim>\<open>iadd\<close> at bit width 8 on the operand lanes 127 and 1 yields -128; at every
  width W of 1, 8, 16, 32 and 64 the stored lane, read as a signed W-bit integer, is the
  exact sum of the operand lanes reduced modulo \<open>2 ^ W\<close> into the signed range of W.
\<close>

theorem iadd_wraparound:
  assumes "vec4 dst_val" "vec4 src0" "vec4 src1" "num_components \<le> 4" "i < num_components"
  shows "(\<exists>d. evaluate_iadd dst_val num_components 8 [src0, src1] = Inr d \<and>
            sint (get_8 (d ! i)) = wrap_signed 8 (sint (get_8 (src0 ! i)) + sint (get_8 (src1 ! i))) \<and>
            (get_8 (src0 ! i) = 127 \<and> get_8 (src1 ! i) = 1 \<longrightarrow> sint (get_8 (d ! i)) = - 128)) \<and>
         (\<exists>d. evaluate_iadd dst_val num_components 1 [src0, src1] = Inr d \<and>
            int1_value (d ! i) = wrap_signed 1 (int1_value (src0 ! i) + int1_value (src1 ! i))) \<and>
         (\<exists>d. evaluate_iadd dst_val num_components 16 [src0, src1] = Inr d \<and>
            sint (get_16 (d ! i)) = wrap_signed 16 (sint (get_16 (src0 ! i)) + sint (get_16 (src1 ! i)))) \<and>
         (\<exists>d. evaluate_iadd dst_val num_components 32 [src0, src1] = Inr d \<and>
            sint (get_32 (d ! i)) = wrap_signed 32 (sint (get_32 (src0 ! i)) + sint (get_32 (src1 ! i)))) \<and>
         (\<exists>d. evaluate_iadd dst_val num_components 64 [src0, src1] = Inr d \<and>
            sint (get_64 (d ! i)) = wrap_signed 64 (sint (get_64 (src0 ! i)) + sint (get_64 (src1 ! i))))"
proof -
  have n: "num_components \<le> length dst_val" using assms by (simp add: vec4_def)
  note l = evaluate_iadd_lanes[OF n assms(5), of src0 src1]
  from l(2) obtain d8 where d8:
    "evaluate_iadd dst_val num_components 8 [src0, src1] = Inr d8"
    "d8 ! i = set_8 (dst_val ! i) (iadd_8 (get_8 (src0 ! i)) (get_8 (src1 ! i)))"
    by blast
  have v8: "sint (get_8 (d8 ! i)) = wrap_signed 8 (sint (get_8 (src0 ! i)) + sint (get_8 (src1 ! i)))"
    using sint_add_wrap[of "get_8 (src0 ! i)" "get_8 (src1 ! i)"] by (simp add: d8(2) get_set_8 iadd_8_eq)
  have s8: "get_8 (src0 ! i) = 127 \<and> get_8 (src1 ! i) = 1 \<longrightarrow> sint (get_8 (d8 ! i)) = - 128"
    by (simp add: d8(2) get_set_8 iadd_8_eq)
  from l(1) obtain d1 where d1:
    "evaluate_iadd dst_val num_components 1 [src0, src1] = Inr d1"
    "d1 ! i = set_int1 (dst_val ! i) (iadd_8 (get_int1 (src0 ! i)) (get_int1 (src1 ! i)))"
    by blast
  have v1: "int1_value (d1 ! i) = wrap_signed 1 (int1_value (src0 ! i) + int1_value (src1 ! i))"
    by (simp add: d1(2) iadd_1_value)
  from l(3) obtain d16 where d16:
    "evaluate_iadd dst_val num_components 16 [src0, src1] = Inr d16"
    "d16 ! i = set_16 (dst_val ! i) (iadd_16 (get_16 (src0 ! i)) (get_16 (src1 ! i)))"
    by blast
  have v16: "sint (get_16 (d16 ! i)) = wrap_signed 16 (sint (get_16 (src0 ! i)) + sint (get_16 (src1 ! i)))"
    using sint_add_wrap[of "get_16 (src0 ! i)" "get_16 (src1 ! i)"] by (simp add: d16(2) get_set_16 iadd_16_eq)
  from l(4) obtain d32 where d32:
    "evaluate_iadd dst_val num_components 32 [src0, src1] = Inr d32"
    "d32 ! i = set_32 (dst_val ! i) (iadd_32 (get_32 (src0 ! i)) (get_32 (src1 ! i)))"
    by blast
  have v32: "sint (get_32 (d32 ! i)) = wrap_signed 32 (sint (get_32 (src0 ! i)) + sint (get_32 (src1 ! i)))"
    using sint_add_wrap[of "get_32 (src0 ! i)" "get_32 (src1 ! i)"] by (simp add: d32(2) get_set_32 iadd_32_def)
  from l(5) obtain d64 where d64:
    "evaluate_iadd dst_val num_components 64 [src0, src1] = Inr d64"
    "d64 ! i = set_64 (dst_val ! i) (iadd_64 (get_64 (src0 ! i)) (get_64 (src1 ! i)))"
    by blast
  have v64: "sint (get_64 (d64 ! i)) = wrap_signed 64 (sint (get_64 (src0 ! i)) + sint (get_64 (src1 ! i)))"
    using sint_add_wrap[of "get_64 (src0 ! i)" "get_64 (src1 ! i)"] by (simp add: d64(2) get_set_64 iadd_64_def)
  show ?thesis using d8(1) v8 s8 d1(1) v1 d16(1) v16 d32(1) v32 d64(1) v64 by blast
qed

theorem iadd_wraparound_witness:
  "vec4 [0, 0, 0, 0] \<and> vec4 [127, 0, 0, 0] \<and> vec4 [1, 0, 0, 0] \<and> (1::nat) \<le> 4 \<and> (0::nat) < 1 \<and>
   (\<exists>d. evaluate_iadd [0, 0, 0, 0] 1 8 [[127, 0, 0, 0], [1, 0, 0, 0]] = Inr d \<and> sint (get_8 (d ! 0)) = - 128)"
  using iadd_wraparound[of "[0, 0, 0, 0]" "[127, 0, 0, 0]" "[1, 0, 0, 0]" 1 0]
  by (auto simp add: vec4_def get_8_def)

section \<open>Saturating addition\<close>

lemma wrap_signed_cases:
  assumes "0 < W"
  shows "- (2 ^ (W - 1)) \<le> k \<Longrightarrow> k < 2 ^ (W - 1) \<Longrightarrow> wrap_signed W k = k"
    and "2 ^ (W - 1) \<le> k \<Longrightarrow> k < 3 * 2 ^ (W - 1) \<Longrightarrow> wrap_signed W k = k - 2 ^ W"
    and "- (3 * 2 ^ (W - 1)) \<le> k \<Longrightarrow> k < - (2 ^ (W - 1)) \<Longrightarrow> wrap_signed W k = k + 2 ^ W"
proof -
  define h :: int where "h = 2 ^ (W - 1)"
  have w: "(2 :: int) ^ W = 2 * h" using assms unfolding h_def by (cases W) simp_all
  have hp: "0 < h" unfolding h_def by simp
  show "- (2 ^ (W - 1)) \<le> k \<Longrightarrow> k < 2 ^ (W - 1) \<Longrightarrow> wrap_signed W k = k"
    unfolding wrap_signed_def w h_def[symmetric] by (simp add: mod_pos_pos_trivial)
  show "2 ^ (W - 1) \<le> k \<Longrightarrow> k < 3 * 2 ^ (W - 1) \<Longrightarrow> wrap_signed W k = k - 2 ^ W"
  proof -
    assume a: "2 ^ (W - 1) \<le> k" "k < 3 * 2 ^ (W - 1)"
    have "(k + h) mod (2 * h) = ((k - h) + 2 * h) mod (2 * h)" by (simp add: algebra_simps)
    also have "\<dots> = (k - h) mod (2 * h)" by (rule mod_add_self2)
    also have "\<dots> = k - h" using a unfolding h_def[symmetric] by (simp add: mod_pos_pos_trivial)
    finally show ?thesis unfolding wrap_signed_def w h_def[symmetric] by simp
  qed
  show "- (3 * 2 ^ (W - 1)) \<le> k \<Longrightarrow> k < - (2 ^ (W - 1)) \<Longrightarrow> wrap_signed W k = k + 2 ^ W"
  proof -
    assume a: "- (3 * 2 ^ (W - 1)) \<le> k" "k < - (2 ^ (W - 1))"
    have "(k + h) mod (2 * h) = ((k + h) + 2 * h) mod (2 * h)" by (simp only: mod_add_self2)
    also have "\<dots> = k + 3 * h" using a unfolding h_def[symmetric] by (simp add: mod_pos_pos_trivial)
    finally show ?thesis unfolding wrap_signed_def w h_def[symmetric] by simp
  qed
qed

lemma sint_add_cases:
  fixes a b :: "'a::len word"
  shows "- (2 ^ (LENGTH('a) - 1)) \<le> sint a + sint b \<Longrightarrow> sint a + sint b < 2 ^ (LENGTH('a) - 1) \<Longrightarrow>
           sint (a + b) = sint a + sint b"
    and "2 ^ (LENGTH('a) - 1) \<le> sint a + sint b \<Longrightarrow> sint (a + b) = sint a + sint b - 2 ^ LENGTH('a)"
    and "sint a + sint b < - (2 ^ (LENGTH('a) - 1)) \<Longrightarrow> sint (a + b) = sint a + sint b + 2 ^ LENGTH('a)"
proof -
  note s = sint_add_wrap[of a b]
  note ba = sint_ge[of a] sint_lt[of a] and bb = sint_ge[of b] sint_lt[of b]
  have L: "0 < LENGTH('a)" by simp
  show "- (2 ^ (LENGTH('a) - 1)) \<le> sint a + sint b \<Longrightarrow> sint a + sint b < 2 ^ (LENGTH('a) - 1) \<Longrightarrow>
           sint (a + b) = sint a + sint b"
    using s wrap_signed_cases(1)[OF L, of "sint a + sint b"] by simp
  show "2 ^ (LENGTH('a) - 1) \<le> sint a + sint b \<Longrightarrow> sint (a + b) = sint a + sint b - 2 ^ LENGTH('a)"
    using s wrap_signed_cases(2)[OF L, of "sint a + sint b"] ba bb by simp
  show "sint a + sint b < - (2 ^ (LENGTH('a) - 1)) \<Longrightarrow> sint (a + b) = sint a + sint b + 2 ^ LENGTH('a)"
    using s wrap_signed_cases(3)[OF L, of "sint a + sint b"] ba bb by simp
qed

lemma sint_ucast_up:
  fixes a :: "'a::len word"
  assumes "LENGTH('a) < LENGTH('b::len)"
  shows "sint (ucast a :: 'b word) = uint a"
proof -
  have "uint a < 2 ^ LENGTH('a)" by (rule uint_lt2p)
  also have "(2::int) ^ LENGTH('a) \<le> 2 ^ (LENGTH('b) - 1)" using assms by (intro power_increasing) simp_all
  finally have "uint a < 2 ^ (LENGTH('b) - 1)" .
  moreover have "- (2 ^ (LENGTH('b) - 1)) \<le> uint a"
    by (rule order_trans[of _ 0]) simp_all
  ultimately show ?thesis
    unfolding ucast_eq sint_sbintrunc' by (intro signed_take_bit_int_eq_self)
qed

lemma sint_scast_up:
  fixes a :: "'a::len word"
  assumes "LENGTH('a) \<le> LENGTH('b::len)"
  shows "sint (scast a :: 'b word) = sint a"
  by (rule sint_up_scast) (simp add: is_up assms)

lemma promoted_8:
  fixes a :: "8 word"
  shows "sint (scast a :: int_t) = sint a" "sint (ucast a :: int_t) = uint a"
    "- 128 \<le> sint a" "sint a < 128" "0 \<le> uint a" "uint a < 256"
  using sint_scast_up[of a, where ?'b = 32] sint_ucast_up[of a, where ?'b = 32]
    sint_ge[of a] sint_lt[of a] uint_lt2p[of a] by simp_all

lemma promoted_16:
  fixes a :: "16 word"
  shows "sint (scast a :: int_t) = sint a" "sint (ucast a :: int_t) = uint a"
    "- 32768 \<le> sint a" "sint a < 32768" "0 \<le> uint a" "uint a < 65536"
  using sint_scast_up[of a, where ?'b = 32] sint_ucast_up[of a, where ?'b = 32]
    sint_ge[of a] sint_lt[of a] uint_lt2p[of a] by simp_all

lemma sint_int_add:
  fixes x y :: int_t
  assumes "- 65536 \<le> sint x" "sint x < 65536" "- 65536 \<le> sint y" "sint y < 65536"
  shows "sint (x + y) = sint x + sint y"
  using sint_add_cases(1)[of x y] assms by simp

lemma ucast_scast_int_64_narrow:
  fixes x :: int_t
  shows "(ucast (scast x :: 64 word) :: 8 word) = word_of_int (sint x)"
    and "(ucast (scast x :: 64 word) :: 16 word) = word_of_int (sint x)"
    and "(ucast (scast x :: 64 word) :: 32 word) = x"
proof -
  have d8: "is_down (ucast :: 64 word \<Rightarrow> 8 word)" and d16: "is_down (ucast :: 64 word \<Rightarrow> 16 word)"
    and d32: "is_down (ucast :: 64 word \<Rightarrow> 32 word)" by (simp_all add: is_down)
  show "(ucast (scast x :: 64 word) :: 8 word) = word_of_int (sint x)"
    unfolding scast_eq by (rule ucast_down_wi[OF d8])
  show "(ucast (scast x :: 64 word) :: 16 word) = word_of_int (sint x)"
    unfolding scast_eq by (rule ucast_down_wi[OF d16])
  show "(ucast (scast x :: 64 word) :: 32 word) = x"
    unfolding scast_eq ucast_down_wi[OF d32] by simp
qed

lemma uadd_sat_8_wraps: "uadd_sat_8 a b = a + b"
proof -
  let ?s = "(ucast a :: int_t) + ucast b"
  have s: "sint ?s = uint a + uint b"
    using sint_int_add[of "ucast a" "ucast b"] promoted_8[of a] promoted_8[of b] by simp
  then have "\<not> ?s <s ucast a" using promoted_8[of a] promoted_8[of b] by (simp add: word_sless_alt)
  then have "uadd_sat_8 a b = ucast (scast ?s :: 64 word)" by (simp add: uadd_sat_8_def)
  also have "\<dots> = word_of_int (uint a + uint b)" unfolding ucast_scast_int_64_narrow s ..
  also have "\<dots> = a + b" by simp
  finally show ?thesis .
qed

lemma uadd_sat_16_wraps: "uadd_sat_16 a b = a + b"
proof -
  let ?s = "(ucast a :: int_t) + ucast b"
  have s: "sint ?s = uint a + uint b"
    using sint_int_add[of "ucast a" "ucast b"] promoted_16[of a] promoted_16[of b] by simp
  then have "\<not> ?s <s ucast a" using promoted_16[of a] promoted_16[of b] by (simp add: word_sless_alt)
  then have "uadd_sat_16 a b = ucast (scast ?s :: 64 word)" by (simp add: uadd_sat_16_def)
  also have "\<dots> = word_of_int (uint a + uint b)" unfolding ucast_scast_int_64_narrow s ..
  also have "\<dots> = a + b" by simp
  finally show ?thesis .
qed

lemma iadd_sat_8_wraps: "iadd_sat_8 bit_size a b = a + b"
proof -
  let ?a = "scast a :: int_t" and ?b = "scast b :: int_t"
  have s: "sint (?a + ?b) = sint a + sint b"
    using sint_int_add[of ?a ?b] promoted_8[of a] promoted_8[of b] by simp
  have n1: "0 <s ?b \<Longrightarrow> \<not> ?a + ?b <s ?a" using s promoted_8(1)[of a] promoted_8(1)[of b] by (simp add: word_sless_alt)
  have n2: "\<not> 0 <s ?b \<Longrightarrow> \<not> ?a <s ?a + ?b" using s promoted_8(1)[of a] promoted_8(1)[of b] by (simp add: word_sless_alt)
  have "iadd_sat_8 bit_size a b = ucast (scast (?a + ?b) :: 64 word)"
    using n1 n2 by (simp add: iadd_sat_8_def Let_def)
  also have "\<dots> = word_of_int (sint a + sint b)" unfolding ucast_scast_int_64_narrow s ..
  also have "\<dots> = a + b" by simp
  finally show ?thesis .
qed

lemma iadd_sat_16_wraps: "iadd_sat_16 bit_size a b = a + b"
proof -
  let ?a = "scast a :: int_t" and ?b = "scast b :: int_t"
  have s: "sint (?a + ?b) = sint a + sint b"
    using sint_int_add[of ?a ?b] promoted_16[of a] promoted_16[of b] by simp
  have n1: "0 <s ?b \<Longrightarrow> \<not> ?a + ?b <s ?a" using s promoted_16(1)[of a] promoted_16(1)[of b] by (simp add: word_sless_alt)
  have n2: "\<not> 0 <s ?b \<Longrightarrow> \<not> ?a <s ?a + ?b" using s promoted_16(1)[of a] promoted_16(1)[of b] by (simp add: word_sless_alt)
  have "iadd_sat_16 bit_size a b = ucast (scast (?a + ?b) :: 64 word)"
    using n1 n2 by (simp add: iadd_sat_16_def Let_def)
  also have "\<dots> = word_of_int (sint a + sint b)" unfolding ucast_scast_int_64_narrow s ..
  also have "\<dots> = a + b" by simp
  finally show ?thesis .
qed

lemma signed_overflow_test:
  fixes a b :: "'a::len word"
  shows "0 <s b \<Longrightarrow> (a + b <s a) = (2 ^ (LENGTH('a) - 1) \<le> sint a + sint b)"
    and "\<not> 0 <s b \<Longrightarrow> (a <s a + b) = (sint a + sint b < - (2 ^ (LENGTH('a) - 1)))"
proof -
  note ba = sint_ge[of a] sint_lt[of a] and bb = sint_ge[of b] sint_lt[of b]
  have p: "(2::int) ^ LENGTH('a) = 2 * 2 ^ (LENGTH('a) - 1)"
    by (cases "LENGTH('a)") simp_all
  show "(a + b <s a) = (2 ^ (LENGTH('a) - 1) \<le> sint a + sint b)" if "0 <s b"
  proof (cases "2 ^ (LENGTH('a) - 1) \<le> sint a + sint b")
    case True
    then show ?thesis using sint_add_cases(2)[of a b] bb p by (simp add: word_sless_alt)
  next
    case False
    moreover have "0 < sint b" using that by (simp add: word_sless_alt)
    ultimately show ?thesis using sint_add_cases(1)[of a b] ba by (simp add: word_sless_alt)
  qed
  show "(a <s a + b) = (sint a + sint b < - (2 ^ (LENGTH('a) - 1)))" if "\<not> 0 <s b"
  proof (cases "sint a + sint b < - (2 ^ (LENGTH('a) - 1))")
    case True
    then show ?thesis using sint_add_cases(3)[of a b] bb p by (simp add: word_sless_alt)
  next
    case False
    moreover have "sint b \<le> 0" using that by (simp add: word_sless_alt)
    ultimately show ?thesis using sint_add_cases(1)[of a b] ba by (simp add: word_sless_alt)
  qed
qed

text \<open>
  At 32 and 64 bits \<^verbatim>\<open>iadd_sat\<close> does not saturate either: where the sum is representable
  the overflow tests fail and the sum is stored, and where it is not the expression is
  undefined. \<^verbatim>\<open>uadd_sat\<close> at 32 and 64 bits, on unsigned operands, does saturate.
\<close>

lemma iadd_sat_32_no_saturation:
  "iadd_sat_32 32 a b =
     (if - 2147483648 \<le> sint a + sint b \<and> sint a + sint b < 2147483648 then Some (a + b) else None)"
proof (cases "- 2147483648 \<le> sint a + sint b \<and> sint a + sint b < 2147483648")
  case True
  then have c: "c_sadd a b = Some (a + b)" by (simp add: c_sadd_def)
  have t1: "\<not> a + b <s a" if "0 <s b" using signed_overflow_test(1)[OF that, of a] True by simp
  have t2: "\<not> a <s a + b" if "\<not> 0 <s b" using signed_overflow_test(2)[OF that, of a] True by simp
  have "iadd_sat_32 32 a b = Some (ucast (scast (a + b) :: 64 word))"
    unfolding iadd_sat_32_def c using t1 t2 by (cases "0 <s b") simp_all
  then show ?thesis using True by (simp only: ucast_scast_int_64_narrow if_True simp_thms)
next
  case False
  then have "c_sadd a b = None" by (auto simp add: c_sadd_def)
  then show ?thesis using False by (simp add: iadd_sat_32_def)
qed

lemma iadd_sat_64_no_saturation:
  "iadd_sat_64 64 a b =
     (if - 9223372036854775808 \<le> sint a + sint b \<and> sint a + sint b < 9223372036854775808
      then Some (a + b) else None)"
proof (cases "- 9223372036854775808 \<le> sint a + sint b \<and> sint a + sint b < 9223372036854775808")
  case True
  then have c: "c_sadd a b = Some (a + b)" by (simp add: c_sadd_def)
  have t1: "\<not> a + b <s a" if "0 <s b" using signed_overflow_test(1)[OF that, of a] True by simp
  have t2: "\<not> a <s a + b" if "\<not> 0 <s b" using signed_overflow_test(2)[OF that, of a] True by simp
  have "iadd_sat_64 64 a b = Some (a + b)"
    unfolding iadd_sat_64_def c using t1 t2 by (cases "0 <s b") simp_all
  then show ?thesis using True by (simp only: if_True simp_thms)
next
  case False
  then have "c_sadd a b = None" by (auto simp add: c_sadd_def)
  then show ?thesis using False by (simp add: iadd_sat_64_def)
qed

lemma iadd_sat_overflow_undefined:
  "evaluate_iadd_sat [0, 0, 0, 0] 1 32 [[0x7FFFFFFF, 0, 0, 0], [1, 0, 0, 0]] = Inl Undefined"
  "evaluate_iadd_sat [0, 0, 0, 0] 1 64 [[0x7FFFFFFFFFFFFFFF, 0, 0, 0], [1, 0, 0, 0]] = Inl Undefined"
  by code_simp+

lemma MAX_UINT_FOR_SIZE_32: "MAX_UINT_FOR_SIZE 32 = 0xFFFFFFFF"
  by (simp add: MAX_UINT_FOR_SIZE_def drop_bit_eq_div)

lemma MAX_UINT_FOR_SIZE_64: "MAX_UINT_FOR_SIZE 64 = 0xFFFFFFFFFFFFFFFF"
  by (simp add: MAX_UINT_FOR_SIZE_def)

lemma uadd_sat_32_saturates: "unat (uadd_sat_32 a b) = min (unat a + unat b) (2 ^ 32 - 1)"
proof (cases "a + b < a")
  case True
  then have "\<not> a \<le> a + b" by simp
  then have "\<not> unat a + unat b < 2 ^ 32" using no_olen_add_nat[of a b] by simp
  moreover have "unat (uadd_sat_32 a b) = 2 ^ 32 - 1"
    using True by (simp add: uadd_sat_32_def MAX_UINT_FOR_SIZE_32)
  ultimately show ?thesis by simp
next
  case False
  then have le: "a \<le> a + b" by simp
  then have lt: "unat a + unat b < 2 ^ 32" using no_olen_add_nat[of a b] by simp
  then have "unat (a + b) = unat a + unat b" by (simp add: unat_add_lem[THEN iffD1])
  moreover have "uadd_sat_32 a b = a + b" using False
    by (simp add: uadd_sat_32_def) (simp add: ucast_up_ucast_id is_up)
  ultimately show ?thesis using lt by simp
qed

lemma uadd_sat_64_saturates: "unat (uadd_sat_64 a b) = min (unat a + unat b) (2 ^ 64 - 1)"
proof (cases "a + b < a")
  case True
  then have "\<not> a \<le> a + b" by simp
  then have "\<not> unat a + unat b < 2 ^ 64" using no_olen_add_nat[of a b] by simp
  moreover have "unat (uadd_sat_64 a b) = 2 ^ 64 - 1"
    using True by (simp add: uadd_sat_64_def MAX_UINT_FOR_SIZE_64)
  ultimately show ?thesis by simp
next
  case False
  then have le: "a \<le> a + b" by simp
  then have lt: "unat a + unat b < 2 ^ 64" using no_olen_add_nat[of a b] by simp
  then have "unat (a + b) = unat a + unat b" by (simp add: unat_add_lem[THEN iffD1])
  moreover have "uadd_sat_64 a b = a + b" using False by (simp add: uadd_sat_64_def)
  ultimately show ?thesis using lt by simp
qed

text \<open>
  Claim C1. \<^verbatim>\<open>uadd_sat\<close> and \<^verbatim>\<open>iadd_sat\<close> are to give the saturated bound whenever the
  exact sum is not representable at the width, at each of the widths 1, 8, 16, 32 and 64.
  \<^verbatim>\<open>uadd_sat\<close> does so at 32 and 64 bits only, and \<^verbatim>\<open>iadd_sat\<close> at no width (at 32 and 64
  bits its tests compare an overflowing signed sum). At 1, 8 and 16 bits the operands are promoted
  to \<^verbatim>\<open>int\<close>, where the sum does not wrap, so the overflow test never holds and the sum is
  truncated (\<open>uadd_sat_8_wraps\<close>, \<open>iadd_sat_8_wraps\<close> and their 16-bit siblings). The
  theorem evaluates the code where it fails: \<^verbatim>\<open>uadd_sat\<close> on 250 and 10 at 8 bits stores 4,
  not 255; on 65530 and 10 at 16 bits 4, not 65535; on 1 and 1 at 1 bit 0, not 1;
  \<^verbatim>\<open>iadd_sat\<close> on 127 and 1 at 8 bits stores 0x80 (-128), not 127; on -128 and -1 it
  stores 127, not -128; on 32767 and 1 at 16 bits 0x8000; on -1 and -1 at 1 bit 0, not -1.
\<close>

theorem saturating_add_wraps_below_32_bits:
  "evaluate_uadd_sat [0, 0, 0, 0] 1 8 [[250, 0, 0, 0], [10, 0, 0, 0]] = Inr [4, 0, 0, 0] \<and>
   evaluate_uadd_sat [0, 0, 0, 0] 1 16 [[65530, 0, 0, 0], [10, 0, 0, 0]] = Inr [4, 0, 0, 0] \<and>
   evaluate_uadd_sat [0, 0, 0, 0] 1 1 [[1, 0, 0, 0], [1, 0, 0, 0]] = Inr [0, 0, 0, 0] \<and>
   evaluate_iadd_sat [0, 0, 0, 0] 1 8 [[127, 0, 0, 0], [1, 0, 0, 0]] = Inr [0x80, 0, 0, 0] \<and>
   evaluate_iadd_sat [0, 0, 0, 0] 1 8 [[0x80, 0, 0, 0], [0xFF, 0, 0, 0]] = Inr [127, 0, 0, 0] \<and>
   evaluate_iadd_sat [0, 0, 0, 0] 1 16 [[0x7FFF, 0, 0, 0], [1, 0, 0, 0]] = Inr [0x8000, 0, 0, 0] \<and>
   evaluate_iadd_sat [0, 0, 0, 0] 1 1 [[1, 0, 0, 0], [1, 0, 0, 0]] = Inr [0, 0, 0, 0]"
proof (intro conjI)
  show "evaluate_uadd_sat [0, 0, 0, 0] 1 8 [[250, 0, 0, 0], [10, 0, 0, 0]] = Inr [4, 0, 0, 0]"
    by code_simp
  show "evaluate_uadd_sat [0, 0, 0, 0] 1 16 [[65530, 0, 0, 0], [10, 0, 0, 0]] = Inr [4, 0, 0, 0]"
    by code_simp
  show "evaluate_uadd_sat [0, 0, 0, 0] 1 1 [[1, 0, 0, 0], [1, 0, 0, 0]] = Inr [0, 0, 0, 0]"
    by code_simp
  show "evaluate_iadd_sat [0, 0, 0, 0] 1 8 [[127, 0, 0, 0], [1, 0, 0, 0]] = Inr [0x80, 0, 0, 0]"
    by code_simp
  show "evaluate_iadd_sat [0, 0, 0, 0] 1 8 [[0x80, 0, 0, 0], [0xFF, 0, 0, 0]] = Inr [127, 0, 0, 0]"
    by code_simp
  show "evaluate_iadd_sat [0, 0, 0, 0] 1 16 [[0x7FFF, 0, 0, 0], [1, 0, 0, 0]] = Inr [0x8000, 0, 0, 0]"
    by code_simp
  show "evaluate_iadd_sat [0, 0, 0, 0] 1 1 [[1, 0, 0, 0], [1, 0, 0, 0]] = Inr [0, 0, 0, 0]"
    by code_simp
qed

section \<open>Bitfield extraction: ubitfield-extract and ubfe\<close>

lemma per_component3_Some_all:
  assumes "n \<le> length d"
    "\<forall>j<n. expr (rd (src ! 0 ! j)) (rd (src ! 1 ! j)) (rd (src ! 2 ! j)) = Some (g j)"
  shows "\<exists>d'. per_component3 rd wr expr d n src = Inr d' \<and> length d' = length d \<and>
           (\<forall>j<n. d' ! j = wr (d ! j) (g j)) \<and> (\<forall>j\<ge>n. d' ! j = d ! j)"
  unfolding per_component3_def
  using for_components_Inr[OF assms(1), of _ "\<lambda>j. wr (d ! j) (g j)"] assms(2) by simp

lemma sless_0_iff: "(x <s 0) = (sint x < 0)" for x :: int_t
  by (simp add: word_sless_alt)

lemma sint_int_add_nonneg:
  fixes x y :: int_t
  assumes "0 \<le> sint x" "0 \<le> sint y" "sint x + sint y < 2147483648"
  shows "sint (x + y) = sint x + sint y"
  using sint_add_cases(1)[of x y] assms by simp

lemma ubitfield_extract_zero_bits: "ubitfield_extract base offset 0 = Some 0"
  by (simp add: ubitfield_extract_def)

lemma ubitfield_extract_out_of_range:
  assumes "out_of_range offset bits" "sint offset + sint bits < 2147483648"
  shows "ubitfield_extract base offset bits = Some 0"
proof (cases "bits = 0 \<or> bits <s 0 \<or> offset <s 0")
  case True
  then show ?thesis by (auto simp add: ubitfield_extract_def)
next
  case False
  then have nn: "0 \<le> sint offset" "0 \<le> sint bits" by (simp_all add: word_sless_alt)
  then have "sint (offset + bits) = sint offset + sint bits"
    using sint_int_add_nonneg assms(2) by blast
  moreover have "32 < sint offset + sint bits" using assms(1) nn by (simp add: out_of_range_def)
  ultimately have "32 <s offset + bits" by (simp add: word_sless_alt)
  then show ?thesis by (simp add: ubitfield_extract_def)
qed

lemma evaluate_ubitfield_extract_lane:
  assumes "n \<le> length d" "evaluate_ubitfield_extract d n bit_size [src0, src1, src2] = Inr d'"
    "j < n"
    and "get_32 (src2 ! j) = 0 \<or>
         (out_of_range (get_32 (src1 ! j)) (get_32 (src2 ! j)) \<and>
          sint (get_32 (src1 ! j)) + sint (get_32 (src2 ! j)) < 2147483648)"
  shows "get_32 (d' ! j) = 0"
proof -
  from per_component3_lane[OF assms(2)[unfolded evaluate_ubitfield_extract_def] assms(1,3)]
  obtain r where r:
    "ubitfield_extract (get_32 (src0 ! j)) (get_32 (src1 ! j)) (get_32 (src2 ! j)) = Some r"
    "d' ! j = set_32 (d ! j) r" by auto
  have "ubitfield_extract (get_32 (src0 ! j)) (get_32 (src1 ! j)) (get_32 (src2 ! j)) = Some 0"
    using assms(4) ubitfield_extract_zero_bits ubitfield_extract_out_of_range by auto
  then show ?thesis using r by (simp add: get_set_32)
qed

text \<open>
  Claim C5. \<^verbatim>\<open>ubitfield_extract\<close> is to yield 0 for every out-of-range pair of offset and
  bit count, and the guard \<^verbatim>\<open>bits < 0 || offset < 0 || offset + bits > 32\<close> with
  \<^verbatim>\<open>dst = 0\<close> is there for that. The sum is computed in \<^verbatim>\<open>int\<close>: for offset 1 and
  2147483647 bits, out of range since the field ends far beyond bit 32, the sum
  overflows, the wrapped sum is negative, the guard does not fire and the code goes on to
  \<^verbatim>\<open>1ull << bits\<close> with a count C leaves undefined, so that no fixed value 0 results.
  Where the sum does not overflow the guard works (\<open>evaluate_ubitfield_extract_lane\<close>):
  offset 30 with 8 bits gives 0, beside a lane in range that extracts its field.
\<close>

theorem ubitfield_extract_guard_overflows:
  "out_of_range 1 0x7FFFFFFF \<and>
   sint (1 :: int_t) + sint (0x7FFFFFFF :: int_t) = 2147483648 \<and>
   sint ((1 :: int_t) + 0x7FFFFFFF) = - 2147483648 \<and>
   \<not> (32 <s (1 :: int_t) + 0x7FFFFFFF) \<and>
   ubitfield_extract 2 1 0x7FFFFFFF = None \<and>
   evaluate_ubitfield_extract [0, 0, 0, 0] 1 32 [[2, 0, 0, 0], [1, 0, 0, 0], [0x7FFFFFFF, 0, 0, 0]] = Inl Undefined \<and>
   out_of_range 30 8 \<and>
   evaluate_ubitfield_extract [0, 0, 0, 0] 2 32
     [[0xFFFFFFFF, 0x12345678, 0, 0], [30, 4, 0, 0], [8, 8, 0, 0]] = Inr [0, 103, 0, 0]"
proof (intro conjI)
  show "out_of_range 1 0x7FFFFFFF" by (simp add: out_of_range_def)
  show "sint (1 :: int_t) + sint (0x7FFFFFFF :: int_t) = 2147483648" by simp
  show "sint ((1 :: int_t) + 0x7FFFFFFF) = - 2147483648" by simp
  show "\<not> (32 <s (1 :: int_t) + 0x7FFFFFFF)" by (simp add: word_sless_alt)
  show "ubitfield_extract 2 1 0x7FFFFFFF = None" by code_simp
  show "evaluate_ubitfield_extract [0, 0, 0, 0] 1 32 [[2, 0, 0, 0], [1, 0, 0, 0], [0x7FFFFFFF, 0, 0, 0]] = Inl Undefined"
    by code_simp
  show "out_of_range 30 8" by (simp add: out_of_range_def)
  show "evaluate_ubitfield_extract [0, 0, 0, 0] 2 32
     [[0xFFFFFFFF, 0x12345678, 0, 0], [30, 4, 0, 0], [8, 8, 0, 0]] = Inr [0, 103, 0, 0]"
    by code_simp
qed

lemma ubfe_zero:
  assumes "bits = 0 \<or> sint bits < 0 \<or> sint offset < 0"
  shows "ubfe base offset bits = Some 0"
  using assms by (auto simp add: ubfe_def word_sless_alt)

lemma ubfe_shift:
  assumes "0 < sint bits" "0 \<le> sint offset" "sint offset < 32" "32 \<le> sint offset + sint bits"
    "sint offset + sint bits < 2147483648"
  shows "ubfe base offset bits = Some (drop_bit (unat offset) base)"
proof -
  have "sint (offset + bits) = sint offset + sint bits"
    using sint_int_add_nonneg[of offset bits] assms by simp
  then have "\<not> offset + bits <s 32" using assms(4) by (simp add: word_sless_alt)
  moreover have "bits \<noteq> 0" using assms(1) by auto
  moreover have "\<not> bits <s 0" "\<not> offset <s 0" using assms by (simp_all add: word_sless_alt)
  moreover have "c_shr base offset = Some (drop_bit (unat offset) base)"
    using assms(2,3) by (simp add: c_shr_def word_sle_eq)
  ultimately show ?thesis by (simp add: ubfe_def)
qed

lemma ubfe_cases:
  assumes "ubfe_zero_case offset bits \<or> ubfe_shift_case offset bits"
  shows "ubfe base offset bits =
           Some (if ubfe_zero_case offset bits then 0 else drop_bit (unat offset) base)"
proof (cases "ubfe_zero_case offset bits")
  case True
  then show ?thesis using ubfe_zero[of bits offset base] by (simp add: ubfe_zero_case_def)
next
  case False
  then have "ubfe_shift_case offset bits" using assms by simp
  then show ?thesis using ubfe_shift[of bits offset base] False by (simp add: ubfe_shift_case_def)
qed

lemma sint_of_int_t:
  assumes "- 2147483648 \<le> k" "k < 2147483648"
  shows "sint (word_of_int k :: int_t) = k"
  unfolding sint_sbintrunc' using assms by (intro signed_take_bit_int_eq_self) simp_all

lemma ubfe_middle:
  assumes "0 < sint bits" "0 \<le> sint offset" "sint offset + sint bits < 32"
  shows "\<exists>r. ubfe base offset bits = Some r"
proof -
  have s: "sint (offset + bits) = sint offset + sint bits"
    using sint_int_add_nonneg[of offset bits] assms by simp
  have a: "offset + bits <s 32" using s assms(3) by (simp add: word_sless_alt)
  have "32 - bits - offset = word_of_int (32 - sint bits - sint offset)" by simp
  then have "sint (32 - bits - offset) = sint (word_of_int (32 - sint bits - sint offset) :: int_t)"
    by (simp only:)
  also have "\<dots> = 32 - sint bits - sint offset" using assms by (intro sint_of_int_t) simp_all
  finally have c1: "sint (32 - bits - offset) = 32 - sint bits - sint offset" .
  have "32 - bits = word_of_int (32 - sint bits)" by simp
  then have "sint (32 - bits) = sint (word_of_int (32 - sint bits) :: int_t)" by (simp only:)
  also have "\<dots> = 32 - sint bits" using assms by (intro sint_of_int_t) simp_all
  finally have c2: "sint (32 - bits) = 32 - sint bits" .
  obtain t where t: "c_shl base (32 - bits - offset) = Some t"
    using c1 assms by (simp add: c_shl_def word_sle_eq)
  obtain u where u: "c_shr t (32 - bits) = Some u"
    using c2 assms by (simp add: c_shr_def word_sle_eq)
  have "bits \<noteq> 0" using assms(1) by auto
  moreover have "\<not> bits <s 0" "\<not> offset <s 0" using assms by (simp_all add: word_sless_alt)
  ultimately have "ubfe base offset bits = Some u" using a t u by (simp add: ubfe_def)
  then show ?thesis by blast
qed

lemma ubfe_defined_Some:
  assumes "ubfe_defined offset bits"
  shows "\<exists>r. ubfe base offset bits = Some r"
proof -
  consider "bits = 0 \<or> sint bits < 0 \<or> sint offset < 0"
    | "0 < sint bits" "0 \<le> sint offset" "sint offset + sint bits < 32"
    | "0 < sint bits" "0 \<le> sint offset" "sint offset < 32" "32 \<le> sint offset + sint bits"
      "sint offset + sint bits < 2147483648"
    using assms sint_eq_0_iff[of bits] unfolding ubfe_defined_def by fastforce
  then show ?thesis
  proof cases
    case 1
    then show ?thesis using ubfe_zero[of bits offset base] by blast
  next
    case 2
    then show ?thesis by (rule ubfe_middle)
  next
    case 3
    then show ?thesis using ubfe_shift[of bits offset base] by blast
  qed
qed

lemma evaluate_ubfe_returns:
  assumes "n \<le> length d"
    "\<forall>j<n. ubfe_defined (get_32 (src1 ! j)) (get_32 (src2 ! j))"
  shows "\<exists>d'. evaluate_ubfe d n bit_size [src0, src1, src2] = Inr d'"
proof -
  let ?g = "\<lambda>j. the (ubfe (get_32 (src0 ! j)) (get_32 (src1 ! j)) (get_32 (src2 ! j)))"
  have "\<forall>j<n. ubfe (get_32 ([src0, src1, src2] ! 0 ! j)) (get_32 ([src0, src1, src2] ! 1 ! j))
      (get_32 ([src0, src1, src2] ! 2 ! j)) = Some (?g j)"
  proof (intro allI impI)
    fix j assume "j < n"
    then have "ubfe_defined (get_32 (src1 ! j)) (get_32 (src2 ! j))" using assms(2) by simp
    from ubfe_defined_Some[OF this, of "get_32 (src0 ! j)"]
    show "ubfe (get_32 ([src0, src1, src2] ! 0 ! j)) (get_32 ([src0, src1, src2] ! 1 ! j))
      (get_32 ([src0, src1, src2] ! 2 ! j)) = Some (?g j)" by auto
  qed
  with assms(1) per_component3_Some_all[where expr = ubfe and rd = get_32 and wr = set_32
      and src = "[src0, src1, src2]" and g = ?g and n = n and d = d]
  show ?thesis unfolding evaluate_ubfe_def by blast
qed

lemma evaluate_ubfe_lane:
  assumes "n \<le> length d" "evaluate_ubfe d n bit_size [src0, src1, src2] = Inr d'" "j < n"
  shows "ubfe_zero_case (get_32 (src1 ! j)) (get_32 (src2 ! j)) \<Longrightarrow> get_32 (d' ! j) = 0"
    and "ubfe_shift_case (get_32 (src1 ! j)) (get_32 (src2 ! j)) \<Longrightarrow>
           get_32 (d' ! j) = drop_bit (unat (get_32 (src1 ! j))) (get_32 (src0 ! j))"
proof -
  from per_component3_lane[OF assms(2)[unfolded evaluate_ubfe_def] assms(1,3)]
  obtain r where r: "ubfe (get_32 (src0 ! j)) (get_32 (src1 ! j)) (get_32 (src2 ! j)) = Some r"
    "d' ! j = set_32 (d ! j) r" by auto
  show "get_32 (d' ! j) = 0" if "ubfe_zero_case (get_32 (src1 ! j)) (get_32 (src2 ! j))"
    using ubfe_zero[of "get_32 (src2 ! j)" "get_32 (src1 ! j)" "get_32 (src0 ! j)"] that r
    by (simp add: ubfe_zero_case_def get_set_32)
  show "get_32 (d' ! j) = drop_bit (unat (get_32 (src1 ! j))) (get_32 (src0 ! j))"
    if "ubfe_shift_case (get_32 (src1 ! j)) (get_32 (src2 ! j))"
    using ubfe_shift[of "get_32 (src2 ! j)" "get_32 (src1 ! j)" "get_32 (src0 ! j)"] that r
    by (simp add: ubfe_shift_case_def get_set_32)
qed

text \<open>
  Claim C10, amended. \<^verbatim>\<open>ubfe\<close> returns whenever C defines every lane. Whenever it returns,
  each lane by itself with bits > 0, offset from 0 to 31 and offset + bits at least 32
  (and at most the largest \<^verbatim>\<open>int\<close>) holds the base shifted right logically by the offset,
  which is 0 when the base has no bit at or above the offset; each lane with bits = 0 or
  a negative offset or bit count holds 0. On base 0xFFFFFFFF, offset 30 and 8 bits
  \<^verbatim>\<open>ubfe\<close> gives 3 where \<^verbatim>\<open>ubitfield_extract\<close> gives 0.
\<close>

theorem ubfe_shifts_right:
  assumes "vec4 dst_val" "vec4 src0" "vec4 src1" "vec4 src2" "num_components \<le> 4"
  shows "((\<forall>j<num_components. ubfe_defined (get_32 (src1 ! j)) (get_32 (src2 ! j))) \<longrightarrow>
            (\<exists>d. evaluate_ubfe dst_val num_components bit_size [src0, src1, src2] = Inr d)) \<and>
         (\<forall>d. evaluate_ubfe dst_val num_components bit_size [src0, src1, src2] = Inr d \<longrightarrow>
            (\<forall>j<num_components.
               (ubfe_shift_case (get_32 (src1 ! j)) (get_32 (src2 ! j)) \<longrightarrow>
                  get_32 (d ! j) = drop_bit (unat (get_32 (src1 ! j))) (get_32 (src0 ! j))) \<and>
               (ubfe_zero_case (get_32 (src1 ! j)) (get_32 (src2 ! j)) \<longrightarrow>
                  get_32 (d ! j) = 0))) \<and>
         ubfe 0xFFFFFFFF 30 8 = Some 3 \<and> ubitfield_extract 0xFFFFFFFF 30 8 = Some 0"
proof -
  have n: "num_components \<le> length dst_val" using assms(1,5) by (simp add: vec4_def)
  have A: "(\<forall>j<num_components. ubfe_defined (get_32 (src1 ! j)) (get_32 (src2 ! j))) \<longrightarrow>
            (\<exists>d. evaluate_ubfe dst_val num_components bit_size [src0, src1, src2] = Inr d)"
    using evaluate_ubfe_returns[OF n] by blast
  have B: "\<forall>d. evaluate_ubfe dst_val num_components bit_size [src0, src1, src2] = Inr d \<longrightarrow>
            (\<forall>j<num_components.
               (ubfe_shift_case (get_32 (src1 ! j)) (get_32 (src2 ! j)) \<longrightarrow>
                  get_32 (d ! j) = drop_bit (unat (get_32 (src1 ! j))) (get_32 (src0 ! j))) \<and>
               (ubfe_zero_case (get_32 (src1 ! j)) (get_32 (src2 ! j)) \<longrightarrow>
                  get_32 (d ! j) = 0))"
    using evaluate_ubfe_lane[OF n] by blast
  have C: "ubfe 0xFFFFFFFF 30 8 = Some 3" by code_simp
  have D: "ubitfield_extract 0xFFFFFFFF 30 8 = Some 0" by code_simp
  show ?thesis by (rule conjI[OF A conjI[OF B conjI[OF C D]]])
qed

theorem ubfe_shifts_right_witness:
  "vec4 [0, 0, 0, 0] \<and> vec4 [0xFFFFFFFF, 0x12345678, 0xFFFFFFFF, 0] \<and> vec4 [30, 4, 5, 0] \<and>
   vec4 [8, 8, 0, 0] \<and> (3 :: nat) \<le> 4 \<and>
   ubfe_defined (get_32 ([30, 4, 5, 0] ! 0)) (get_32 ([8, 8, 0, 0] ! 0)) \<and>
   ubfe_defined (get_32 ([30, 4, 5, 0] ! 1)) (get_32 ([8, 8, 0, 0] ! 1)) \<and>
   ubfe_defined (get_32 ([30, 4, 5, 0] ! 2)) (get_32 ([8, 8, 0, 0] ! 2)) \<and>
   ubfe_shift_case (get_32 ([30, 4, 5, 0] ! 0)) (get_32 ([8, 8, 0, 0] ! 0)) \<and>
   ubfe_zero_case (get_32 ([30, 4, 5, 0] ! 2)) (get_32 ([8, 8, 0, 0] ! 2)) \<and>
   (\<exists>d. evaluate_ubfe [0, 0, 0, 0] 3 32
          [[0xFFFFFFFF, 0x12345678, 0xFFFFFFFF, 0], [30, 4, 5, 0], [8, 8, 0, 0]] = Inr d \<and>
      get_32 (d ! 0) = 3 \<and> get_32 (d ! 2) = 0)"
proof -
  have v: "vec4 [0, 0, 0, 0]" "vec4 [0xFFFFFFFF, 0x12345678, 0xFFFFFFFF, 0]" "vec4 [30, 4, 5, 0]"
    "vec4 [8, 8, 0, 0]" "(3 :: nat) \<le> 4"
    by (simp_all add: vec4_def)
  have u: "ubfe_defined (get_32 ([30, 4, 5, 0] ! 0)) (get_32 ([8, 8, 0, 0] ! 0))"
    "ubfe_defined (get_32 ([30, 4, 5, 0] ! 1)) (get_32 ([8, 8, 0, 0] ! 1))"
    "ubfe_defined (get_32 ([30, 4, 5, 0] ! 2)) (get_32 ([8, 8, 0, 0] ! 2))"
    by (simp_all add: ubfe_defined_def get_32_def)
  have c: "ubfe_shift_case (get_32 ([30, 4, 5, 0] ! 0)) (get_32 ([8, 8, 0, 0] ! 0))"
    "ubfe_zero_case (get_32 ([30, 4, 5, 0] ! 2)) (get_32 ([8, 8, 0, 0] ! 2))"
    by (simp_all add: ubfe_shift_case_def ubfe_zero_case_def get_32_def)
  have h: "\<forall>j<3. ubfe_defined (get_32 ([30, 4, 5, 0] ! j)) (get_32 ([8, 8, 0, 0] ! j))"
  proof (intro allI impI)
    fix j :: nat assume "j < 3"
    then consider "j = 0" | "j = 1" | "j = 2" by linarith
    then show "ubfe_defined (get_32 ([30, 4, 5, 0] ! j)) (get_32 ([8, 8, 0, 0] ! j))"
      using u by cases simp_all
  qed
  note t = ubfe_shifts_right[OF v, of 32]
  from t[THEN conjunct1, THEN mp, OF h] obtain d where d:
    "evaluate_ubfe [0, 0, 0, 0] 3 32
       [[0xFFFFFFFF, 0x12345678, 0xFFFFFFFF, 0], [30, 4, 5, 0], [8, 8, 0, 0]] = Inr d" by blast
  note l = t[THEN conjunct2, THEN conjunct1, THEN spec, THEN mp, OF d, THEN spec, THEN mp]
  have "get_32 (d ! 0) =
      drop_bit (unat (get_32 ([30, 4, 5, 0] ! 0))) (get_32 ([0xFFFFFFFF, 0x12345678, 0xFFFFFFFF, 0] ! 0))"
    using l[of 0, THEN conjunct1, THEN mp, OF _ c(1)] by simp
  then have d0: "get_32 (d ! 0) = 3" by (simp add: get_32_def drop_bit_eq_div)
  have d2: "get_32 (d ! 2) = 0" using l[of 2, THEN conjunct2, THEN mp, OF _ c(2)] by simp
  have A: "\<exists>d. evaluate_ubfe [0, 0, 0, 0] 3 32
          [[0xFFFFFFFF, 0x12345678, 0xFFFFFFFF, 0], [30, 4, 5, 0], [8, 8, 0, 0]] = Inr d \<and>
      get_32 (d ! 0) = 3 \<and> get_32 (d ! 2) = 0" using d d0 d2 by blast
  show ?thesis by (intro conjI) (rule v u c A)+
qed

text \<open>
  The claim as stated fails in three ways. For an offset of 32 or more (bits = 1, offset
  = 32) the code evaluates \<^verbatim>\<open>base >> 32\<close> on a 32-bit operand, which C leaves undefined.
  Where offset + bits overflows \<^verbatim>\<open>int\<close> (offset = 1, bits = 2147483647) the sum wraps to
  a negative number, the test \<^verbatim>\<open>offset + bits < 32\<close> holds and the code shifts by counts
  that C leaves undefined. And the result can be 0 with bits > 0 and offset >= 0: base 1,
  offset 1 and 31 bits give \<^verbatim>\<open>1 >> 1\<close>.
\<close>

theorem ubfe_offset_32_counterexample:
  "0 < sint (1 :: int_t) \<and> 0 \<le> sint (32 :: int_t) \<and> 32 \<le> sint (32 :: int_t) + sint (1 :: int_t) \<and>
   evaluate_ubfe [0, 0, 0, 0] 1 32 [[0xFFFFFFFF, 0, 0, 0], [32, 0, 0, 0], [1, 0, 0, 0]] = Inl Undefined \<and>
   0 < sint (0x7FFFFFFF :: int_t) \<and> 0 \<le> sint (1 :: int_t) \<and>
   32 \<le> sint (1 :: int_t) + sint (0x7FFFFFFF :: int_t) \<and>
   evaluate_ubfe [0, 0, 0, 0] 1 32 [[0xFFFFFFFF, 0, 0, 0], [1, 0, 0, 0], [0x7FFFFFFF, 0, 0, 0]] = Inl Undefined \<and>
   0 < sint (31 :: int_t) \<and> 32 \<le> sint (1 :: int_t) + sint (31 :: int_t) \<and>
   evaluate_ubfe [7, 0, 0, 0] 1 32 [[1, 0, 0, 0], [1, 0, 0, 0], [31, 0, 0, 0]] = Inr [0, 0, 0, 0]"
proof (intro conjI)
  show "evaluate_ubfe [0, 0, 0, 0] 1 32 [[0xFFFFFFFF, 0, 0, 0], [32, 0, 0, 0], [1, 0, 0, 0]] = Inl Undefined"
    by code_simp
  show "evaluate_ubfe [0, 0, 0, 0] 1 32 [[0xFFFFFFFF, 0, 0, 0], [1, 0, 0, 0], [0x7FFFFFFF, 0, 0, 0]] = Inl Undefined"
    by code_simp
  show "evaluate_ubfe [7, 0, 0, 0] 1 32 [[1, 0, 0, 0], [1, 0, 0, 0], [31, 0, 0, 0]] = Inr [0, 0, 0, 0]"
    by code_simp
qed simp_all

section \<open>The reduction ball-iequal4\<close>

lemma get_8_set_bool1: "get_8 (set_bool1 v x) = (if x then 1 else 0)"
  by (simp add: set_bool1_def neg_int_bool_def get_8_set_b)

lemma get_b_set_bool1: "get_b (set_bool1 v x) = x"
  by (simp add: set_bool1_def neg_int_bool_def get_set_b)

lemma get_32_set_bool32: "get_32 (set_bool32 v x) = (if x then - 1 else 0)"
  by (simp add: set_bool32_def neg_int_bool_def get_set_32)

lemma get_8_as_32: "get_8 v = ucast (get_32 v)"
  unfolding get_8_def get_32_def
  by (rule bit_word_eqI) (auto simp add: bit_simps)

lemma get_32_set_bool1_not_all_ones: "get_32 (set_bool1 v x) \<noteq> - 1"
proof
  assume "get_32 (set_bool1 v x) = - 1"
  then have "get_8 (set_bool1 v x) = ucast (- 1 :: 32 word)" by (simp only: get_8_as_32)
  then show False by (simp add: get_8_set_bool1 ucast_32_8_m1 split: if_splits)
qed

lemma evaluate_ball_iequal4_32:
  assumes "0 < length dst_val"
  shows "\<exists>d. evaluate_ball_iequal4 dst_val num_components 32 [src0, src1] = Inr d \<and>
           length d = length dst_val \<and>
           d ! 0 = set_bool1 (dst_val ! 0) (\<forall>k<4. get_32 (src0 ! k) = get_32 (src1 ! k)) \<and>
           (\<forall>j. 0 < j \<longrightarrow> d ! j = dst_val ! j)"
proof -
  have "(\<forall>k<4. get_32 (src0 ! k) = get_32 (src1 ! k)) =
        all_iequal4 (read_vec4 get_32 src0) (read_vec4 get_32 src1)"
    (is "?L = ?R")
  proof
    assume ?L
    then have "get_32 (src0 ! 0) = get_32 (src1 ! 0)" "get_32 (src0 ! 1) = get_32 (src1 ! 1)"
      "get_32 (src0 ! 2) = get_32 (src1 ! 2)" "get_32 (src0 ! 3) = get_32 (src1 ! 3)" by simp_all
    then show ?R by (simp add: all_iequal4_def read_vec4_def)
  next
    assume r: ?R
    show ?L
    proof (intro allI impI)
      fix k :: nat assume "k < 4"
      then have "k = 0 \<or> k = 1 \<or> k = 2 \<or> k = 3" by arith
      then show "get_32 (src0 ! k) = get_32 (src1 ! k)"
        using r by (auto simp add: all_iequal4_def read_vec4_def)
    qed
  qed
  then show ?thesis using assms by (simp add: evaluate_ball_iequal4_def store_lane0_def)
qed

text \<open>
  Claim C3, amended. \<^verbatim>\<open>ball_iequal4\<close> at bit width 32 stores destination lane 0 only, through
  the boolean member \<^verbatim>\<open>b\<close>: the lane's boolean is true exactly when the four 32-bit lanes
  of the sources are pairwise equal, its byte is 1 or 0, and the lanes 1 to 3 keep their
  contents. On (1,2,3,4) and (1,2,3,5) lane 0 becomes 0; on (1,2,3,4) and (1,2,3,4) it
  becomes the boolean true, the value 1: the lane is never the 32-bit all-ones value -1,
  which is what the 32-bit-boolean opcode \<^verbatim>\<open>b32all_iequal4\<close> stores.
\<close>

theorem ball_iequal4_writes_boolean_lane0:
  assumes "vec4 dst_val" "vec4 src0" "vec4 src1"
  shows "(\<exists>d. evaluate_ball_iequal4 dst_val num_components 32 [src0, src1] = Inr d \<and> vec4 d \<and>
            get_b (d ! 0) = (\<forall>k<4. get_32 (src0 ! k) = get_32 (src1 ! k)) \<and>
            get_8 (d ! 0) = (if \<forall>k<4. get_32 (src0 ! k) = get_32 (src1 ! k) then 1 else 0) \<and>
            get_32 (d ! 0) \<noteq> - 1 \<and>
            (\<forall>j. 0 < j \<longrightarrow> d ! j = dst_val ! j)) \<and>
         evaluate_ball_iequal4 [0, 0, 0, 0] 4 32 [[1, 2, 3, 4], [1, 2, 3, 5]] = Inr [0, 0, 0, 0] \<and>
         evaluate_ball_iequal4 [0, 0, 0, 0] 4 32 [[1, 2, 3, 4], [1, 2, 3, 4]] = Inr [1, 0, 0, 0] \<and>
         evaluate_b32all_iequal4 [0, 0, 0, 0] 4 32 [[1, 2, 3, 4], [1, 2, 3, 4]] = Inr [0xFFFFFFFF, 0, 0, 0]"
proof -
  have "0 < length dst_val" using assms(1) by (simp add: vec4_def)
  from evaluate_ball_iequal4_32[OF this, of num_components src0 src1] obtain d where d:
    "evaluate_ball_iequal4 dst_val num_components 32 [src0, src1] = Inr d"
    "length d = length dst_val"
    "d ! 0 = set_bool1 (dst_val ! 0) (\<forall>k<4. get_32 (src0 ! k) = get_32 (src1 ! k))"
    "\<forall>j. 0 < j \<longrightarrow> d ! j = dst_val ! j" by blast
  have "vec4 d" using d(2) assms(1) by (simp add: vec4_def)
  moreover have "get_b (d ! 0) = (\<forall>k<4. get_32 (src0 ! k) = get_32 (src1 ! k))"
    unfolding d(3) by (rule get_b_set_bool1)
  moreover have "get_8 (d ! 0) = (if \<forall>k<4. get_32 (src0 ! k) = get_32 (src1 ! k) then 1 else 0)"
    unfolding d(3) by (rule get_8_set_bool1)
  moreover have "get_32 (d ! 0) \<noteq> - 1"
    unfolding d(3) by (rule get_32_set_bool1_not_all_ones)
  moreover have "evaluate_ball_iequal4 [0, 0, 0, 0] 4 32 [[1, 2, 3, 4], [1, 2, 3, 5]] = Inr [0, 0, 0, 0]"
    by code_simp
  moreover have "evaluate_ball_iequal4 [0, 0, 0, 0] 4 32 [[1, 2, 3, 4], [1, 2, 3, 4]] = Inr [1, 0, 0, 0]"
    by code_simp
  moreover have "evaluate_b32all_iequal4 [0, 0, 0, 0] 4 32 [[1, 2, 3, 4], [1, 2, 3, 4]] = Inr [0xFFFFFFFF, 0, 0, 0]"
    by code_simp
  ultimately show ?thesis using d(1,4) by blast
qed

theorem ball_iequal4_writes_boolean_lane0_witness:
  "vec4 [7, 8, 9, 10] \<and> vec4 [1, 2, 3, 4] \<and> vec4 [1, 2, 3, 4] \<and>
   (\<exists>d. evaluate_ball_iequal4 [7, 8, 9, 10] 4 32 [[1, 2, 3, 4], [1, 2, 3, 4]] = Inr d \<and>
      get_8 (d ! 0) = 1 \<and> d ! 1 = 8 \<and> d ! 2 = 9 \<and> d ! 3 = 10)"
proof -
  have v: "vec4 [7, 8, 9, 10]" "vec4 [1, 2, 3, 4]" by (simp_all add: vec4_def)
  have a: "\<forall>k<4. get_32 ([1, 2, 3, 4] ! k) = get_32 ([1, 2, 3, 4] ! k)" by simp
  from ball_iequal4_writes_boolean_lane0[OF v(1) v(2) v(2), of 4] obtain d where d:
    "evaluate_ball_iequal4 [7, 8, 9, 10] 4 32 [[1, 2, 3, 4], [1, 2, 3, 4]] = Inr d"
    "get_8 (d ! 0) = (if \<forall>k<4. get_32 ([1, 2, 3, 4] ! k) = get_32 ([1, 2, 3, 4] ! k) then 1 else 0)"
    "\<forall>j. 0 < j \<longrightarrow> d ! j = [7, 8, 9, 10] ! j" by blast
  have "get_8 (d ! 0) = 1" using d(2) a by simp
  moreover have "d ! 1 = 8" "d ! 2 = 9" "d ! 3 = 10" using d(3) by simp_all
  ultimately show ?thesis using d(1) v by blast
qed

text \<open>
  The claim as stated fails: on equal sources and a zeroed destination the lane holds 1,
  and no bits beyond bit 0 are set.
\<close>

theorem ball_iequal4_all_ones_counterexample:
  "evaluate_ball_iequal4 [0, 0, 0, 0] 4 32 [[1, 2, 3, 4], [1, 2, 3, 4]] = Inr [1, 0, 0, 0] \<and>
   get_32 ([1, 0, 0, 0] ! 0) = 1 \<and> get_32 ([1, 0, 0, 0] ! 0) \<noteq> - 1"
proof (intro conjI)
  show "evaluate_ball_iequal4 [0, 0, 0, 0] 4 32 [[1, 2, 3, 4], [1, 2, 3, 4]] = Inr [1, 0, 0, 0]"
    by code_simp
qed (simp_all add: get_32_def)

section \<open>Integer division and remainder are exact\<close>

lemma sdiv_int_in_range:
  fixes a b :: int
  assumes "- M \<le> a" "a < M" "\<not> (a = - M \<and> b = - 1)"
  shows "- M \<le> a sdiv b" "a sdiv b < M"
proof -
  have r: "- \<bar>a\<bar> \<le> a sdiv b" "a sdiv b \<le> \<bar>a\<bar>" using sdiv_int_range[of a b] by simp_all
  show "- M \<le> a sdiv b" using r(1) assms(1,2) by linarith
  show "a sdiv b < M"
  proof (rule ccontr)
    assume "\<not> a sdiv b < M"
    then have q: "a sdiv b = M" and a: "a = - M" using r(2) assms(1,2) by linarith+
    have Mp: "0 < M" using assms(1,2) by linarith
    have e: "sgn (- M) * sgn b * (\<bar>- M\<bar> div \<bar>b\<bar>) = M"
      using q unfolding a signed_divide_int_def .
    have sM: "sgn (- M) = - 1" using Mp by simp
    have d: "- (sgn b * (M div \<bar>b\<bar>)) = M" using e Mp unfolding sM by simp
    have b0: "b \<noteq> 0" using d Mp by auto
    have "b < 0"
    proof (rule ccontr)
      assume "\<not> b < 0"
      then have "sgn b = 1" using b0 by simp
      then have "- (M div \<bar>b\<bar>) = M" using d by simp
      moreover have "0 \<le> M div \<bar>b\<bar>" using Mp b0 by (simp add: pos_imp_zdiv_nonneg_iff)
      ultimately show False using Mp by linarith
    qed
    then have "M div \<bar>b\<bar> = M" using d by simp
    then have "\<not> 1 < \<bar>b\<bar>" using int_div_less_self[of M "\<bar>b\<bar>"] Mp by auto
    then have "\<bar>b\<bar> = 1" using b0 by linarith
    then have "b = - 1" using \<open>b < 0\<close> by simp
    then show False using a assms(3) by simp
  qed
qed

lemma smod_int_in_range:
  fixes a b :: int
  assumes "- M \<le> b" "b < M" "b \<noteq> 0"
  shows "- M < a smod b" "a smod b < M"
  using smod_int_range[OF assms(3), of a] assms(1,2) by auto

lemma imod_fixup:
  fixes a b :: int
  assumes "b \<noteq> 0"
  shows "(if a smod b = 0 \<or> ((0 \<le> a) = (0 \<le> b)) then a smod b else a smod b + b) = a mod b"
proof -
  have "(a smod b = 0) = (\<bar>a\<bar> mod \<bar>b\<bar> = 0)"
    by (cases "a = 0") (simp_all add: signed_modulo_int_def sgn_if)
  also have "\<dots> = (\<bar>b\<bar> dvd \<bar>a\<bar>)" by (simp only: mod_eq_0_iff_dvd)
  also have "\<dots> = (b dvd a)" by simp
  finally have dv: "(a smod b = 0) = (b dvd a)" .
  show ?thesis
  proof (cases "b dvd a")
    case True
    then show ?thesis using dv by (simp add: modulo_int_eq_signed_modulo_int)
  next
    case False
    then have a0: "a \<noteq> 0" by auto
    have "(sgn a \<noteq> sgn b) = ((0 \<le> a) \<noteq> (0 \<le> b))" using a0 assms by (auto simp add: sgn_if)
    then show ?thesis using False dv by (simp add: modulo_int_eq_signed_modulo_int)
  qed
qed

lemma sdiv_nonneg: "0 \<le> a \<Longrightarrow> 0 \<le> b \<Longrightarrow> a sdiv b = a div b" for a b :: int
  by (simp add: signed_divide_int_def sgn_if)

lemma smod_nonneg: "0 \<le> a \<Longrightarrow> 0 \<le> b \<Longrightarrow> a smod b = a mod b" for a b :: int
  by (simp add: signed_modulo_int_def sgn_if)

lemma sint_word_of_int_in_range:
  assumes "- (2 ^ (LENGTH('a) - 1)) \<le> k" "k < 2 ^ (LENGTH('a) - 1)"
  shows "sint (word_of_int k :: 'a::len word) = k"
  unfolding sint_sbintrunc' using assms by (intro signed_take_bit_int_eq_self)

lemma ucast_int_narrow_wi:
  assumes "LENGTH('a::len) \<le> 32"
  shows "(ucast (word_of_int k :: int_t) :: 'a word) = word_of_int k"
  by (rule ucast_down_wi) (simp add: is_down assms)

lemma sint_eq_m1_iff: "(sint w = - 1) = (w = - 1)"
proof
  assume a: "sint w = - 1"
  have "w = word_of_int (sint w)" by simp
  then show "w = - 1" unfolding a by simp
qed simp

lemma c_sdiv_Some:
  fixes x y :: "'a::len word"
  assumes "y \<noteq> 0" "\<not> (sint x = - (2 ^ (LENGTH('a) - 1)) \<and> sint y = - 1)"
  shows "c_sdiv x y = Some (word_of_int (sint x sdiv sint y))"
    and "sint (word_of_int (sint x sdiv sint y) :: 'a word) = sint x sdiv sint y"
proof -
  show "c_sdiv x y = Some (word_of_int (sint x sdiv sint y))"
    using assms by (auto simp add: c_sdiv_def sint_eq_m1_iff)
  show "sint (word_of_int (sint x sdiv sint y) :: 'a word) = sint x sdiv sint y"
    using sdiv_int_in_range[of "2 ^ (LENGTH('a) - 1)" "sint x" "sint y"] assms(2) sint_ge[of x] sint_lt[of x]
    by (intro sint_word_of_int_in_range) simp_all
qed

lemma c_srem_Some:
  fixes x y :: "'a::len word"
  assumes "y \<noteq> 0" "\<not> (sint x = - (2 ^ (LENGTH('a) - 1)) \<and> sint y = - 1)"
  shows "c_srem x y = Some (word_of_int (sint x smod sint y))"
    and "sint (word_of_int (sint x smod sint y) :: 'a word) = sint x smod sint y"
proof -
  show "c_srem x y = Some (word_of_int (sint x smod sint y))"
    using assms by (auto simp add: c_srem_def sint_eq_m1_iff)
  have "sint y \<noteq> 0" using assms(1) by (simp add: sint_eq_0_iff)
  then show "sint (word_of_int (sint x smod sint y) :: 'a word) = sint x smod sint y"
    using smod_int_in_range[of "2 ^ (LENGTH('a) - 1)" "sint y" "sint x"] sint_ge[of y] sint_lt[of y]
    by (intro sint_word_of_int_in_range) simp_all
qed

lemma idiv_native:
  fixes a b :: "'a::len word"
  assumes "\<not> (sint a = - (2 ^ (LENGTH('a) - 1)) \<and> sint b = - 1)"
  shows "\<exists>r. (if b = 0 then Some 0 else c_sdiv a b) = Some r \<and>
           sint r = (if sint b = 0 then 0 else sint a sdiv sint b)"
  using c_sdiv_Some[of b a] assms by (simp add: sint_eq_0_iff)

lemma irem_native:
  fixes a b :: "'a::len word"
  assumes "\<not> (sint a = - (2 ^ (LENGTH('a) - 1)) \<and> sint b = - 1)"
  shows "\<exists>r. (if b = 0 then Some 0 else c_srem a b) = Some r \<and>
           sint r = (if sint b = 0 then 0 else sint a smod sint b)"
  using c_srem_Some[of b a] assms by (simp add: sint_eq_0_iff)

lemma imod_native:
  fixes a b :: "'a::len word"
  assumes "\<not> (sint a = - (2 ^ (LENGTH('a) - 1)) \<and> sint b = - 1)"
  shows "\<exists>r. imod_expr a b = Some r \<and> sint r = (if sint b = 0 then 0 else sint a mod sint b)"
proof (cases "b = 0")
  case True
  then show ?thesis by (simp add: imod_expr_def)
next
  case False
  then have b0: "sint b \<noteq> 0" by (simp add: sint_eq_0_iff)
  let ?r = "word_of_int (sint a smod sint b) :: 'a word"
  note c = c_srem_Some[OF False assms]
  have z: "(?r = 0) = (sint a smod sint b = 0)" using c(2) sint_eq_0_iff[of ?r] by simp
  have sg: "(0 \<le>s a) = (0 \<le> sint a)" "(0 \<le>s b) = (0 \<le> sint b)" by (simp_all add: word_sle_eq)
  have e: "imod_expr a b = Some (if sint a smod sint b = 0 \<or> ((0 \<le> sint a) = (0 \<le> sint b)) then ?r else ?r + b)"
    using False c(1) z sg by (simp add: imod_expr_def)
  have m: "- (2 ^ (LENGTH('a) - 1)) \<le> sint a mod sint b" "sint a mod sint b < 2 ^ (LENGTH('a) - 1)"
  proof -
    have "0 < sint b \<Longrightarrow> 0 \<le> sint a mod sint b \<and> sint a mod sint b < sint b" by simp
    moreover have "sint b < 0 \<Longrightarrow> sint b < sint a mod sint b \<and> sint a mod sint b \<le> 0" by simp
    ultimately show "- (2 ^ (LENGTH('a) - 1)) \<le> sint a mod sint b" "sint a mod sint b < 2 ^ (LENGTH('a) - 1)"
      using b0 sint_ge[of b] sint_lt[of b] by linarith+
  qed
  have "?r + b = word_of_int (sint a smod sint b + sint b)" by simp
  then have "(if sint a smod sint b = 0 \<or> ((0 \<le> sint a) = (0 \<le> sint b)) then ?r else ?r + b)
      = word_of_int (if sint a smod sint b = 0 \<or> ((0 \<le> sint a) = (0 \<le> sint b))
          then sint a smod sint b else sint a smod sint b + sint b)" by simp
  also have "\<dots> = word_of_int (sint a mod sint b)" using imod_fixup[OF b0, of "sint a"] by simp
  finally have "imod_expr a b = Some (word_of_int (sint a mod sint b))" using e by simp
  moreover have "sint (word_of_int (sint a mod sint b) :: 'a word) = sint a mod sint b"
    using m by (rule sint_word_of_int_in_range)
  ultimately show ?thesis using b0 by simp
qed

lemma udiv_native:
  fixes a b :: "'a::len word"
  shows "\<exists>r. (if b = 0 then Some 0 else c_udiv a b) = Some r \<and>
           unat r = (if unat b = 0 then 0 else unat a div unat b)"
  by (simp add: c_udiv_def unat_div unat_eq_0)

lemma umod_native:
  fixes a b :: "'a::len word"
  shows "\<exists>r. (if b = 0 then Some 0 else c_urem a b) = Some r \<and>
           unat r = (if unat b = 0 then 0 else unat a mod unat b)"
  by (simp add: c_urem_def unat_mod unat_eq_0)

lemma sint_scast_int:
  fixes a :: "'a::len word"
  assumes "LENGTH('a) < 32"
  shows "sint (scast a :: int_t) = sint a"
  by (rule sint_up_scast) (use assms in \<open>simp add: is_up\<close>)

lemma sint_ucast_int:
  fixes a :: "'a::len word"
  assumes "LENGTH('a) < 32"
  shows "sint (ucast a :: int_t) = uint a"
proof -
  have "uint a < 2 ^ LENGTH('a)" by (rule uint_lt2p)
  also have "(2::int) ^ LENGTH('a) \<le> 2 ^ 31" using assms by (intro power_increasing) simp_all
  finally have u: "uint a < 2 ^ (LENGTH(32) - 1)" by simp
  have l: "- (2 ^ (LENGTH(32) - 1)) \<le> uint a"
    by (rule order_trans[of _ 0]) simp_all
  show ?thesis
    unfolding ucast_eq using l u by (rule sint_word_of_int_in_range[where ?'a = 32])
qed

lemma narrow_not_int_min:
  fixes a :: "'a::len word"
  assumes "LENGTH('a) < 32"
  shows "- (2 ^ 31) < sint a" "- (2 ^ 31) < uint a"
proof -
  have "(2::int) ^ (LENGTH('a) - 1) < 2 ^ 31" using assms by (intro power_strict_increasing) simp_all
  then show "- (2 ^ 31) < sint a" using sint_ge[of a] by linarith
  show "- (2 ^ 31) < uint a" by (rule less_le_trans[of _ 0]) simp_all
qed

lemma idiv_promoted:
  fixes a b :: "'a::len word"
  assumes L: "LENGTH('a) < 32" and no: "\<not> (sint a = - (2 ^ (LENGTH('a) - 1)) \<and> sint b = - 1)"
  shows "\<exists>r :: 'a word. (if (scast b :: int_t) = 0 then Some 0
               else map_option ucast (c_sdiv (scast a :: int_t) (scast b))) = Some r \<and>
           sint r = (if sint b = 0 then 0 else sint a sdiv sint b)"
proof (cases "sint b = 0")
  case True
  then have "(scast b :: int_t) = 0" using sint_scast_int[OF L, of b] sint_eq_0_iff[of "scast b :: int_t"] by simp
  then show ?thesis using True by simp
next
  case False
  then have nz: "(scast b :: int_t) \<noteq> 0" using sint_scast_int[OF L, of b] sint_eq_0_iff[of "scast b :: int_t"] by simp
  have "\<not> (sint (scast a :: int_t) = - (2 ^ (LENGTH(32) - 1)) \<and> sint (scast b :: int_t) = - 1)"
    using narrow_not_int_min(1)[OF L, of a] sint_scast_int[OF L, of a] by simp
  from c_sdiv_Some(1)[OF nz this]
  have c: "c_sdiv (scast a :: int_t) (scast b) = Some (word_of_int (sint a sdiv sint b))"
    by (simp only: sint_scast_int[OF L])
  have "sint (word_of_int (sint a sdiv sint b) :: 'a word) = sint a sdiv sint b"
    using sdiv_int_in_range[of "2 ^ (LENGTH('a) - 1)" "sint a" "sint b"] no sint_ge[of a] sint_lt[of a]
    by (intro sint_word_of_int_in_range) simp_all
  then show ?thesis using nz c False L by (simp add: ucast_int_narrow_wi)
qed

lemma irem_promoted:
  fixes a b :: "'a::len word"
  assumes L: "LENGTH('a) < 32"
  shows "\<exists>r :: 'a word. (if (scast b :: int_t) = 0 then Some 0
               else map_option ucast (c_srem (scast a :: int_t) (scast b))) = Some r \<and>
           sint r = (if sint b = 0 then 0 else sint a smod sint b)"
proof (cases "sint b = 0")
  case True
  then have "(scast b :: int_t) = 0" using sint_scast_int[OF L, of b] sint_eq_0_iff[of "scast b :: int_t"] by simp
  then show ?thesis using True by simp
next
  case False
  then have nz: "(scast b :: int_t) \<noteq> 0" using sint_scast_int[OF L, of b] sint_eq_0_iff[of "scast b :: int_t"] by simp
  have "\<not> (sint (scast a :: int_t) = - (2 ^ (LENGTH(32) - 1)) \<and> sint (scast b :: int_t) = - 1)"
    using narrow_not_int_min(1)[OF L, of a] sint_scast_int[OF L, of a] by simp
  from c_srem_Some(1)[OF nz this]
  have c: "c_srem (scast a :: int_t) (scast b) = Some (word_of_int (sint a smod sint b))"
    by (simp only: sint_scast_int[OF L])
  have "sint (word_of_int (sint a smod sint b) :: 'a word) = sint a smod sint b"
    using smod_int_in_range[of "2 ^ (LENGTH('a) - 1)" "sint b" "sint a"] False sint_ge[of b] sint_lt[of b]
    by (intro sint_word_of_int_in_range) simp_all
  then show ?thesis using nz c False L by (simp add: ucast_int_narrow_wi)
qed

lemma imod_promoted:
  fixes a b :: "'a::len word"
  assumes L: "LENGTH('a) < 32"
  shows "\<exists>r :: 'a word. map_option ucast (imod_expr (scast a :: int_t) (scast b)) = Some r \<and>
           sint r = (if sint b = 0 then 0 else sint a mod sint b)"
proof -
  have "\<not> (sint (scast a :: int_t) = - (2 ^ (LENGTH(32) - 1)) \<and> sint (scast b :: int_t) = - 1)"
    using narrow_not_int_min(1)[OF L, of a] sint_scast_int[OF L, of a] by simp
  from imod_native[OF this] obtain r32 :: int_t where r32:
    "imod_expr (scast a :: int_t) (scast b) = Some r32"
    "sint r32 = (if sint b = 0 then 0 else sint a mod sint b)"
    by (auto simp add: sint_scast_int[OF L])
  let ?k = "if sint b = 0 then 0 else sint a mod sint b"
  have rng': "- (2 ^ (LENGTH('a) - 1)) \<le> ?k \<and> ?k < 2 ^ (LENGTH('a) - 1)"
  proof (cases "sint b = 0")
    case True
    then show ?thesis by simp
  next
    case False
    have "0 < sint b \<Longrightarrow> 0 \<le> sint a mod sint b \<and> sint a mod sint b < sint b" by simp
    moreover have "sint b < 0 \<Longrightarrow> sint b < sint a mod sint b \<and> sint a mod sint b \<le> 0" by simp
    ultimately have "- (2 ^ (LENGTH('a) - 1)) \<le> sint a mod sint b" "sint a mod sint b < 2 ^ (LENGTH('a) - 1)"
      using False sint_ge[of b] sint_lt[of b] by linarith+
    then show ?thesis using False by simp
  qed
  then have rng: "- (2 ^ (LENGTH('a) - 1)) \<le> ?k" "?k < 2 ^ (LENGTH('a) - 1)" by blast+
  have "(ucast r32 :: 'a word) = ucast (word_of_int (sint r32) :: int_t)" by simp
  also have "\<dots> = word_of_int (sint r32)" by (rule ucast_int_narrow_wi) (use L in simp)
  finally have "(ucast r32 :: 'a word) = word_of_int ?k" unfolding r32(2) .
  moreover have "sint (word_of_int ?k :: 'a word) = ?k" using rng by (rule sint_word_of_int_in_range)
  ultimately show ?thesis using r32(1) by simp
qed

lemma udiv_promoted:
  fixes a b :: "'a::len word"
  assumes L: "LENGTH('a) < 32"
  shows "\<exists>r :: 'a word. (if (ucast b :: int_t) = 0 then Some 0
               else map_option ucast (c_sdiv (ucast a :: int_t) (ucast b))) = Some r \<and>
           unat r = (if unat b = 0 then 0 else unat a div unat b)"
proof (cases "b = 0")
  case True
  then show ?thesis by simp
next
  case False
  then have ub: "uint b \<noteq> 0" by (simp add: uint_0_iff)
  then have nz: "(ucast b :: int_t) \<noteq> 0"
    using sint_ucast_int[OF L, of b] sint_eq_0_iff[of "ucast b :: int_t"] by simp
  have "\<not> (sint (ucast a :: int_t) = - (2 ^ (LENGTH(32) - 1)) \<and> sint (ucast b :: int_t) = - 1)"
    using narrow_not_int_min(2)[OF L, of a] sint_ucast_int[OF L, of a] by simp
  from c_sdiv_Some(1)[OF nz this]
  have c: "c_sdiv (ucast a :: int_t) (ucast b) = Some (word_of_int (uint a div uint b))"
    by (simp add: sint_ucast_int[OF L] sdiv_nonneg)
  have "(word_of_int (uint a div uint b) :: 'a word) = a div b" by (simp add: word_div_def)
  then show ?thesis using nz c False L by (simp add: ucast_int_narrow_wi unat_div unat_eq_0)
qed

lemma umod_promoted:
  fixes a b :: "'a::len word"
  assumes L: "LENGTH('a) < 32"
  shows "\<exists>r :: 'a word. (if (ucast b :: int_t) = 0 then Some 0
               else map_option ucast (c_srem (ucast a :: int_t) (ucast b))) = Some r \<and>
           unat r = (if unat b = 0 then 0 else unat a mod unat b)"
proof (cases "b = 0")
  case True
  then show ?thesis by simp
next
  case False
  then have ub: "uint b \<noteq> 0" by (simp add: uint_0_iff)
  then have nz: "(ucast b :: int_t) \<noteq> 0"
    using sint_ucast_int[OF L, of b] sint_eq_0_iff[of "ucast b :: int_t"] by simp
  have "\<not> (sint (ucast a :: int_t) = - (2 ^ (LENGTH(32) - 1)) \<and> sint (ucast b :: int_t) = - 1)"
    using narrow_not_int_min(2)[OF L, of a] sint_ucast_int[OF L, of a] by simp
  from c_srem_Some(1)[OF nz this]
  have c: "c_srem (ucast a :: int_t) (ucast b) = Some (word_of_int (uint a mod uint b))"
    by (simp add: sint_ucast_int[OF L] smod_nonneg)
  have "(word_of_int (uint a mod uint b) :: 'a word) = a mod b" by (simp add: word_mod_def)
  then show ?thesis using nz c False L by (simp add: ucast_int_narrow_wi unat_mod unat_eq_0)
qed

lemma per_component2_spec:
  assumes "n \<le> length d"
    and "\<forall>j<n. \<exists>r. expr (rd (s0 ! j)) (rd (s1 ! j)) = Some r \<and> val (wr (d ! j) r) = f j"
  shows "\<exists>d'. per_component2 rd wr expr d n [s0, s1] = Inr d' \<and> (\<forall>j<n. val (d' ! j) = f j)"
proof -
  from assms(2) have "\<forall>j. \<exists>r. j < n \<longrightarrow> expr (rd (s0 ! j)) (rd (s1 ! j)) = Some r \<and> val (wr (d ! j) r) = f j"
    by blast
  from choice[OF this]
  obtain g where g: "\<forall>j. j < n \<longrightarrow> expr (rd (s0 ! j)) (rd (s1 ! j)) = Some (g j) \<and> val (wr (d ! j) (g j)) = f j" ..
  then have "\<forall>j<n. expr (rd ([s0, s1] ! 0 ! j)) (rd ([s0, s1] ! 1 ! j)) = Some (g j)" by simp
  with assms(1) per_component2_Some_all[where expr = expr and rd = rd and wr = wr
      and src = "[s0, s1]" and g = g and n = n and d = d]
  obtain d' where
    "per_component2 rd wr expr d n [s0, s1] = Inr d'" "\<forall>j<n. d' ! j = wr (d ! j) (g j)" by blast
  then show ?thesis using g by auto
qed

lemma int1_lane_of_result:
  assumes "sint (r :: 8 word) = 0 \<or> sint r = - 1"
  shows "int1_value (set_int1 d r) = sint r"
proof -
  have "r = 0 \<or> r = - 1" using assms by (simp add: sint_eq_0_iff sint_eq_m1_iff)
  then show ?thesis by (auto simp add: int1_value_def get_b_set_int1)
qed

lemma sint_get_int1: "sint (get_int1 v) = int1_value v"
  by (simp add: get_int1_eq int1_value_def)

lemma unat_get_uint1: "unat (get_uint1 v) = uint1_value v"
  by (simp add: get_uint1_def uint1_value_def)

lemma uint1_lane_of_result:
  assumes "unat (r :: 8 word) \<le> 1"
  shows "uint1_value (set_uint1 d r) = unat r"
proof -
  have u: "unat r = 0 \<or> unat r = 1" using assms by linarith
  have e: "of_nat (unat r) = r" by simp
  have "r = 0 \<or> r = 1"
  proof (rule disjE[OF u])
    assume "unat r = 0" then show ?thesis using e by simp
  next
    assume "unat r = 1" then have "of_nat 1 = r" using e by (simp only:)
    then show ?thesis by simp
  qed
  then show ?thesis by (auto simp add: get_b_set_uint1 uint1_value_def)
qed

lemma idiv_8_lane:
  assumes "\<not> (sint a = - 128 \<and> sint b = - 1)"
  shows "\<exists>r. idiv_8 a b = Some r \<and> sint r = (if sint b = 0 then 0 else sint a sdiv sint b)"
  unfolding idiv_8_def using idiv_promoted[where a = a and b = b] assms by simp

lemma idiv_16_lane:
  assumes "\<not> (sint a = - 32768 \<and> sint b = - 1)"
  shows "\<exists>r. idiv_16 a b = Some r \<and> sint r = (if sint b = 0 then 0 else sint a sdiv sint b)"
  unfolding idiv_16_def using idiv_promoted[where a = a and b = b] assms by simp

lemma idiv_32_lane:
  assumes "\<not> (sint a = - 2147483648 \<and> sint b = - 1)"
  shows "\<exists>r. idiv_32 a b = Some r \<and> sint r = (if sint b = 0 then 0 else sint a sdiv sint b)"
  unfolding idiv_32_def using idiv_native[where a = a and b = b] assms by simp

lemma idiv_64_lane:
  assumes "\<not> (sint a = - 9223372036854775808 \<and> sint b = - 1)"
  shows "\<exists>r. idiv_64 a b = Some r \<and> sint r = (if sint b = 0 then 0 else sint a sdiv sint b)"
  unfolding idiv_64_def using idiv_native[where a = a and b = b] assms by simp

lemma idiv_1_lane:
  assumes "\<not> (int1_value a = - 1 \<and> int1_value b = - 1)"
  shows "\<exists>r. idiv_8 (get_int1 a) (get_int1 b) = Some r \<and>
           int1_value (set_int1 d r) = (if int1_value b = 0 then 0 else int1_value a sdiv int1_value b)"
proof -
  have "\<not> (sint (get_int1 a) = - 128 \<and> sint (get_int1 b) = - 1)"
    by (simp add: sint_get_int1 int1_value_def)
  from idiv_8_lane[OF this] obtain r where r: "idiv_8 (get_int1 a) (get_int1 b) = Some r"
    "sint r = (if int1_value b = 0 then 0 else int1_value a sdiv int1_value b)"
    by (auto simp add: sint_get_int1)
  have z: "(if int1_value b = 0 then 0 else int1_value a sdiv int1_value b) = 0"
    using assms by (simp add: int1_value_def split: if_splits)
  then have "int1_value (set_int1 d r) = sint r" using r(2) by (intro int1_lane_of_result) simp
  then show ?thesis using r by auto
qed

lemma imod_8_lane:
  shows "\<exists>r. imod_8 a b = Some r \<and> sint r = (if sint b = 0 then 0 else sint a mod sint b)"
  unfolding imod_8_def using imod_promoted[where a = a and b = b] by simp

lemma imod_16_lane:
  shows "\<exists>r. imod_16 a b = Some r \<and> sint r = (if sint b = 0 then 0 else sint a mod sint b)"
  unfolding imod_16_def using imod_promoted[where a = a and b = b] by simp

lemma imod_32_lane:
  assumes "\<not> (sint a = - 2147483648 \<and> sint b = - 1)"
  shows "\<exists>r. imod_32 a b = Some r \<and> sint r = (if sint b = 0 then 0 else sint a mod sint b)"
  unfolding imod_32_def using imod_native[where a = a and b = b] assms by simp

lemma imod_64_lane:
  assumes "\<not> (sint a = - 9223372036854775808 \<and> sint b = - 1)"
  shows "\<exists>r. imod_64 a b = Some r \<and> sint r = (if sint b = 0 then 0 else sint a mod sint b)"
  unfolding imod_64_def using imod_native[where a = a and b = b] assms by simp

lemma imod_1_lane:
  shows "\<exists>r. imod_8 (get_int1 a) (get_int1 b) = Some r \<and>
           int1_value (set_int1 d r) = (if int1_value b = 0 then 0 else int1_value a mod int1_value b)"
proof -
  from imod_8_lane[of "get_int1 a" "get_int1 b"] obtain r where r: "imod_8 (get_int1 a) (get_int1 b) = Some r"
    "sint r = (if int1_value b = 0 then 0 else int1_value a mod int1_value b)"
    by (auto simp add: sint_get_int1)
  have z: "(if int1_value b = 0 then 0 else int1_value a mod int1_value b) = 0"
    by (simp add: int1_value_def signed_modulo_int_def)
  then have "int1_value (set_int1 d r) = sint r" using r(2) by (intro int1_lane_of_result) simp
  then show ?thesis using r by auto
qed

lemma irem_8_lane:
  shows "\<exists>r. irem_8 a b = Some r \<and> sint r = (if sint b = 0 then 0 else sint a smod sint b)"
  unfolding irem_8_def using irem_promoted[where a = a and b = b] by simp

lemma irem_16_lane:
  shows "\<exists>r. irem_16 a b = Some r \<and> sint r = (if sint b = 0 then 0 else sint a smod sint b)"
  unfolding irem_16_def using irem_promoted[where a = a and b = b] by simp

lemma irem_32_lane:
  assumes "\<not> (sint a = - 2147483648 \<and> sint b = - 1)"
  shows "\<exists>r. irem_32 a b = Some r \<and> sint r = (if sint b = 0 then 0 else sint a smod sint b)"
  unfolding irem_32_def using irem_native[where a = a and b = b] assms by simp

lemma irem_64_lane:
  assumes "\<not> (sint a = - 9223372036854775808 \<and> sint b = - 1)"
  shows "\<exists>r. irem_64 a b = Some r \<and> sint r = (if sint b = 0 then 0 else sint a smod sint b)"
  unfolding irem_64_def using irem_native[where a = a and b = b] assms by simp

lemma irem_1_lane:
  shows "\<exists>r. irem_8 (get_int1 a) (get_int1 b) = Some r \<and>
           int1_value (set_int1 d r) = (if int1_value b = 0 then 0 else int1_value a smod int1_value b)"
proof -
  from irem_8_lane[of "get_int1 a" "get_int1 b"] obtain r where r: "irem_8 (get_int1 a) (get_int1 b) = Some r"
    "sint r = (if int1_value b = 0 then 0 else int1_value a smod int1_value b)"
    by (auto simp add: sint_get_int1)
  have z: "(if int1_value b = 0 then 0 else int1_value a smod int1_value b) = 0"
    by (simp add: int1_value_def signed_modulo_int_def)
  then have "int1_value (set_int1 d r) = sint r" using r(2) by (intro int1_lane_of_result) simp
  then show ?thesis using r by auto
qed

lemma udiv_8_lane:
  "\<exists>r. udiv_8 a b = Some r \<and> unat r = (if unat b = 0 then 0 else unat a div unat b)"
  unfolding udiv_8_def using udiv_promoted[where a = a and b = b] by simp

lemma udiv_16_lane:
  "\<exists>r. udiv_16 a b = Some r \<and> unat r = (if unat b = 0 then 0 else unat a div unat b)"
  unfolding udiv_16_def using udiv_promoted[where a = a and b = b] by simp

lemma udiv_32_lane:
  "\<exists>r. udiv_32 a b = Some r \<and> unat r = (if unat b = 0 then 0 else unat a div unat b)"
  unfolding udiv_32_def using udiv_native[where a = a and b = b] by simp

lemma udiv_64_lane:
  "\<exists>r. udiv_64 a b = Some r \<and> unat r = (if unat b = 0 then 0 else unat a div unat b)"
  unfolding udiv_64_def using udiv_native[where a = a and b = b] by simp

lemma udiv_1_lane:
  "\<exists>r. udiv_8 (get_uint1 a) (get_uint1 b) = Some r \<and>
     uint1_value (set_uint1 d r) = (if uint1_value b = 0 then 0 else uint1_value a div uint1_value b)"
proof -
  from udiv_8_lane[of "get_uint1 a" "get_uint1 b"] obtain r where r: "udiv_8 (get_uint1 a) (get_uint1 b) = Some r"
    "unat r = (if uint1_value b = 0 then 0 else uint1_value a div uint1_value b)"
    by (auto simp add: unat_get_uint1)
  then have "unat r \<le> 1" by (simp add: uint1_value_def split: if_splits)
  then have "uint1_value (set_uint1 d r) = unat r" by (rule uint1_lane_of_result)
  then show ?thesis using r by auto
qed

lemma umod_8_lane:
  "\<exists>r. umod_8 a b = Some r \<and> unat r = (if unat b = 0 then 0 else unat a mod unat b)"
  unfolding umod_8_def using umod_promoted[where a = a and b = b] by simp

lemma umod_16_lane:
  "\<exists>r. umod_16 a b = Some r \<and> unat r = (if unat b = 0 then 0 else unat a mod unat b)"
  unfolding umod_16_def using umod_promoted[where a = a and b = b] by simp

lemma umod_32_lane:
  "\<exists>r. umod_32 a b = Some r \<and> unat r = (if unat b = 0 then 0 else unat a mod unat b)"
  unfolding umod_32_def using umod_native[where a = a and b = b] by simp

lemma umod_64_lane:
  "\<exists>r. umod_64 a b = Some r \<and> unat r = (if unat b = 0 then 0 else unat a mod unat b)"
  unfolding umod_64_def using umod_native[where a = a and b = b] by simp

lemma umod_1_lane:
  "\<exists>r. umod_8 (get_uint1 a) (get_uint1 b) = Some r \<and>
     uint1_value (set_uint1 d r) = (if uint1_value b = 0 then 0 else uint1_value a mod uint1_value b)"
proof -
  from umod_8_lane[of "get_uint1 a" "get_uint1 b"] obtain r where r: "umod_8 (get_uint1 a) (get_uint1 b) = Some r"
    "unat r = (if uint1_value b = 0 then 0 else uint1_value a mod uint1_value b)"
    by (auto simp add: unat_get_uint1)
  then have "unat r \<le> 1" by (simp add: uint1_value_def split: if_splits)
  then have "uint1_value (set_uint1 d r) = unat r" by (rule uint1_lane_of_result)
  then show ?thesis using r by auto
qed

lemma signed_lane_simps:
  "signed_lane 1 v = int1_value v" "signed_lane 8 v = sint (get_8 v)" "signed_lane 16 v = sint (get_16 v)"
  "signed_lane 32 v = sint (get_32 v)" "signed_lane 64 v = sint (get_64 v)"
  "signed_lane (Suc 0) v = int1_value v"
  by (simp_all add: signed_lane_def)

lemma unsigned_lane_simps:
  "unsigned_lane 1 v = uint1_value v" "unsigned_lane 8 v = unat (get_8 v)" "unsigned_lane 16 v = unat (get_16 v)"
  "unsigned_lane 32 v = unat (get_32 v)" "unsigned_lane 64 v = unat (get_64 v)"
  "unsigned_lane (Suc 0) v = uint1_value v"
  by (simp_all add: unsigned_lane_def)

lemma overflowing_division_simps:
  "overflowing_division 1 a b = (int1_value a = - 1 \<and> int1_value b = - 1)"
  "overflowing_division 8 a b = (sint (get_8 a) = - 128 \<and> sint (get_8 b) = - 1)"
  "overflowing_division 16 a b = (sint (get_16 a) = - 32768 \<and> sint (get_16 b) = - 1)"
  "overflowing_division 32 a b = (sint (get_32 a) = - 2147483648 \<and> sint (get_32 b) = - 1)"
  "overflowing_division 64 a b = (sint (get_64 a) = - 9223372036854775808 \<and> sint (get_64 b) = - 1)"
  "overflowing_division (Suc 0) a b = (int1_value a = - 1 \<and> int1_value b = - 1)"
  by (simp_all add: overflowing_division_def signed_lane_simps)

lemma evaluate_idiv_exact:
  assumes n: "num_components \<le> length dst_val" and w: "bit_size \<in> {1, 8, 16, 32, 64}"
    and no: "\<forall>j<num_components. \<not> overflowing_division bit_size (src0 ! j) (src1 ! j)"
  shows "\<exists>d. evaluate_idiv dst_val num_components bit_size [src0, src1] = Inr d \<and>
           (\<forall>j<num_components. signed_lane bit_size (d ! j) =
              (if signed_lane bit_size (src1 ! j) = 0 then 0
               else signed_lane bit_size (src0 ! j) sdiv signed_lane bit_size (src1 ! j)))"
proof -
  let ?f = "\<lambda>W j. if signed_lane W (src1 ! j) = 0 then 0
               else signed_lane W (src0 ! j) sdiv signed_lane W (src1 ! j)"
  consider "bit_size = 1" | "bit_size = 8" | "bit_size = 16" | "bit_size = 32" | "bit_size = 64"
    using w by auto
  then show ?thesis
  proof cases
    case 1
    have h: "\<forall>j<num_components. \<exists>r. idiv_8 (get_int1 (src0 ! j)) (get_int1 (src1 ! j)) = Some r \<and>
        signed_lane 1 (set_int1 (dst_val ! j) r) = ?f 1 j"
    proof (intro allI impI)
      fix j assume j: "j < num_components"
      have "\<not> (int1_value (src0 ! j) = - 1 \<and> int1_value (src1 ! j) = - 1)"
        using no j unfolding 1 by (simp add: overflowing_division_simps)
      from idiv_1_lane[OF this, of "dst_val ! j"]
      show "\<exists>r. idiv_8 (get_int1 (src0 ! j)) (get_int1 (src1 ! j)) = Some r \<and>
        signed_lane 1 (set_int1 (dst_val ! j) r) = ?f 1 j"
        by (simp only: signed_lane_simps)
    qed
    show ?thesis unfolding 1
      using per_component2_spec[where val = "signed_lane 1" and f = "?f 1" and expr = idiv_8
          and rd = get_int1 and wr = set_int1, OF n h]
      by (simp add: evaluate_idiv_def)
  next
    case 2
    have h: "\<forall>j<num_components. \<exists>r. idiv_8 (get_8 (src0 ! j)) (get_8 (src1 ! j)) = Some r \<and>
        signed_lane 8 (set_8 (dst_val ! j) r) = ?f 8 j"
    proof (intro allI impI)
      fix j assume j: "j < num_components"
      have "\<not> (sint (get_8 (src0 ! j)) = - 128 \<and> sint (get_8 (src1 ! j)) = - 1)"
        using no j unfolding 2 by (simp add: overflowing_division_simps)
      from idiv_8_lane[OF this]
      show "\<exists>r. idiv_8 (get_8 (src0 ! j)) (get_8 (src1 ! j)) = Some r \<and>
        signed_lane 8 (set_8 (dst_val ! j) r) = ?f 8 j"
        by (simp only: signed_lane_simps get_set_8)
    qed
    show ?thesis unfolding 2
      using per_component2_spec[where val = "signed_lane 8" and f = "?f 8" and expr = idiv_8
          and rd = get_8 and wr = set_8, OF n h]
      by (simp add: evaluate_idiv_def)
  next
    case 3
    have h: "\<forall>j<num_components. \<exists>r. idiv_16 (get_16 (src0 ! j)) (get_16 (src1 ! j)) = Some r \<and>
        signed_lane 16 (set_16 (dst_val ! j) r) = ?f 16 j"
    proof (intro allI impI)
      fix j assume j: "j < num_components"
      have "\<not> (sint (get_16 (src0 ! j)) = - 32768 \<and> sint (get_16 (src1 ! j)) = - 1)"
        using no j unfolding 3 by (simp add: overflowing_division_simps)
      from idiv_16_lane[OF this]
      show "\<exists>r. idiv_16 (get_16 (src0 ! j)) (get_16 (src1 ! j)) = Some r \<and>
        signed_lane 16 (set_16 (dst_val ! j) r) = ?f 16 j"
        by (simp only: signed_lane_simps get_set_16)
    qed
    show ?thesis unfolding 3
      using per_component2_spec[where val = "signed_lane 16" and f = "?f 16" and expr = idiv_16
          and rd = get_16 and wr = set_16, OF n h]
      by (simp add: evaluate_idiv_def)
  next
    case 4
    have h: "\<forall>j<num_components. \<exists>r. idiv_32 (get_32 (src0 ! j)) (get_32 (src1 ! j)) = Some r \<and>
        signed_lane 32 (set_32 (dst_val ! j) r) = ?f 32 j"
    proof (intro allI impI)
      fix j assume j: "j < num_components"
      have "\<not> (sint (get_32 (src0 ! j)) = - 2147483648 \<and> sint (get_32 (src1 ! j)) = - 1)"
        using no j unfolding 4 by (simp add: overflowing_division_simps)
      from idiv_32_lane[OF this]
      show "\<exists>r. idiv_32 (get_32 (src0 ! j)) (get_32 (src1 ! j)) = Some r \<and>
        signed_lane 32 (set_32 (dst_val ! j) r) = ?f 32 j"
        by (simp only: signed_lane_simps get_set_32)
    qed
    show ?thesis unfolding 4
      using per_component2_spec[where val = "signed_lane 32" and f = "?f 32" and expr = idiv_32
          and rd = get_32 and wr = set_32, OF n h]
      by (simp add: evaluate_idiv_def)
  next
    case 5
    have h: "\<forall>j<num_components. \<exists>r. idiv_64 (get_64 (src0 ! j)) (get_64 (src1 ! j)) = Some r \<and>
        signed_lane 64 (set_64 (dst_val ! j) r) = ?f 64 j"
    proof (intro allI impI)
      fix j assume j: "j < num_components"
      have "\<not> (sint (get_64 (src0 ! j)) = - 9223372036854775808 \<and> sint (get_64 (src1 ! j)) = - 1)"
        using no j unfolding 5 by (simp add: overflowing_division_simps)
      from idiv_64_lane[OF this]
      show "\<exists>r. idiv_64 (get_64 (src0 ! j)) (get_64 (src1 ! j)) = Some r \<and>
        signed_lane 64 (set_64 (dst_val ! j) r) = ?f 64 j"
        by (simp only: signed_lane_simps get_set_64)
    qed
    show ?thesis unfolding 5
      using per_component2_spec[where val = "signed_lane 64" and f = "?f 64" and expr = idiv_64
          and rd = get_64 and wr = set_64, OF n h]
      by (simp add: evaluate_idiv_def)
  qed
qed

lemma evaluate_imod_exact:
  assumes n: "num_components \<le> length dst_val" and w: "bit_size \<in> {1, 8, 16, 32, 64}"
    and no: "bit_size \<in> {32, 64} \<longrightarrow> (\<forall>j<num_components. \<not> overflowing_division bit_size (src0 ! j) (src1 ! j))"
  shows "\<exists>d. evaluate_imod dst_val num_components bit_size [src0, src1] = Inr d \<and>
           (\<forall>j<num_components. signed_lane bit_size (d ! j) =
              (if signed_lane bit_size (src1 ! j) = 0 then 0
               else signed_lane bit_size (src0 ! j) mod signed_lane bit_size (src1 ! j)))"
proof -
  let ?f = "\<lambda>W j. if signed_lane W (src1 ! j) = 0 then 0
               else signed_lane W (src0 ! j) mod signed_lane W (src1 ! j)"
  consider "bit_size = 1" | "bit_size = 8" | "bit_size = 16" | "bit_size = 32" | "bit_size = 64"
    using w by auto
  then show ?thesis
  proof cases
    case 1
    have h: "\<forall>j<num_components. \<exists>r. imod_8 (get_int1 (src0 ! j)) (get_int1 (src1 ! j)) = Some r \<and>
        signed_lane 1 (set_int1 (dst_val ! j) r) = ?f 1 j"
    proof (intro allI impI)
      fix j assume j: "j < num_components"
      from imod_1_lane[of "src0 ! j" "src1 ! j" "dst_val ! j"]
      show "\<exists>r. imod_8 (get_int1 (src0 ! j)) (get_int1 (src1 ! j)) = Some r \<and>
        signed_lane 1 (set_int1 (dst_val ! j) r) = ?f 1 j"
        by (simp only: signed_lane_simps)
    qed
    show ?thesis unfolding 1
      using per_component2_spec[where val = "signed_lane 1" and f = "?f 1" and expr = imod_8
          and rd = get_int1 and wr = set_int1, OF n h]
      by (simp add: evaluate_imod_def)
  next
    case 2
    have h: "\<forall>j<num_components. \<exists>r. imod_8 (get_8 (src0 ! j)) (get_8 (src1 ! j)) = Some r \<and>
        signed_lane 8 (set_8 (dst_val ! j) r) = ?f 8 j"
    proof (intro allI impI)
      fix j assume j: "j < num_components"
      from imod_8_lane[of "get_8 (src0 ! j)" "get_8 (src1 ! j)"]
      show "\<exists>r. imod_8 (get_8 (src0 ! j)) (get_8 (src1 ! j)) = Some r \<and>
        signed_lane 8 (set_8 (dst_val ! j) r) = ?f 8 j"
        by (simp only: signed_lane_simps get_set_8)
    qed
    show ?thesis unfolding 2
      using per_component2_spec[where val = "signed_lane 8" and f = "?f 8" and expr = imod_8
          and rd = get_8 and wr = set_8, OF n h]
      by (simp add: evaluate_imod_def)
  next
    case 3
    have h: "\<forall>j<num_components. \<exists>r. imod_16 (get_16 (src0 ! j)) (get_16 (src1 ! j)) = Some r \<and>
        signed_lane 16 (set_16 (dst_val ! j) r) = ?f 16 j"
    proof (intro allI impI)
      fix j assume j: "j < num_components"
      from imod_16_lane[of "get_16 (src0 ! j)" "get_16 (src1 ! j)"]
      show "\<exists>r. imod_16 (get_16 (src0 ! j)) (get_16 (src1 ! j)) = Some r \<and>
        signed_lane 16 (set_16 (dst_val ! j) r) = ?f 16 j"
        by (simp only: signed_lane_simps get_set_16)
    qed
    show ?thesis unfolding 3
      using per_component2_spec[where val = "signed_lane 16" and f = "?f 16" and expr = imod_16
          and rd = get_16 and wr = set_16, OF n h]
      by (simp add: evaluate_imod_def)
  next
    case 4
    have h: "\<forall>j<num_components. \<exists>r. imod_32 (get_32 (src0 ! j)) (get_32 (src1 ! j)) = Some r \<and>
        signed_lane 32 (set_32 (dst_val ! j) r) = ?f 32 j"
    proof (intro allI impI)
      fix j assume j: "j < num_components"
      have "\<not> (sint (get_32 (src0 ! j)) = - 2147483648 \<and> sint (get_32 (src1 ! j)) = - 1)"
        using no j unfolding 4 by (simp add: overflowing_division_simps)
      from imod_32_lane[OF this]
      show "\<exists>r. imod_32 (get_32 (src0 ! j)) (get_32 (src1 ! j)) = Some r \<and>
        signed_lane 32 (set_32 (dst_val ! j) r) = ?f 32 j"
        by (simp only: signed_lane_simps get_set_32)
    qed
    show ?thesis unfolding 4
      using per_component2_spec[where val = "signed_lane 32" and f = "?f 32" and expr = imod_32
          and rd = get_32 and wr = set_32, OF n h]
      by (simp add: evaluate_imod_def)
  next
    case 5
    have h: "\<forall>j<num_components. \<exists>r. imod_64 (get_64 (src0 ! j)) (get_64 (src1 ! j)) = Some r \<and>
        signed_lane 64 (set_64 (dst_val ! j) r) = ?f 64 j"
    proof (intro allI impI)
      fix j assume j: "j < num_components"
      have "\<not> (sint (get_64 (src0 ! j)) = - 9223372036854775808 \<and> sint (get_64 (src1 ! j)) = - 1)"
        using no j unfolding 5 by (simp add: overflowing_division_simps)
      from imod_64_lane[OF this]
      show "\<exists>r. imod_64 (get_64 (src0 ! j)) (get_64 (src1 ! j)) = Some r \<and>
        signed_lane 64 (set_64 (dst_val ! j) r) = ?f 64 j"
        by (simp only: signed_lane_simps get_set_64)
    qed
    show ?thesis unfolding 5
      using per_component2_spec[where val = "signed_lane 64" and f = "?f 64" and expr = imod_64
          and rd = get_64 and wr = set_64, OF n h]
      by (simp add: evaluate_imod_def)
  qed
qed

lemma evaluate_irem_exact:
  assumes n: "num_components \<le> length dst_val" and w: "bit_size \<in> {1, 8, 16, 32, 64}"
    and no: "bit_size \<in> {32, 64} \<longrightarrow> (\<forall>j<num_components. \<not> overflowing_division bit_size (src0 ! j) (src1 ! j))"
  shows "\<exists>d. evaluate_irem dst_val num_components bit_size [src0, src1] = Inr d \<and>
           (\<forall>j<num_components. signed_lane bit_size (d ! j) =
              (if signed_lane bit_size (src1 ! j) = 0 then 0
               else signed_lane bit_size (src0 ! j) smod signed_lane bit_size (src1 ! j)))"
proof -
  let ?f = "\<lambda>W j. if signed_lane W (src1 ! j) = 0 then 0
               else signed_lane W (src0 ! j) smod signed_lane W (src1 ! j)"
  consider "bit_size = 1" | "bit_size = 8" | "bit_size = 16" | "bit_size = 32" | "bit_size = 64"
    using w by auto
  then show ?thesis
  proof cases
    case 1
    have h: "\<forall>j<num_components. \<exists>r. irem_8 (get_int1 (src0 ! j)) (get_int1 (src1 ! j)) = Some r \<and>
        signed_lane 1 (set_int1 (dst_val ! j) r) = ?f 1 j"
    proof (intro allI impI)
      fix j assume j: "j < num_components"
      from irem_1_lane[of "src0 ! j" "src1 ! j" "dst_val ! j"]
      show "\<exists>r. irem_8 (get_int1 (src0 ! j)) (get_int1 (src1 ! j)) = Some r \<and>
        signed_lane 1 (set_int1 (dst_val ! j) r) = ?f 1 j"
        by (simp only: signed_lane_simps)
    qed
    show ?thesis unfolding 1
      using per_component2_spec[where val = "signed_lane 1" and f = "?f 1" and expr = irem_8
          and rd = get_int1 and wr = set_int1, OF n h]
      by (simp add: evaluate_irem_def)
  next
    case 2
    have h: "\<forall>j<num_components. \<exists>r. irem_8 (get_8 (src0 ! j)) (get_8 (src1 ! j)) = Some r \<and>
        signed_lane 8 (set_8 (dst_val ! j) r) = ?f 8 j"
    proof (intro allI impI)
      fix j assume j: "j < num_components"
      from irem_8_lane[of "get_8 (src0 ! j)" "get_8 (src1 ! j)"]
      show "\<exists>r. irem_8 (get_8 (src0 ! j)) (get_8 (src1 ! j)) = Some r \<and>
        signed_lane 8 (set_8 (dst_val ! j) r) = ?f 8 j"
        by (simp only: signed_lane_simps get_set_8)
    qed
    show ?thesis unfolding 2
      using per_component2_spec[where val = "signed_lane 8" and f = "?f 8" and expr = irem_8
          and rd = get_8 and wr = set_8, OF n h]
      by (simp add: evaluate_irem_def)
  next
    case 3
    have h: "\<forall>j<num_components. \<exists>r. irem_16 (get_16 (src0 ! j)) (get_16 (src1 ! j)) = Some r \<and>
        signed_lane 16 (set_16 (dst_val ! j) r) = ?f 16 j"
    proof (intro allI impI)
      fix j assume j: "j < num_components"
      from irem_16_lane[of "get_16 (src0 ! j)" "get_16 (src1 ! j)"]
      show "\<exists>r. irem_16 (get_16 (src0 ! j)) (get_16 (src1 ! j)) = Some r \<and>
        signed_lane 16 (set_16 (dst_val ! j) r) = ?f 16 j"
        by (simp only: signed_lane_simps get_set_16)
    qed
    show ?thesis unfolding 3
      using per_component2_spec[where val = "signed_lane 16" and f = "?f 16" and expr = irem_16
          and rd = get_16 and wr = set_16, OF n h]
      by (simp add: evaluate_irem_def)
  next
    case 4
    have h: "\<forall>j<num_components. \<exists>r. irem_32 (get_32 (src0 ! j)) (get_32 (src1 ! j)) = Some r \<and>
        signed_lane 32 (set_32 (dst_val ! j) r) = ?f 32 j"
    proof (intro allI impI)
      fix j assume j: "j < num_components"
      have "\<not> (sint (get_32 (src0 ! j)) = - 2147483648 \<and> sint (get_32 (src1 ! j)) = - 1)"
        using no j unfolding 4 by (simp add: overflowing_division_simps)
      from irem_32_lane[OF this]
      show "\<exists>r. irem_32 (get_32 (src0 ! j)) (get_32 (src1 ! j)) = Some r \<and>
        signed_lane 32 (set_32 (dst_val ! j) r) = ?f 32 j"
        by (simp only: signed_lane_simps get_set_32)
    qed
    show ?thesis unfolding 4
      using per_component2_spec[where val = "signed_lane 32" and f = "?f 32" and expr = irem_32
          and rd = get_32 and wr = set_32, OF n h]
      by (simp add: evaluate_irem_def)
  next
    case 5
    have h: "\<forall>j<num_components. \<exists>r. irem_64 (get_64 (src0 ! j)) (get_64 (src1 ! j)) = Some r \<and>
        signed_lane 64 (set_64 (dst_val ! j) r) = ?f 64 j"
    proof (intro allI impI)
      fix j assume j: "j < num_components"
      have "\<not> (sint (get_64 (src0 ! j)) = - 9223372036854775808 \<and> sint (get_64 (src1 ! j)) = - 1)"
        using no j unfolding 5 by (simp add: overflowing_division_simps)
      from irem_64_lane[OF this]
      show "\<exists>r. irem_64 (get_64 (src0 ! j)) (get_64 (src1 ! j)) = Some r \<and>
        signed_lane 64 (set_64 (dst_val ! j) r) = ?f 64 j"
        by (simp only: signed_lane_simps get_set_64)
    qed
    show ?thesis unfolding 5
      using per_component2_spec[where val = "signed_lane 64" and f = "?f 64" and expr = irem_64
          and rd = get_64 and wr = set_64, OF n h]
      by (simp add: evaluate_irem_def)
  qed
qed

lemma evaluate_udiv_exact:
  assumes n: "num_components \<le> length dst_val" and w: "bit_size \<in> {1, 8, 16, 32, 64}"
  shows "\<exists>d. evaluate_udiv dst_val num_components bit_size [src0, src1] = Inr d \<and>
           (\<forall>j<num_components. unsigned_lane bit_size (d ! j) =
              (if unsigned_lane bit_size (src1 ! j) = 0 then 0
               else unsigned_lane bit_size (src0 ! j) div unsigned_lane bit_size (src1 ! j)))"
proof -
  let ?f = "\<lambda>W j. if unsigned_lane W (src1 ! j) = 0 then 0
               else unsigned_lane W (src0 ! j) div unsigned_lane W (src1 ! j)"
  consider "bit_size = 1" | "bit_size = 8" | "bit_size = 16" | "bit_size = 32" | "bit_size = 64"
    using w by auto
  then show ?thesis
  proof cases
    case 1
    have h: "\<forall>j<num_components. \<exists>r. udiv_8 (get_uint1 (src0 ! j)) (get_uint1 (src1 ! j)) = Some r \<and>
        unsigned_lane 1 (set_uint1 (dst_val ! j) r) = ?f 1 j"
    proof (intro allI impI)
      fix j assume j: "j < num_components"
      from udiv_1_lane[of "src0 ! j" "src1 ! j" "dst_val ! j"]
      show "\<exists>r. udiv_8 (get_uint1 (src0 ! j)) (get_uint1 (src1 ! j)) = Some r \<and>
        unsigned_lane 1 (set_uint1 (dst_val ! j) r) = ?f 1 j"
        by (simp only: unsigned_lane_simps)
    qed
    show ?thesis unfolding 1
      using per_component2_spec[where val = "unsigned_lane 1" and f = "?f 1" and expr = udiv_8
          and rd = get_uint1 and wr = set_uint1, OF n h]
      by (simp add: evaluate_udiv_def)
  next
    case 2
    have h: "\<forall>j<num_components. \<exists>r. udiv_8 (get_8 (src0 ! j)) (get_8 (src1 ! j)) = Some r \<and>
        unsigned_lane 8 (set_8 (dst_val ! j) r) = ?f 8 j"
    proof (intro allI impI)
      fix j assume j: "j < num_components"
      from udiv_8_lane[of "get_8 (src0 ! j)" "get_8 (src1 ! j)"]
      show "\<exists>r. udiv_8 (get_8 (src0 ! j)) (get_8 (src1 ! j)) = Some r \<and>
        unsigned_lane 8 (set_8 (dst_val ! j) r) = ?f 8 j"
        by (simp only: unsigned_lane_simps get_set_8)
    qed
    show ?thesis unfolding 2
      using per_component2_spec[where val = "unsigned_lane 8" and f = "?f 8" and expr = udiv_8
          and rd = get_8 and wr = set_8, OF n h]
      by (simp add: evaluate_udiv_def)
  next
    case 3
    have h: "\<forall>j<num_components. \<exists>r. udiv_16 (get_16 (src0 ! j)) (get_16 (src1 ! j)) = Some r \<and>
        unsigned_lane 16 (set_16 (dst_val ! j) r) = ?f 16 j"
    proof (intro allI impI)
      fix j assume j: "j < num_components"
      from udiv_16_lane[of "get_16 (src0 ! j)" "get_16 (src1 ! j)"]
      show "\<exists>r. udiv_16 (get_16 (src0 ! j)) (get_16 (src1 ! j)) = Some r \<and>
        unsigned_lane 16 (set_16 (dst_val ! j) r) = ?f 16 j"
        by (simp only: unsigned_lane_simps get_set_16)
    qed
    show ?thesis unfolding 3
      using per_component2_spec[where val = "unsigned_lane 16" and f = "?f 16" and expr = udiv_16
          and rd = get_16 and wr = set_16, OF n h]
      by (simp add: evaluate_udiv_def)
  next
    case 4
    have h: "\<forall>j<num_components. \<exists>r. udiv_32 (get_32 (src0 ! j)) (get_32 (src1 ! j)) = Some r \<and>
        unsigned_lane 32 (set_32 (dst_val ! j) r) = ?f 32 j"
    proof (intro allI impI)
      fix j assume j: "j < num_components"
      from udiv_32_lane[of "get_32 (src0 ! j)" "get_32 (src1 ! j)"]
      show "\<exists>r. udiv_32 (get_32 (src0 ! j)) (get_32 (src1 ! j)) = Some r \<and>
        unsigned_lane 32 (set_32 (dst_val ! j) r) = ?f 32 j"
        by (simp only: unsigned_lane_simps get_set_32)
    qed
    show ?thesis unfolding 4
      using per_component2_spec[where val = "unsigned_lane 32" and f = "?f 32" and expr = udiv_32
          and rd = get_32 and wr = set_32, OF n h]
      by (simp add: evaluate_udiv_def)
  next
    case 5
    have h: "\<forall>j<num_components. \<exists>r. udiv_64 (get_64 (src0 ! j)) (get_64 (src1 ! j)) = Some r \<and>
        unsigned_lane 64 (set_64 (dst_val ! j) r) = ?f 64 j"
    proof (intro allI impI)
      fix j assume j: "j < num_components"
      from udiv_64_lane[of "get_64 (src0 ! j)" "get_64 (src1 ! j)"]
      show "\<exists>r. udiv_64 (get_64 (src0 ! j)) (get_64 (src1 ! j)) = Some r \<and>
        unsigned_lane 64 (set_64 (dst_val ! j) r) = ?f 64 j"
        by (simp only: unsigned_lane_simps get_set_64)
    qed
    show ?thesis unfolding 5
      using per_component2_spec[where val = "unsigned_lane 64" and f = "?f 64" and expr = udiv_64
          and rd = get_64 and wr = set_64, OF n h]
      by (simp add: evaluate_udiv_def)
  qed
qed

lemma evaluate_umod_exact:
  assumes n: "num_components \<le> length dst_val" and w: "bit_size \<in> {1, 8, 16, 32, 64}"
  shows "\<exists>d. evaluate_umod dst_val num_components bit_size [src0, src1] = Inr d \<and>
           (\<forall>j<num_components. unsigned_lane bit_size (d ! j) =
              (if unsigned_lane bit_size (src1 ! j) = 0 then 0
               else unsigned_lane bit_size (src0 ! j) mod unsigned_lane bit_size (src1 ! j)))"
proof -
  let ?f = "\<lambda>W j. if unsigned_lane W (src1 ! j) = 0 then 0
               else unsigned_lane W (src0 ! j) mod unsigned_lane W (src1 ! j)"
  consider "bit_size = 1" | "bit_size = 8" | "bit_size = 16" | "bit_size = 32" | "bit_size = 64"
    using w by auto
  then show ?thesis
  proof cases
    case 1
    have h: "\<forall>j<num_components. \<exists>r. umod_8 (get_uint1 (src0 ! j)) (get_uint1 (src1 ! j)) = Some r \<and>
        unsigned_lane 1 (set_uint1 (dst_val ! j) r) = ?f 1 j"
    proof (intro allI impI)
      fix j assume j: "j < num_components"
      from umod_1_lane[of "src0 ! j" "src1 ! j" "dst_val ! j"]
      show "\<exists>r. umod_8 (get_uint1 (src0 ! j)) (get_uint1 (src1 ! j)) = Some r \<and>
        unsigned_lane 1 (set_uint1 (dst_val ! j) r) = ?f 1 j"
        by (simp only: unsigned_lane_simps)
    qed
    show ?thesis unfolding 1
      using per_component2_spec[where val = "unsigned_lane 1" and f = "?f 1" and expr = umod_8
          and rd = get_uint1 and wr = set_uint1, OF n h]
      by (simp add: evaluate_umod_def)
  next
    case 2
    have h: "\<forall>j<num_components. \<exists>r. umod_8 (get_8 (src0 ! j)) (get_8 (src1 ! j)) = Some r \<and>
        unsigned_lane 8 (set_8 (dst_val ! j) r) = ?f 8 j"
    proof (intro allI impI)
      fix j assume j: "j < num_components"
      from umod_8_lane[of "get_8 (src0 ! j)" "get_8 (src1 ! j)"]
      show "\<exists>r. umod_8 (get_8 (src0 ! j)) (get_8 (src1 ! j)) = Some r \<and>
        unsigned_lane 8 (set_8 (dst_val ! j) r) = ?f 8 j"
        by (simp only: unsigned_lane_simps get_set_8)
    qed
    show ?thesis unfolding 2
      using per_component2_spec[where val = "unsigned_lane 8" and f = "?f 8" and expr = umod_8
          and rd = get_8 and wr = set_8, OF n h]
      by (simp add: evaluate_umod_def)
  next
    case 3
    have h: "\<forall>j<num_components. \<exists>r. umod_16 (get_16 (src0 ! j)) (get_16 (src1 ! j)) = Some r \<and>
        unsigned_lane 16 (set_16 (dst_val ! j) r) = ?f 16 j"
    proof (intro allI impI)
      fix j assume j: "j < num_components"
      from umod_16_lane[of "get_16 (src0 ! j)" "get_16 (src1 ! j)"]
      show "\<exists>r. umod_16 (get_16 (src0 ! j)) (get_16 (src1 ! j)) = Some r \<and>
        unsigned_lane 16 (set_16 (dst_val ! j) r) = ?f 16 j"
        by (simp only: unsigned_lane_simps get_set_16)
    qed
    show ?thesis unfolding 3
      using per_component2_spec[where val = "unsigned_lane 16" and f = "?f 16" and expr = umod_16
          and rd = get_16 and wr = set_16, OF n h]
      by (simp add: evaluate_umod_def)
  next
    case 4
    have h: "\<forall>j<num_components. \<exists>r. umod_32 (get_32 (src0 ! j)) (get_32 (src1 ! j)) = Some r \<and>
        unsigned_lane 32 (set_32 (dst_val ! j) r) = ?f 32 j"
    proof (intro allI impI)
      fix j assume j: "j < num_components"
      from umod_32_lane[of "get_32 (src0 ! j)" "get_32 (src1 ! j)"]
      show "\<exists>r. umod_32 (get_32 (src0 ! j)) (get_32 (src1 ! j)) = Some r \<and>
        unsigned_lane 32 (set_32 (dst_val ! j) r) = ?f 32 j"
        by (simp only: unsigned_lane_simps get_set_32)
    qed
    show ?thesis unfolding 4
      using per_component2_spec[where val = "unsigned_lane 32" and f = "?f 32" and expr = umod_32
          and rd = get_32 and wr = set_32, OF n h]
      by (simp add: evaluate_umod_def)
  next
    case 5
    have h: "\<forall>j<num_components. \<exists>r. umod_64 (get_64 (src0 ! j)) (get_64 (src1 ! j)) = Some r \<and>
        unsigned_lane 64 (set_64 (dst_val ! j) r) = ?f 64 j"
    proof (intro allI impI)
      fix j assume j: "j < num_components"
      from umod_64_lane[of "get_64 (src0 ! j)" "get_64 (src1 ! j)"]
      show "\<exists>r. umod_64 (get_64 (src0 ! j)) (get_64 (src1 ! j)) = Some r \<and>
        unsigned_lane 64 (set_64 (dst_val ! j) r) = ?f 64 j"
        by (simp only: unsigned_lane_simps get_set_64)
    qed
    show ?thesis unfolding 5
      using per_component2_spec[where val = "unsigned_lane 64" and f = "?f 64" and expr = umod_64
          and rd = get_64 and wr = set_64, OF n h]
      by (simp add: evaluate_umod_def)
  qed
qed

lemma per_component2_total:
  assumes "n \<le> length d" "\<And>a b. \<exists>r. expr a b = Some r"
  shows "\<exists>d'. per_component2 rd wr expr d n src = Inr d'"
proof -
  have "\<forall>j<n. expr (rd (src ! 0 ! j)) (rd (src ! 1 ! j)) =
      Some (the (expr (rd (src ! 0 ! j)) (rd (src ! 1 ! j))))"
  proof (intro allI impI)
    fix j
    from assms(2)[of "rd (src ! 0 ! j)" "rd (src ! 1 ! j)"]
    show "expr (rd (src ! 0 ! j)) (rd (src ! 1 ! j)) =
      Some (the (expr (rd (src ! 0 ! j)) (rd (src ! 1 ! j))))" by auto
  qed
  with assms(1) per_component2_Some_all[where expr = expr and rd = rd and wr = wr and src = src
      and g = "\<lambda>j. the (expr (rd (src ! 0 ! j)) (rd (src ! 1 ! j)))" and n = n and d = d]
  show ?thesis by blast
qed

lemma idiv_narrow_Some:
  "\<exists>r. idiv_8 a b = Some r" "\<exists>r. idiv_16 c e = Some r"
proof -
  have "sint (scast a :: int_t) \<noteq> - (2 ^ (LENGTH(32) - 1))"
    using narrow_not_int_min(1)[of a] sint_scast_int[of a] by simp
  then show "\<exists>r. idiv_8 a b = Some r" by (simp add: idiv_8_def c_sdiv_def)
  have "sint (scast c :: int_t) \<noteq> - (2 ^ (LENGTH(32) - 1))"
    using narrow_not_int_min(1)[of c] sint_scast_int[of c] by simp
  then show "\<exists>r. idiv_16 c e = Some r" by (simp add: idiv_16_def c_sdiv_def)
qed

lemma evaluate_idiv_narrow_returns:
  assumes "n \<le> length d" "bit_size \<in> {1, 8, 16}"
  shows "\<exists>d'. evaluate_idiv d n bit_size src = Inr d'"
  using assms(2) per_component2_total[OF assms(1), of idiv_8, OF idiv_narrow_Some(1)]
    per_component2_total[OF assms(1), of idiv_16, OF idiv_narrow_Some(2)]
  by (auto simp add: evaluate_idiv_def)

lemma imod_32_overflow_None:
  "sint a = - 2147483648 \<and> sint b = - 1 \<Longrightarrow> imod_32 a b = None"
  by (auto simp add: imod_32_def imod_expr_def c_srem_def sint_eq_m1_iff)

lemma imod_64_overflow_None:
  "sint a = - 9223372036854775808 \<and> sint b = - 1 \<Longrightarrow> imod_64 a b = None"
  by (auto simp add: imod_64_def imod_expr_def c_srem_def sint_eq_m1_iff)

lemma irem_32_overflow_None:
  "sint a = - 2147483648 \<and> sint b = - 1 \<Longrightarrow> irem_32 a b = None"
  by (auto simp add: irem_32_def c_srem_def sint_eq_m1_iff)

lemma irem_64_overflow_None:
  "sint a = - 9223372036854775808 \<and> sint b = - 1 \<Longrightarrow> irem_64 a b = None"
  by (auto simp add: irem_64_def c_srem_def sint_eq_m1_iff)

lemma evaluate_idiv_lane:
  assumes n: "num_components \<le> length dst_val" and w: "bit_size \<in> {1, 8, 16, 32, 64}"
    and r: "evaluate_idiv dst_val num_components bit_size [src0, src1] = Inr d" and j: "j < num_components"
    and no: "\<not> overflowing_division bit_size (src0 ! j) (src1 ! j)"
  shows "signed_lane bit_size (d ! j) =
           (if signed_lane bit_size (src1 ! j) = 0 then 0
            else signed_lane bit_size (src0 ! j) sdiv signed_lane bit_size (src1 ! j))"
proof -
  let ?f = "\<lambda>W. if signed_lane W (src1 ! j) = 0 then 0
               else signed_lane W (src0 ! j) sdiv signed_lane W (src1 ! j)"
  consider "bit_size = 1" | "bit_size = 8" | "bit_size = 16" | "bit_size = 32" | "bit_size = 64"
    using w by auto
  then show ?thesis
  proof cases
    case 1
    have p: "per_component2 get_int1 set_int1 idiv_8 dst_val num_components [src0, src1] = Inr d"
      using r unfolding 1 by (simp add: evaluate_idiv_def)
    have "\<not> (int1_value (src0 ! j) = - 1 \<and> int1_value (src1 ! j) = - 1)"
      using no unfolding 1 by (simp add: overflowing_division_simps)
    from idiv_1_lane[OF this, of "dst_val ! j"]
    have h: "\<exists>r. idiv_8 (get_int1 (src0 ! j)) (get_int1 (src1 ! j)) = Some r \<and>
        signed_lane 1 (set_int1 (dst_val ! j) r) = ?f 1"
      by (simp only: signed_lane_simps)
    show ?thesis unfolding 1
      by (rule per_component2_lane_val[where val = "signed_lane 1", OF p n j h])
  next
    case 2
    have p: "per_component2 get_8 set_8 idiv_8 dst_val num_components [src0, src1] = Inr d"
      using r unfolding 2 by (simp add: evaluate_idiv_def)
    have "\<not> (sint (get_8 (src0 ! j)) = - 128 \<and> sint (get_8 (src1 ! j)) = - 1)"
      using no unfolding 2 by (simp add: overflowing_division_simps)
    from idiv_8_lane[OF this]
    have h: "\<exists>r. idiv_8 (get_8 (src0 ! j)) (get_8 (src1 ! j)) = Some r \<and>
        signed_lane 8 (set_8 (dst_val ! j) r) = ?f 8"
      by (simp only: signed_lane_simps get_set_8)
    show ?thesis unfolding 2
      by (rule per_component2_lane_val[where val = "signed_lane 8", OF p n j h])
  next
    case 3
    have p: "per_component2 get_16 set_16 idiv_16 dst_val num_components [src0, src1] = Inr d"
      using r unfolding 3 by (simp add: evaluate_idiv_def)
    have "\<not> (sint (get_16 (src0 ! j)) = - 32768 \<and> sint (get_16 (src1 ! j)) = - 1)"
      using no unfolding 3 by (simp add: overflowing_division_simps)
    from idiv_16_lane[OF this]
    have h: "\<exists>r. idiv_16 (get_16 (src0 ! j)) (get_16 (src1 ! j)) = Some r \<and>
        signed_lane 16 (set_16 (dst_val ! j) r) = ?f 16"
      by (simp only: signed_lane_simps get_set_16)
    show ?thesis unfolding 3
      by (rule per_component2_lane_val[where val = "signed_lane 16", OF p n j h])
  next
    case 4
    have p: "per_component2 get_32 set_32 idiv_32 dst_val num_components [src0, src1] = Inr d"
      using r unfolding 4 by (simp add: evaluate_idiv_def)
    have "\<not> (sint (get_32 (src0 ! j)) = - 2147483648 \<and> sint (get_32 (src1 ! j)) = - 1)"
      using no unfolding 4 by (simp add: overflowing_division_simps)
    from idiv_32_lane[OF this]
    have h: "\<exists>r. idiv_32 (get_32 (src0 ! j)) (get_32 (src1 ! j)) = Some r \<and>
        signed_lane 32 (set_32 (dst_val ! j) r) = ?f 32"
      by (simp only: signed_lane_simps get_set_32)
    show ?thesis unfolding 4
      by (rule per_component2_lane_val[where val = "signed_lane 32", OF p n j h])
  next
    case 5
    have p: "per_component2 get_64 set_64 idiv_64 dst_val num_components [src0, src1] = Inr d"
      using r unfolding 5 by (simp add: evaluate_idiv_def)
    have "\<not> (sint (get_64 (src0 ! j)) = - 9223372036854775808 \<and> sint (get_64 (src1 ! j)) = - 1)"
      using no unfolding 5 by (simp add: overflowing_division_simps)
    from idiv_64_lane[OF this]
    have h: "\<exists>r. idiv_64 (get_64 (src0 ! j)) (get_64 (src1 ! j)) = Some r \<and>
        signed_lane 64 (set_64 (dst_val ! j) r) = ?f 64"
      by (simp only: signed_lane_simps get_set_64)
    show ?thesis unfolding 5
      by (rule per_component2_lane_val[where val = "signed_lane 64", OF p n j h])
  qed
qed

lemma evaluate_imod_lane:
  assumes n: "num_components \<le> length dst_val" and w: "bit_size \<in> {1, 8, 16, 32, 64}"
    and r: "evaluate_imod dst_val num_components bit_size [src0, src1] = Inr d" and j: "j < num_components"
  shows "signed_lane bit_size (d ! j) =
           (if signed_lane bit_size (src1 ! j) = 0 then 0
            else signed_lane bit_size (src0 ! j) mod signed_lane bit_size (src1 ! j))"
proof -
  let ?f = "\<lambda>W. if signed_lane W (src1 ! j) = 0 then 0
               else signed_lane W (src0 ! j) mod signed_lane W (src1 ! j)"
  consider "bit_size = 1" | "bit_size = 8" | "bit_size = 16" | "bit_size = 32" | "bit_size = 64"
    using w by auto
  then show ?thesis
  proof cases
    case 1
    have p: "per_component2 get_int1 set_int1 imod_8 dst_val num_components [src0, src1] = Inr d"
      using r unfolding 1 by (simp add: evaluate_imod_def)
    from imod_1_lane[of "src0 ! j" "src1 ! j" "dst_val ! j"]
    have h: "\<exists>r. imod_8 (get_int1 (src0 ! j)) (get_int1 (src1 ! j)) = Some r \<and>
        signed_lane 1 (set_int1 (dst_val ! j) r) = ?f 1"
      by (simp only: signed_lane_simps)
    show ?thesis unfolding 1
      by (rule per_component2_lane_val[where val = "signed_lane 1", OF p n j h])
  next
    case 2
    have p: "per_component2 get_8 set_8 imod_8 dst_val num_components [src0, src1] = Inr d"
      using r unfolding 2 by (simp add: evaluate_imod_def)
    from imod_8_lane[of "get_8 (src0 ! j)" "get_8 (src1 ! j)"]
    have h: "\<exists>r. imod_8 (get_8 (src0 ! j)) (get_8 (src1 ! j)) = Some r \<and>
        signed_lane 8 (set_8 (dst_val ! j) r) = ?f 8"
      by (simp only: signed_lane_simps get_set_8)
    show ?thesis unfolding 2
      by (rule per_component2_lane_val[where val = "signed_lane 8", OF p n j h])
  next
    case 3
    have p: "per_component2 get_16 set_16 imod_16 dst_val num_components [src0, src1] = Inr d"
      using r unfolding 3 by (simp add: evaluate_imod_def)
    from imod_16_lane[of "get_16 (src0 ! j)" "get_16 (src1 ! j)"]
    have h: "\<exists>r. imod_16 (get_16 (src0 ! j)) (get_16 (src1 ! j)) = Some r \<and>
        signed_lane 16 (set_16 (dst_val ! j) r) = ?f 16"
      by (simp only: signed_lane_simps get_set_16)
    show ?thesis unfolding 3
      by (rule per_component2_lane_val[where val = "signed_lane 16", OF p n j h])
  next
    case 4
    have p: "per_component2 get_32 set_32 imod_32 dst_val num_components [src0, src1] = Inr d"
      using r unfolding 4 by (simp add: evaluate_imod_def)
    have "\<not> (sint (get_32 (src0 ! j)) = - 2147483648 \<and> sint (get_32 (src1 ! j)) = - 1)"
      using per_component2_lane[OF p n j] imod_32_overflow_None[of "get_32 (src0 ! j)" "get_32 (src1 ! j)"]
      by auto
    from imod_32_lane[OF this]
    have h: "\<exists>r. imod_32 (get_32 (src0 ! j)) (get_32 (src1 ! j)) = Some r \<and>
        signed_lane 32 (set_32 (dst_val ! j) r) = ?f 32"
      by (simp only: signed_lane_simps get_set_32)
    show ?thesis unfolding 4
      by (rule per_component2_lane_val[where val = "signed_lane 32", OF p n j h])
  next
    case 5
    have p: "per_component2 get_64 set_64 imod_64 dst_val num_components [src0, src1] = Inr d"
      using r unfolding 5 by (simp add: evaluate_imod_def)
    have "\<not> (sint (get_64 (src0 ! j)) = - 9223372036854775808 \<and> sint (get_64 (src1 ! j)) = - 1)"
      using per_component2_lane[OF p n j] imod_64_overflow_None[of "get_64 (src0 ! j)" "get_64 (src1 ! j)"]
      by auto
    from imod_64_lane[OF this]
    have h: "\<exists>r. imod_64 (get_64 (src0 ! j)) (get_64 (src1 ! j)) = Some r \<and>
        signed_lane 64 (set_64 (dst_val ! j) r) = ?f 64"
      by (simp only: signed_lane_simps get_set_64)
    show ?thesis unfolding 5
      by (rule per_component2_lane_val[where val = "signed_lane 64", OF p n j h])
  qed
qed

lemma evaluate_irem_lane:
  assumes n: "num_components \<le> length dst_val" and w: "bit_size \<in> {1, 8, 16, 32, 64}"
    and r: "evaluate_irem dst_val num_components bit_size [src0, src1] = Inr d" and j: "j < num_components"
  shows "signed_lane bit_size (d ! j) =
           (if signed_lane bit_size (src1 ! j) = 0 then 0
            else signed_lane bit_size (src0 ! j) smod signed_lane bit_size (src1 ! j))"
proof -
  let ?f = "\<lambda>W. if signed_lane W (src1 ! j) = 0 then 0
               else signed_lane W (src0 ! j) smod signed_lane W (src1 ! j)"
  consider "bit_size = 1" | "bit_size = 8" | "bit_size = 16" | "bit_size = 32" | "bit_size = 64"
    using w by auto
  then show ?thesis
  proof cases
    case 1
    have p: "per_component2 get_int1 set_int1 irem_8 dst_val num_components [src0, src1] = Inr d"
      using r unfolding 1 by (simp add: evaluate_irem_def)
    from irem_1_lane[of "src0 ! j" "src1 ! j" "dst_val ! j"]
    have h: "\<exists>r. irem_8 (get_int1 (src0 ! j)) (get_int1 (src1 ! j)) = Some r \<and>
        signed_lane 1 (set_int1 (dst_val ! j) r) = ?f 1"
      by (simp only: signed_lane_simps)
    show ?thesis unfolding 1
      by (rule per_component2_lane_val[where val = "signed_lane 1", OF p n j h])
  next
    case 2
    have p: "per_component2 get_8 set_8 irem_8 dst_val num_components [src0, src1] = Inr d"
      using r unfolding 2 by (simp add: evaluate_irem_def)
    from irem_8_lane[of "get_8 (src0 ! j)" "get_8 (src1 ! j)"]
    have h: "\<exists>r. irem_8 (get_8 (src0 ! j)) (get_8 (src1 ! j)) = Some r \<and>
        signed_lane 8 (set_8 (dst_val ! j) r) = ?f 8"
      by (simp only: signed_lane_simps get_set_8)
    show ?thesis unfolding 2
      by (rule per_component2_lane_val[where val = "signed_lane 8", OF p n j h])
  next
    case 3
    have p: "per_component2 get_16 set_16 irem_16 dst_val num_components [src0, src1] = Inr d"
      using r unfolding 3 by (simp add: evaluate_irem_def)
    from irem_16_lane[of "get_16 (src0 ! j)" "get_16 (src1 ! j)"]
    have h: "\<exists>r. irem_16 (get_16 (src0 ! j)) (get_16 (src1 ! j)) = Some r \<and>
        signed_lane 16 (set_16 (dst_val ! j) r) = ?f 16"
      by (simp only: signed_lane_simps get_set_16)
    show ?thesis unfolding 3
      by (rule per_component2_lane_val[where val = "signed_lane 16", OF p n j h])
  next
    case 4
    have p: "per_component2 get_32 set_32 irem_32 dst_val num_components [src0, src1] = Inr d"
      using r unfolding 4 by (simp add: evaluate_irem_def)
    have "\<not> (sint (get_32 (src0 ! j)) = - 2147483648 \<and> sint (get_32 (src1 ! j)) = - 1)"
      using per_component2_lane[OF p n j] irem_32_overflow_None[of "get_32 (src0 ! j)" "get_32 (src1 ! j)"]
      by auto
    from irem_32_lane[OF this]
    have h: "\<exists>r. irem_32 (get_32 (src0 ! j)) (get_32 (src1 ! j)) = Some r \<and>
        signed_lane 32 (set_32 (dst_val ! j) r) = ?f 32"
      by (simp only: signed_lane_simps get_set_32)
    show ?thesis unfolding 4
      by (rule per_component2_lane_val[where val = "signed_lane 32", OF p n j h])
  next
    case 5
    have p: "per_component2 get_64 set_64 irem_64 dst_val num_components [src0, src1] = Inr d"
      using r unfolding 5 by (simp add: evaluate_irem_def)
    have "\<not> (sint (get_64 (src0 ! j)) = - 9223372036854775808 \<and> sint (get_64 (src1 ! j)) = - 1)"
      using per_component2_lane[OF p n j] irem_64_overflow_None[of "get_64 (src0 ! j)" "get_64 (src1 ! j)"]
      by auto
    from irem_64_lane[OF this]
    have h: "\<exists>r. irem_64 (get_64 (src0 ! j)) (get_64 (src1 ! j)) = Some r \<and>
        signed_lane 64 (set_64 (dst_val ! j) r) = ?f 64"
      by (simp only: signed_lane_simps get_set_64)
    show ?thesis unfolding 5
      by (rule per_component2_lane_val[where val = "signed_lane 64", OF p n j h])
  qed
qed

lemma word_of_sint: "sint w = k \<Longrightarrow> w = word_of_int k"
  by auto

lemma idiv_narrow_overflow:
  "idiv_8 (word_of_int (- 128)) (word_of_int (- 1)) = Some (word_of_int (- 128))"
  "idiv_16 (word_of_int (- 32768)) (word_of_int (- 1)) = Some (word_of_int (- 32768))"
  "idiv_8 (- 1) (- 1) = Some 1"
  by code_simp+

lemma evaluate_idiv_overflow_lane:
  assumes n: "num_components \<le> length dst_val" and w: "bit_size \<in> {1, 8, 16}"
    and r: "evaluate_idiv dst_val num_components bit_size [src0, src1] = Inr d" and j: "j < num_components"
    and ov: "overflowing_division bit_size (src0 ! j) (src1 ! j)"
  shows "signed_lane bit_size (d ! j) = - (2 ^ (bit_size - 1))"
proof -
  consider "bit_size = 1" | "bit_size = 8" | "bit_size = 16" using w by auto
  then show ?thesis
  proof cases
    case 1
    have p: "per_component2 get_int1 set_int1 idiv_8 dst_val num_components [src0, src1] = Inr d"
      using r unfolding 1 by (simp add: evaluate_idiv_def)
    have "get_b (src0 ! j)" "get_b (src1 ! j)"
      using ov unfolding 1 by (simp_all add: overflowing_division_simps int1_value_def split: if_splits)
    then have "get_int1 (src0 ! j) = - 1" "get_int1 (src1 ! j) = - 1" by (simp_all add: get_int1_eq)
    then have h: "\<exists>r. idiv_8 (get_int1 (src0 ! j)) (get_int1 (src1 ! j)) = Some r \<and>
        signed_lane 1 (set_int1 (dst_val ! j) r) = - 1"
      by (simp add: idiv_narrow_overflow signed_lane_simps int1_value_def get_b_set_int1)
    show ?thesis unfolding 1
      using per_component2_lane_val[where val = "signed_lane 1", OF p n j h] by simp
  next
    case 2
    have p: "per_component2 get_8 set_8 idiv_8 dst_val num_components [src0, src1] = Inr d"
      using r unfolding 2 by (simp add: evaluate_idiv_def)
    have s: "sint (get_8 (src0 ! j)) = - 128" "sint (get_8 (src1 ! j)) = - 1"
      using ov unfolding 2 by (simp_all add: overflowing_division_simps)
    have e: "get_8 (src0 ! j) = word_of_int (- 128)" "get_8 (src1 ! j) = word_of_int (- 1)"
      using word_of_sint[OF s(1)] word_of_sint[OF s(2)] by (simp_all only:)
    have h: "\<exists>r. idiv_8 (get_8 (src0 ! j)) (get_8 (src1 ! j)) = Some r \<and>
        signed_lane 8 (set_8 (dst_val ! j) r) = - 128"
      unfolding e idiv_narrow_overflow by (simp add: signed_lane_simps get_set_8)
    show ?thesis unfolding 2
      using per_component2_lane_val[where val = "signed_lane 8", OF p n j h] by simp
  next
    case 3
    have p: "per_component2 get_16 set_16 idiv_16 dst_val num_components [src0, src1] = Inr d"
      using r unfolding 3 by (simp add: evaluate_idiv_def)
    have s: "sint (get_16 (src0 ! j)) = - 32768" "sint (get_16 (src1 ! j)) = - 1"
      using ov unfolding 3 by (simp_all add: overflowing_division_simps)
    have e: "get_16 (src0 ! j) = word_of_int (- 32768)" "get_16 (src1 ! j) = word_of_int (- 1)"
      using word_of_sint[OF s(1)] word_of_sint[OF s(2)] by (simp_all only:)
    have h: "\<exists>r. idiv_16 (get_16 (src0 ! j)) (get_16 (src1 ! j)) = Some r \<and>
        signed_lane 16 (set_16 (dst_val ! j) r) = - 32768"
      unfolding e idiv_narrow_overflow by (simp add: signed_lane_simps get_set_16)
    show ?thesis unfolding 3
      using per_component2_lane_val[where val = "signed_lane 16", OF p n j h] by simp
  qed
qed

text \<open>
  Claim C4, amended. At every integer bit width, \<^verbatim>\<open>udiv\<close> and \<^verbatim>\<open>umod\<close> return and
  \<^verbatim>\<open>idiv\<close>, \<^verbatim>\<open>imod\<close> and \<^verbatim>\<open>irem\<close> return unless the bit width is 32 or 64 and some lane
  divides the minimum by -1 (undefined in C). Whenever they return, each lane by itself
  holds 0 for a divisor of 0 and the exact integer result for a nonzero divisor: the
  quotient truncated towards zero (\<open>sdiv\<close>) for \<^verbatim>\<open>idiv\<close>, the natural quotient and remainder
  for \<^verbatim>\<open>udiv\<close> and \<^verbatim>\<open>umod\<close>, the remainder with the sign of the divisor (\<open>mod\<close>) for
  \<^verbatim>\<open>imod\<close> and with the sign of the dividend (\<open>smod\<close>) for \<^verbatim>\<open>irem\<close>. Excepted is the lane
  of \<^verbatim>\<open>idiv\<close> that divides the minimum by -1, at 1, 8 and 16 bits, whose quotient is not
  representable: it holds the minimum, and the other lanes of the vector are exact.
\<close>

theorem integer_division_exact:
  assumes "vec4 dst_val" "vec4 src0" "vec4 src1" "num_components \<le> 4"
    and "bit_size \<in> {1, 8, 16, 32, 64}"
  shows "(\<exists>d. evaluate_udiv dst_val num_components bit_size [src0, src1] = Inr d \<and>
             (\<forall>j<num_components. unsigned_lane bit_size (d ! j) =
                (if unsigned_lane bit_size (src1 ! j) = 0 then 0
                 else unsigned_lane bit_size (src0 ! j) div unsigned_lane bit_size (src1 ! j)))) \<and>
         (\<exists>d. evaluate_umod dst_val num_components bit_size [src0, src1] = Inr d \<and>
             (\<forall>j<num_components. unsigned_lane bit_size (d ! j) =
                (if unsigned_lane bit_size (src1 ! j) = 0 then 0
                 else unsigned_lane bit_size (src0 ! j) mod unsigned_lane bit_size (src1 ! j)))) \<and>
         ((bit_size \<in> {32, 64} \<longrightarrow>
             (\<forall>j<num_components. \<not> overflowing_division bit_size (src0 ! j) (src1 ! j))) \<longrightarrow>
          (\<exists>d. evaluate_idiv dst_val num_components bit_size [src0, src1] = Inr d) \<and>
          (\<exists>d. evaluate_imod dst_val num_components bit_size [src0, src1] = Inr d) \<and>
          (\<exists>d. evaluate_irem dst_val num_components bit_size [src0, src1] = Inr d)) \<and>
         (\<forall>d. evaluate_idiv dst_val num_components bit_size [src0, src1] = Inr d \<longrightarrow>
             (\<forall>j<num_components. \<not> overflowing_division bit_size (src0 ! j) (src1 ! j) \<longrightarrow>
                signed_lane bit_size (d ! j) =
                  (if signed_lane bit_size (src1 ! j) = 0 then 0
                   else signed_lane bit_size (src0 ! j) sdiv signed_lane bit_size (src1 ! j)))) \<and>
         (\<forall>d. evaluate_imod dst_val num_components bit_size [src0, src1] = Inr d \<longrightarrow>
             (\<forall>j<num_components. signed_lane bit_size (d ! j) =
                (if signed_lane bit_size (src1 ! j) = 0 then 0
                 else signed_lane bit_size (src0 ! j) mod signed_lane bit_size (src1 ! j)))) \<and>
         (\<forall>d. evaluate_irem dst_val num_components bit_size [src0, src1] = Inr d \<longrightarrow>
             (\<forall>j<num_components. signed_lane bit_size (d ! j) =
                (if signed_lane bit_size (src1 ! j) = 0 then 0
                 else signed_lane bit_size (src0 ! j) smod signed_lane bit_size (src1 ! j)))) \<and>
         (\<forall>d. evaluate_idiv dst_val num_components bit_size [src0, src1] = Inr d \<longrightarrow>
             (\<forall>j<num_components.
                bit_size \<in> {1, 8, 16} \<and> overflowing_division bit_size (src0 ! j) (src1 ! j) \<longrightarrow>
                signed_lane bit_size (d ! j) = - (2 ^ (bit_size - 1))))"
proof -
  have n: "num_components \<le> length dst_val" using assms(1,4) by (simp add: vec4_def)
  note w = assms(5)
  have U: "\<exists>d. evaluate_udiv dst_val num_components bit_size [src0, src1] = Inr d \<and>
             (\<forall>j<num_components. unsigned_lane bit_size (d ! j) =
                (if unsigned_lane bit_size (src1 ! j) = 0 then 0
                 else unsigned_lane bit_size (src0 ! j) div unsigned_lane bit_size (src1 ! j)))"
    by (rule evaluate_udiv_exact[OF n w])
  have M: "\<exists>d. evaluate_umod dst_val num_components bit_size [src0, src1] = Inr d \<and>
             (\<forall>j<num_components. unsigned_lane bit_size (d ! j) =
                (if unsigned_lane bit_size (src1 ! j) = 0 then 0
                 else unsigned_lane bit_size (src0 ! j) mod unsigned_lane bit_size (src1 ! j)))"
    by (rule evaluate_umod_exact[OF n w])
  have R: "(\<exists>d. evaluate_idiv dst_val num_components bit_size [src0, src1] = Inr d) \<and>
          (\<exists>d. evaluate_imod dst_val num_components bit_size [src0, src1] = Inr d) \<and>
          (\<exists>d. evaluate_irem dst_val num_components bit_size [src0, src1] = Inr d)"
    if h: "bit_size \<in> {32, 64} \<longrightarrow>
             (\<forall>j<num_components. \<not> overflowing_division bit_size (src0 ! j) (src1 ! j))"
  proof (intro conjI)
    show "\<exists>d. evaluate_idiv dst_val num_components bit_size [src0, src1] = Inr d"
    proof (cases "bit_size \<in> {32, 64}")
      case True
      then have "\<forall>j<num_components. \<not> overflowing_division bit_size (src0 ! j) (src1 ! j)"
        using h by simp
      from evaluate_idiv_exact[OF n w this] show ?thesis by blast
    next
      case False
      then have "bit_size \<in> {1, 8, 16}" using w by auto
      then show ?thesis by (rule evaluate_idiv_narrow_returns[OF n])
    qed
    from evaluate_imod_exact[OF n w h]
    show "\<exists>d. evaluate_imod dst_val num_components bit_size [src0, src1] = Inr d" by blast
    from evaluate_irem_exact[OF n w h]
    show "\<exists>d. evaluate_irem dst_val num_components bit_size [src0, src1] = Inr d" by blast
  qed
  have D: "\<forall>d. evaluate_idiv dst_val num_components bit_size [src0, src1] = Inr d \<longrightarrow>
             (\<forall>j<num_components. \<not> overflowing_division bit_size (src0 ! j) (src1 ! j) \<longrightarrow>
                signed_lane bit_size (d ! j) =
                  (if signed_lane bit_size (src1 ! j) = 0 then 0
                   else signed_lane bit_size (src0 ! j) sdiv signed_lane bit_size (src1 ! j)))"
    using evaluate_idiv_lane[OF n w] by blast
  have I: "\<forall>d. evaluate_imod dst_val num_components bit_size [src0, src1] = Inr d \<longrightarrow>
             (\<forall>j<num_components. signed_lane bit_size (d ! j) =
                (if signed_lane bit_size (src1 ! j) = 0 then 0
                 else signed_lane bit_size (src0 ! j) mod signed_lane bit_size (src1 ! j)))"
    using evaluate_imod_lane[OF n w] by blast
  have E: "\<forall>d. evaluate_irem dst_val num_components bit_size [src0, src1] = Inr d \<longrightarrow>
             (\<forall>j<num_components. signed_lane bit_size (d ! j) =
                (if signed_lane bit_size (src1 ! j) = 0 then 0
                 else signed_lane bit_size (src0 ! j) smod signed_lane bit_size (src1 ! j)))"
    using evaluate_irem_lane[OF n w] by blast
  from R have R': "(bit_size \<in> {32, 64} \<longrightarrow>
             (\<forall>j<num_components. \<not> overflowing_division bit_size (src0 ! j) (src1 ! j))) \<longrightarrow>
          (\<exists>d. evaluate_idiv dst_val num_components bit_size [src0, src1] = Inr d) \<and>
          (\<exists>d. evaluate_imod dst_val num_components bit_size [src0, src1] = Inr d) \<and>
          (\<exists>d. evaluate_irem dst_val num_components bit_size [src0, src1] = Inr d)"
    by (rule impI)
  have O: "\<forall>d. evaluate_idiv dst_val num_components bit_size [src0, src1] = Inr d \<longrightarrow>
             (\<forall>j<num_components.
                bit_size \<in> {1, 8, 16} \<and> overflowing_division bit_size (src0 ! j) (src1 ! j) \<longrightarrow>
                signed_lane bit_size (d ! j) = - (2 ^ (bit_size - 1)))"
    using evaluate_idiv_overflow_lane[OF n] by blast
  show ?thesis
    by (rule conjI[OF U conjI[OF M conjI[OF R' conjI[OF D conjI[OF I conjI[OF E O]]]]]])
qed

theorem integer_division_exact_witness:
  "vec4 [0, 0, 0, 0] \<and> vec4 [0x80, 0xF9, 6, 0] \<and> vec4 [0xFF, 2, 0, 0] \<and> (3 :: nat) \<le> 4 \<and>
   (8 :: nat) \<in> {1, 8, 16, 32, 64} \<and>
   overflowing_division 8 ([0x80, 0xF9, 6, 0] ! 0) ([0xFF, 2, 0, 0] ! 0) \<and>
   \<not> overflowing_division 8 ([0x80, 0xF9, 6, 0] ! 1) ([0xFF, 2, 0, 0] ! 1) \<and>
   \<not> overflowing_division 8 ([0x80, 0xF9, 6, 0] ! 2) ([0xFF, 2, 0, 0] ! 2) \<and>
   (8 :: nat) \<in> {1, 8, 16} \<and>
   (\<exists>d. evaluate_idiv [0, 0, 0, 0] 3 8 [[0x80, 0xF9, 6, 0], [0xFF, 2, 0, 0]] = Inr d \<and>
      signed_lane 8 (d ! 0) = - 128 \<and> signed_lane 8 (d ! 1) = - 3 \<and> signed_lane 8 (d ! 2) = 0) \<and>
   (\<exists>d. evaluate_imod [0, 0, 0, 0] 3 8 [[0x80, 0xF9, 6, 0], [0xFF, 2, 0, 0]] = Inr d \<and>
      signed_lane 8 (d ! 0) = 0 \<and> signed_lane 8 (d ! 1) = 1 \<and> signed_lane 8 (d ! 2) = 0)"
proof -
  have v: "vec4 [0, 0, 0, 0]" "vec4 [0x80, 0xF9, 6, 0]" "vec4 [0xFF, 2, 0, 0]" "(3 :: nat) \<le> 4"
    "(8 :: nat) \<in> {1, 8, 16, 32, 64}" by (simp_all add: vec4_def)
  have o: "overflowing_division 8 ([0x80, 0xF9, 6, 0] ! 0) ([0xFF, 2, 0, 0] ! 0)"
    "\<not> overflowing_division 8 ([0x80, 0xF9, 6, 0] ! 1) ([0xFF, 2, 0, 0] ! 1)"
    "\<not> overflowing_division 8 ([0x80, 0xF9, 6, 0] ! 2) ([0xFF, 2, 0, 0] ! 2)"
    by (simp_all add: overflowing_division_simps get_8_def)
  have s: "signed_lane 8 ([0xFF, 2, 0, 0] ! 0) = - 1" "signed_lane 8 ([0x80, 0xF9, 6, 0] ! 0) = - 128"
    "signed_lane 8 ([0xFF, 2, 0, 0] ! 1) = 2" "signed_lane 8 ([0x80, 0xF9, 6, 0] ! 1) = - 7"
    "signed_lane 8 ([0xFF, 2, 0, 0] ! 2) = 0"
    by (simp_all add: signed_lane_simps get_8_def)
  have h: "(8 :: nat) \<in> {32, 64} \<longrightarrow>
      (\<forall>j<3. \<not> overflowing_division 8 ([0x80, 0xF9, 6, 0] ! j) ([0xFF, 2, 0, 0] ! j))" by simp
  note t = integer_division_exact[OF v, THEN conjunct2, THEN conjunct2]
  from t[THEN conjunct1, THEN mp, OF h] obtain d e where
    d: "evaluate_idiv [0, 0, 0, 0] 3 8 [[0x80, 0xF9, 6, 0], [0xFF, 2, 0, 0]] = Inr d" and
    e: "evaluate_imod [0, 0, 0, 0] 3 8 [[0x80, 0xF9, 6, 0], [0xFF, 2, 0, 0]] = Inr e" by blast
  note dl = t[THEN conjunct2, THEN conjunct1, THEN spec, THEN mp, OF d, THEN spec, THEN mp]
  have d1: "signed_lane 8 (d ! 1) = - 3" using dl[of 1, THEN mp, OF _ o(2)] s by simp
  have d2: "signed_lane 8 (d ! 2) = 0" using dl[of 2, THEN mp, OF _ o(3)] s by simp
  have k: "(8 :: nat) \<in> {1, 8, 16}" by simp
  have d0: "signed_lane 8 (d ! 0) = - 128"
    using t[THEN conjunct2, THEN conjunct2, THEN conjunct2, THEN conjunct2, THEN spec, THEN mp,
        OF d, THEN spec, THEN mp, of 0, THEN mp, OF _ conjI[OF k o(1)]] by simp
  note el = t[THEN conjunct2, THEN conjunct2, THEN conjunct1, THEN spec, THEN mp, OF e, THEN spec, THEN mp]
  have e0: "signed_lane 8 (e ! 0) = 0" using el[of 0] s by simp
  have e1: "signed_lane 8 (e ! 1) = 1" using el[of 1] s by simp
  have e2: "signed_lane 8 (e ! 2) = 0" using el[of 2] s by simp
  have A: "\<exists>d. evaluate_idiv [0, 0, 0, 0] 3 8 [[0x80, 0xF9, 6, 0], [0xFF, 2, 0, 0]] = Inr d \<and>
      signed_lane 8 (d ! 0) = - 128 \<and> signed_lane 8 (d ! 1) = - 3 \<and> signed_lane 8 (d ! 2) = 0"
    using d d0 d1 d2 by blast
  have B: "\<exists>d. evaluate_imod [0, 0, 0, 0] 3 8 [[0x80, 0xF9, 6, 0], [0xFF, 2, 0, 0]] = Inr d \<and>
      signed_lane 8 (d ! 0) = 0 \<and> signed_lane 8 (d ! 1) = 1 \<and> signed_lane 8 (d ! 2) = 0"
    using e e0 e1 e2 by blast
  show ?thesis by (intro conjI) (rule v o k A B)+
qed

text \<open>
  The claim as stated fails for the minimum and -1. \<^verbatim>\<open>idiv\<close> at 8 bits stores -128 where
  the exact quotient is 128 (the other lane, with divisor 0, holds 0); at 32 bits the
  division and both remainders are undefined in C, although the exact remainder is 0.
\<close>

theorem idiv_minimum_by_minus_one_counterexample:
  "evaluate_idiv [0, 0, 0, 0] 2 8 [[0x80, 6, 0, 0], [0xFF, 0, 0, 0]] = Inr [0x80, 0, 0, 0] \<and>
   signed_lane 8 ([0x80, 6, 0, 0] ! 0) = - 128 \<and> signed_lane 8 ([0xFF, 0, 0, 0] ! 0) = - 1 \<and>
   signed_lane 8 ([0x80, 0, 0, 0] ! 0) = - 128 \<and> (- 128 :: int) sdiv (- 1) = 128 \<and>
   evaluate_idiv [0, 0, 0, 0] 1 32 [[0x80000000, 0, 0, 0], [0xFFFFFFFF, 0, 0, 0]] = Inl Undefined \<and>
   evaluate_imod [0, 0, 0, 0] 1 32 [[0x80000000, 0, 0, 0], [0xFFFFFFFF, 0, 0, 0]] = Inl Undefined \<and>
   evaluate_irem [0, 0, 0, 0] 1 32 [[0x80000000, 0, 0, 0], [0xFFFFFFFF, 0, 0, 0]] = Inl Undefined \<and>
   evaluate_imod [0, 0, 0, 0] 1 64 [[0x8000000000000000, 0, 0, 0], [0xFFFFFFFFFFFFFFFF, 0, 0, 0]] = Inl Undefined \<and>
   signed_lane 32 ([0x80000000, 0, 0, 0] ! 0) = - 2147483648 \<and>
   signed_lane 32 ([0xFFFFFFFF, 0, 0, 0] ! 0) = - 1 \<and>
   (- 2147483648 :: int) mod (- 1) = 0 \<and> (- 2147483648 :: int) smod (- 1) = 0"
proof (intro conjI)
  show "evaluate_idiv [0, 0, 0, 0] 2 8 [[0x80, 6, 0, 0], [0xFF, 0, 0, 0]] = Inr [0x80, 0, 0, 0]"
    by code_simp
  show "evaluate_idiv [0, 0, 0, 0] 1 32 [[0x80000000, 0, 0, 0], [0xFFFFFFFF, 0, 0, 0]] = Inl Undefined"
    by code_simp
  show "evaluate_imod [0, 0, 0, 0] 1 32 [[0x80000000, 0, 0, 0], [0xFFFFFFFF, 0, 0, 0]] = Inl Undefined"
    by code_simp
  show "evaluate_irem [0, 0, 0, 0] 1 32 [[0x80000000, 0, 0, 0], [0xFFFFFFFF, 0, 0, 0]] = Inl Undefined"
    by code_simp
  show "evaluate_imod [0, 0, 0, 0] 1 64 [[0x8000000000000000, 0, 0, 0], [0xFFFFFFFFFFFFFFFF, 0, 0, 0]] = Inl Undefined"
    by code_simp
qed (simp_all add: signed_lane_simps get_8_def get_32_def signed_modulo_int_def)

section \<open>Comparisons store canonical booleans\<close>

lemma per_component2_stores:
  assumes "n \<le> length d" "\<And>v x. P (wr v x)"
  shows "\<exists>d'. per_component2 rd wr (\<lambda>a b. Some (f a b)) d n src = Inr d' \<and> (\<forall>i<n. P (d' ! i))"
proof -
  from per_component2_Some_all[OF assms(1), of "\<lambda>a b. Some (f a b)" rd src
      "\<lambda>j. f (rd (src ! 0 ! j)) (rd (src ! 1 ! j))" wr]
  obtain d' where d': "per_component2 rd wr (\<lambda>a b. Some (f a b)) d n src = Inr d'"
    "\<forall>j<n. d' ! j = wr (d ! j) (f (rd (src ! 0 ! j)) (rd (src ! 1 ! j)))"
    by auto
  have "\<forall>i<n. P (d' ! i)" using d'(2) assms(2) by simp
  then show ?thesis using d'(1) by blast
qed

lemma boolean32_set_bool32: "boolean32 (set_bool32 v x)"
  by (simp add: boolean32_def get_32_set_bool32)

lemma boolean1_set_bool1: "boolean1 (set_bool1 v x)"
  by (simp add: boolean1_def get_8_set_bool1)

lemmas stores_bool32 =
  per_component2_stores[where wr = set_bool32 and P = boolean32, OF _ boolean32_set_bool32]

lemmas stores_bool1 =
  per_component2_stores[where wr = set_bool1 and P = boolean1, OF _ boolean1_set_bool1]

lemma integer_comparisons32_boolean:
  assumes "n \<le> length d" "bit_size \<in> {1, 8, 16, 32, 64}"
  shows "\<exists>d'. evaluate_ieq32 d n bit_size src = Inr d' \<and> (\<forall>i<n. boolean32 (d' ! i))"
    "\<exists>d'. evaluate_ine32 d n bit_size src = Inr d' \<and> (\<forall>i<n. boolean32 (d' ! i))"
    "\<exists>d'. evaluate_ilt32 d n bit_size src = Inr d' \<and> (\<forall>i<n. boolean32 (d' ! i))"
    "\<exists>d'. evaluate_ige32 d n bit_size src = Inr d' \<and> (\<forall>i<n. boolean32 (d' ! i))"
    "\<exists>d'. evaluate_ult32 d n bit_size src = Inr d' \<and> (\<forall>i<n. boolean32 (d' ! i))"
    "\<exists>d'. evaluate_uge32 d n bit_size src = Inr d' \<and> (\<forall>i<n. boolean32 (d' ! i))"
  using assms(2)
  unfolding evaluate_ieq32_def evaluate_ine32_def evaluate_ilt32_def evaluate_ige32_def evaluate_ult32_def evaluate_uge32_def
  by (auto intro!: stores_bool32[OF assms(1)])

lemma integer_comparisons_boolean:
  assumes "n \<le> length d" "bit_size \<in> {1, 8, 16, 32, 64}"
  shows "\<exists>d'. evaluate_ieq d n bit_size src = Inr d' \<and> (\<forall>i<n. boolean1 (d' ! i))"
    "\<exists>d'. evaluate_ine d n bit_size src = Inr d' \<and> (\<forall>i<n. boolean1 (d' ! i))"
    "\<exists>d'. evaluate_ilt d n bit_size src = Inr d' \<and> (\<forall>i<n. boolean1 (d' ! i))"
    "\<exists>d'. evaluate_ige d n bit_size src = Inr d' \<and> (\<forall>i<n. boolean1 (d' ! i))"
    "\<exists>d'. evaluate_ult d n bit_size src = Inr d' \<and> (\<forall>i<n. boolean1 (d' ! i))"
    "\<exists>d'. evaluate_uge d n bit_size src = Inr d' \<and> (\<forall>i<n. boolean1 (d' ! i))"
  using assms(2)
  unfolding evaluate_ieq_def evaluate_ine_def evaluate_ilt_def evaluate_ige_def evaluate_ult_def evaluate_uge_def
  by (auto intro!: stores_bool1[OF assms(1)])

lemma float_comparisons32_boolean:
  assumes "n \<le> length d" "bit_size \<in> {16, 32, 64}"
  shows "\<exists>d'. evaluate_feq32 h d n bit_size src = Inr d' \<and> (\<forall>i<n. boolean32 (d' ! i))"
    "\<exists>d'. evaluate_fne32 h d n bit_size src = Inr d' \<and> (\<forall>i<n. boolean32 (d' ! i))"
    "\<exists>d'. evaluate_flt32 h d n bit_size src = Inr d' \<and> (\<forall>i<n. boolean32 (d' ! i))"
    "\<exists>d'. evaluate_fge32 h d n bit_size src = Inr d' \<and> (\<forall>i<n. boolean32 (d' ! i))"
  using assms(2)
  unfolding evaluate_feq32_def evaluate_fne32_def evaluate_flt32_def evaluate_fge32_def
  by (auto intro!: stores_bool32[OF assms(1)])

lemma float_comparisons_boolean:
  assumes "n \<le> length d" "bit_size \<in> {16, 32, 64}"
  shows "\<exists>d'. evaluate_feq h d n bit_size src = Inr d' \<and> (\<forall>i<n. boolean1 (d' ! i))"
    "\<exists>d'. evaluate_fne h d n bit_size src = Inr d' \<and> (\<forall>i<n. boolean1 (d' ! i))"
    "\<exists>d'. evaluate_flt h d n bit_size src = Inr d' \<and> (\<forall>i<n. boolean1 (d' ! i))"
    "\<exists>d'. evaluate_fge h d n bit_size src = Inr d' \<and> (\<forall>i<n. boolean1 (d' ! i))"
  using assms(2)
  unfolding evaluate_feq_def evaluate_fne_def evaluate_flt_def evaluate_fge_def
  by (auto intro!: stores_bool1[OF assms(1)])

lemma boolean1_not_all_ones: "boolean1 v \<Longrightarrow> get_32 v \<noteq> - 1"
proof
  assume b: "boolean1 v" and "get_32 v = - 1"
  then have "get_8 v = ucast (- 1 :: 32 word)" by (simp only: get_8_as_32)
  then show False using b by (auto simp add: boolean1_def ucast_32_8_m1)
qed

lemma float_one_or_zero_set_32: "float_one_or_zero (set_32 v (set_on_32 c))"
  by (simp add: float_one_or_zero_def get_set_32 set_on_32_def)

lemma set_on_comparisons_store:
  assumes "n \<le> length d"
  shows "\<exists>d'. evaluate_seq d n 32 src = Inr d' \<and> (\<forall>i<n. float_one_or_zero (d' ! i))"
    "\<exists>d'. evaluate_sne d n 32 src = Inr d' \<and> (\<forall>i<n. float_one_or_zero (d' ! i))"
    "\<exists>d'. evaluate_slt d n 32 src = Inr d' \<and> (\<forall>i<n. float_one_or_zero (d' ! i))"
    "\<exists>d'. evaluate_sge f h d n 32 src = Inr d' \<and> (\<forall>i<n. float_one_or_zero (d' ! i))"
proof -
  have s: "\<exists>d'. per_component2 rd set_32 (\<lambda>a b. Some (set_on_32 (c a b))) d n src = Inr d' \<and>
      (\<forall>i<n. float_one_or_zero (d' ! i))" for rd :: "nir_const_value \<Rightarrow> 32 word" and c
  proof -
    from per_component2_Some_all[OF assms, of "\<lambda>a b. Some (set_on_32 (c a b))" rd src
        "\<lambda>j. set_on_32 (c (rd (src ! 0 ! j)) (rd (src ! 1 ! j)))" set_32]
    obtain d' where d': "per_component2 rd set_32 (\<lambda>a b. Some (set_on_32 (c a b))) d n src = Inr d'"
      "\<forall>j<n. d' ! j = set_32 (d ! j) (set_on_32 (c (rd (src ! 0 ! j)) (rd (src ! 1 ! j))))"
      by auto
    have "\<forall>i<n. float_one_or_zero (d' ! i)" using d'(2) by (simp add: float_one_or_zero_set_32)
    then show ?thesis using d'(1) by blast
  qed
  show "\<exists>d'. evaluate_seq d n 32 src = Inr d' \<and> (\<forall>i<n. float_one_or_zero (d' ! i))"
    unfolding evaluate_seq_def by (rule s)
  show "\<exists>d'. evaluate_sne d n 32 src = Inr d' \<and> (\<forall>i<n. float_one_or_zero (d' ! i))"
    unfolding evaluate_sne_def by (rule s)
  show "\<exists>d'. evaluate_slt d n 32 src = Inr d' \<and> (\<forall>i<n. float_one_or_zero (d' ! i))"
    unfolding evaluate_slt_def by (rule s)
  show "\<exists>d'. evaluate_sge f h d n 32 src = Inr d' \<and> (\<forall>i<n. float_one_or_zero (d' ! i))"
    using s[of get_32 fge_32] by (simp add: evaluate_sge_def)
qed

text \<open>
  Claim C2, amended. Every boolean comparison opcode, at every bit width of its switch
  (32 and 64 among them, 1 for the integer comparisons, never for the float ones),
  returns, and every lane it writes is a canonical boolean of the destination's width,
  which the opcode fixes and the bit width of the evaluation does not: all-zero or
  all-one bits in the 32-bit member for the opcodes with suffix 32, also at bit width 1;
  exactly 0 or 1 in the boolean member for the opcodes without suffix, also at bit width
  32 and 64, where the lane is never all-one bits. The set-on comparisons \<^verbatim>\<open>seq\<close>, \<^verbatim>\<open>sne\<close>,
  \<^verbatim>\<open>slt\<close> and \<^verbatim>\<open>sge\<close> store no boolean: at bit width 32 the float 1.0 or 0.0.
\<close>

theorem comparisons_store_canonical_booleans:
  assumes "vec4 dst_val" "num_components \<le> 4"
  shows "(bit_size \<in> {1, 8, 16, 32, 64} \<longrightarrow>
            (\<forall>ev \<in> set integer_comparisons32.
               \<exists>d. ev dst_val num_components bit_size src = Inr d \<and>
                   (\<forall>i<num_components. boolean32 (d ! i))) \<and>
            (\<forall>ev \<in> set integer_comparisons.
               \<exists>d. ev dst_val num_components bit_size src = Inr d \<and>
                   (\<forall>i<num_components. boolean1 (d ! i) \<and> get_32 (d ! i) \<noteq> - 1))) \<and>
         (bit_size \<in> {16, 32, 64} \<longrightarrow>
            (\<forall>ev \<in> set (float_comparisons32 half_to_float).
               \<exists>d. ev dst_val num_components bit_size src = Inr d \<and>
                   (\<forall>i<num_components. boolean32 (d ! i))) \<and>
            (\<forall>ev \<in> set (float_comparisons half_to_float).
               \<exists>d. ev dst_val num_components bit_size src = Inr d \<and>
                   (\<forall>i<num_components. boolean1 (d ! i) \<and> get_32 (d ! i) \<noteq> - 1))) \<and>
         (\<forall>ev \<in> set (set_on_comparisons float_to_half half_to_float).
            \<exists>d. ev dst_val num_components 32 src = Inr d \<and>
                (\<forall>i<num_components. float_one_or_zero (d ! i)))"
proof -
  have n: "num_components \<le> length dst_val" using assms by (simp add: vec4_def)
  have b: "(\<forall>i<num_components. boolean1 (d ! i) \<and> get_32 (d ! i) \<noteq> - 1) =
      (\<forall>i<num_components. boolean1 (d ! i))" for d
    using boolean1_not_all_ones by blast
  have I32: "\<forall>ev \<in> set integer_comparisons32.
      \<exists>d. ev dst_val num_components bit_size src = Inr d \<and> (\<forall>i<num_components. boolean32 (d ! i))"
    if w: "bit_size \<in> {1, 8, 16, 32, 64}"
    unfolding integer_comparisons32_def using integer_comparisons32_boolean[OF n w] by simp
  have I1: "\<forall>ev \<in> set integer_comparisons.
      \<exists>d. ev dst_val num_components bit_size src = Inr d \<and>
          (\<forall>i<num_components. boolean1 (d ! i) \<and> get_32 (d ! i) \<noteq> - 1)"
    if w: "bit_size \<in> {1, 8, 16, 32, 64}"
    unfolding integer_comparisons_def b using integer_comparisons_boolean[OF n w] by simp
  have F32: "\<forall>ev \<in> set (float_comparisons32 half_to_float).
      \<exists>d. ev dst_val num_components bit_size src = Inr d \<and> (\<forall>i<num_components. boolean32 (d ! i))"
    if w: "bit_size \<in> {16, 32, 64}"
    unfolding float_comparisons32_def using float_comparisons32_boolean[OF n w] by simp
  have F1: "\<forall>ev \<in> set (float_comparisons half_to_float).
      \<exists>d. ev dst_val num_components bit_size src = Inr d \<and>
          (\<forall>i<num_components. boolean1 (d ! i) \<and> get_32 (d ! i) \<noteq> - 1)"
    if w: "bit_size \<in> {16, 32, 64}"
    unfolding float_comparisons_def b using float_comparisons_boolean[OF n w] by simp
  have S: "\<forall>ev \<in> set (set_on_comparisons float_to_half half_to_float).
      \<exists>d. ev dst_val num_components 32 src = Inr d \<and> (\<forall>i<num_components. float_one_or_zero (d ! i))"
    unfolding set_on_comparisons_def using set_on_comparisons_store[OF n] by simp
  show ?thesis using I32 I1 F32 F1 S by blast
qed

theorem comparisons_store_canonical_booleans_witness:
  "vec4 [0, 0, 0, 0] \<and> (2 :: nat) \<le> 4 \<and> (32 :: nat) \<in> {1, 8, 16, 32, 64} \<and>
   (32 :: nat) \<in> {16, 32, 64} \<and>
   evaluate_ilt32 \<in> set integer_comparisons32 \<and>
   evaluate_flt (\<lambda>x. 0) \<in> set (float_comparisons (\<lambda>x. 0)) \<and>
   (\<exists>d. evaluate_ilt32 [0, 0, 0, 0] 2 32 [[0xFFFFFFFF, 7, 0, 0], [2, 7, 0, 0]] = Inr d \<and>
        d = [0xFFFFFFFF, 0, 0, 0] \<and> boolean32 (d ! 0) \<and> boolean32 (d ! 1)) \<and>
   (\<exists>d. evaluate_flt (\<lambda>x. 0) [0, 0, 0, 0] 2 32 [[0x3F800000, 0x40000000, 0, 0], [0x40000000, 0x3F800000, 0, 0]] = Inr d \<and>
        d = [1, 0, 0, 0] \<and> boolean1 (d ! 0) \<and> boolean1 (d ! 1) \<and> get_32 (d ! 0) \<noteq> - 1)"
proof -
  have v: "vec4 [0, 0, 0, 0]" "(2 :: nat) \<le> 4" by (simp_all add: vec4_def)
  have s: "(32 :: nat) \<in> {1, 8, 16, 32, 64}" "(32 :: nat) \<in> {16, 32, 64}" by simp_all
  have m: "evaluate_ilt32 \<in> set integer_comparisons32"
    "evaluate_flt (\<lambda>x. 0) \<in> set (float_comparisons (\<lambda>x. 0))"
    by (simp_all add: integer_comparisons32_def float_comparisons_def)
  note t = comparisons_store_canonical_booleans[OF v, of 32]
  from t[THEN conjunct1, THEN mp, OF s(1), THEN conjunct1, THEN bspec, OF m(1)]
  obtain d where d: "evaluate_ilt32 [0, 0, 0, 0] 2 32 [[0xFFFFFFFF, 7, 0, 0], [2, 7, 0, 0]] = Inr d"
    "\<forall>i<2. boolean32 (d ! i)" by blast
  have e1: "evaluate_ilt32 [0, 0, 0, 0] 2 32 [[0xFFFFFFFF, 7, 0, 0], [2, 7, 0, 0]] = Inr [0xFFFFFFFF, 0, 0, 0]"
    by code_simp
  have A: "\<exists>d. evaluate_ilt32 [0, 0, 0, 0] 2 32 [[0xFFFFFFFF, 7, 0, 0], [2, 7, 0, 0]] = Inr d \<and>
        d = [0xFFFFFFFF, 0, 0, 0] \<and> boolean32 (d ! 0) \<and> boolean32 (d ! 1)"
    using d e1 by simp
  from t[THEN conjunct2, THEN conjunct1, THEN mp, OF s(2), THEN conjunct2, THEN bspec, OF m(2)]
  obtain e where e: "evaluate_flt (\<lambda>x. 0) [0, 0, 0, 0] 2 32 [[0x3F800000, 0x40000000, 0, 0], [0x40000000, 0x3F800000, 0, 0]] = Inr e"
    "\<forall>i<2. boolean1 (e ! i) \<and> get_32 (e ! i) \<noteq> - 1" by blast
  have e2: "evaluate_flt (\<lambda>x. 0) [0, 0, 0, 0] 2 32 [[0x3F800000, 0x40000000, 0, 0], [0x40000000, 0x3F800000, 0, 0]] = Inr [1, 0, 0, 0]"
    by code_simp
  have B: "\<exists>d. evaluate_flt (\<lambda>x. 0) [0, 0, 0, 0] 2 32 [[0x3F800000, 0x40000000, 0, 0], [0x40000000, 0x3F800000, 0, 0]] = Inr d \<and>
        d = [1, 0, 0, 0] \<and> boolean1 (d ! 0) \<and> boolean1 (d ! 1) \<and> get_32 (d ! 0) \<noteq> - 1"
    using e e2 by simp
  show ?thesis by (intro conjI) (rule v s m A B)+
qed

text \<open>
  The claim as stated fails. \<^verbatim>\<open>flt\<close> at bit width 32 and \<^verbatim>\<open>ilt\<close> at bit width 64 store 1
  for true, not all-one bits; \<^verbatim>\<open>ieq32\<close> at bit width 1 stores all-one bits, not 1; and
  \<^verbatim>\<open>seq\<close> stores the float 1.0.
\<close>

theorem comparison_lane_not_all_ones_counterexample:
  "evaluate_flt (\<lambda>x. 0) [0, 0, 0, 0] 1 32 [[0x3F800000, 0, 0, 0], [0x40000000, 0, 0, 0]] = Inr [1, 0, 0, 0] \<and>
   flt_32 0x3F800000 0x40000000 \<and> \<not> boolean32 ([1, 0, 0, 0] ! 0) \<and>
   evaluate_ilt [0, 0, 0, 0] 1 64 [[1, 0, 0, 0], [2, 0, 0, 0]] = Inr [1, 0, 0, 0] \<and>
   get_64 ([1, 0, 0, 0] ! 0) \<noteq> - 1 \<and> get_64 ([1, 0, 0, 0] ! 0) \<noteq> 0 \<and>
   evaluate_ieq32 [0, 0, 0, 0] 1 1 [[1, 0, 0, 0], [1, 0, 0, 0]] = Inr [0xFFFFFFFF, 0, 0, 0] \<and>
   \<not> boolean1 ([0xFFFFFFFF, 0, 0, 0] ! 0) \<and>
   evaluate_seq [0, 0, 0, 0] 1 32 [[0x3F800000, 0, 0, 0], [0x3F800000, 0, 0, 0]] = Inr [0x3F800000, 0, 0, 0] \<and>
   \<not> boolean32 ([0x3F800000, 0, 0, 0] ! 0)"
proof (intro conjI)
  show "evaluate_flt (\<lambda>x. 0) [0, 0, 0, 0] 1 32 [[0x3F800000, 0, 0, 0], [0x40000000, 0, 0, 0]] = Inr [1, 0, 0, 0]"
    by code_simp
  show "flt_32 0x3F800000 0x40000000" by code_simp
  show "evaluate_ilt [0, 0, 0, 0] 1 64 [[1, 0, 0, 0], [2, 0, 0, 0]] = Inr [1, 0, 0, 0]"
    by code_simp
  show "evaluate_ieq32 [0, 0, 0, 0] 1 1 [[1, 0, 0, 0], [1, 0, 0, 0]] = Inr [0xFFFFFFFF, 0, 0, 0]"
    by code_simp
  show "evaluate_seq [0, 0, 0, 0] 1 32 [[0x3F800000, 0, 0, 0], [0x3F800000, 0, 0, 0]] = Inr [0x3F800000, 0, 0, 0]"
    by code_simp
qed (simp_all add: boolean32_def boolean1_def get_32_def get_8_def get_64_def)

section \<open>Stores into a 1-bit destination\<close>

lemma loop_components_stores:
  assumes "loop_components body js d = Inr d'" "distinct js" "\<forall>j\<in>set js. j < length d"
    "\<And>j v w. body j v = Inr w \<Longrightarrow> P w"
  shows "\<forall>j\<in>set js. P (d' ! j)"
  using assms(1,2,3)
proof (induction js arbitrary: d)
  case Nil
  then show ?case by simp
next
  case (Cons k ks)
  from Cons.prems(1) obtain v where v: "body k (d ! k) = Inr v"
    "loop_components body ks (d[k := v]) = Inr d'"
    by (auto split: sum.splits)
  have k: "k \<notin> set ks" "distinct ks" "k < length d" using Cons.prems by simp_all
  have "\<forall>j\<in>set ks. j < length (d[k := v])" using Cons.prems(3) by simp
  from Cons.IH[OF v(2) k(2) this] have rest: "\<forall>j\<in>set ks. P (d' ! j)" .
  from loop_components_frame[OF v(2)] k(1) have "d' ! k = d[k := v] ! k" by blast
  then have "d' ! k = v" using k(3) by simp
  then have "P (d' ! k)" using assms(4)[OF v(1)] by simp
  then show ?case using rest by simp
qed

lemma for_components_stores:
  assumes "for_components n body d = Inr d'" "n \<le> length d"
    "\<And>j v w. body j v = Inr w \<Longrightarrow> P w"
  shows "\<forall>i<n. P (d' ! i)"
  using loop_components_stores[of body "[0..<n]" d d' P] assms
  unfolding for_components_def by auto

lemma per_component1_stores_Inr:
  assumes "per_component1 rd wr expr d n src = Inr d'" "n \<le> length d" "\<And>v x. P (wr v x)"
  shows "\<forall>i<n. P (d' ! i)"
proof (rule for_components_stores[OF assms(1)[unfolded per_component1_def] assms(2)])
  fix j v w
  assume "(case expr (rd (src ! 0 ! j)) of None \<Rightarrow> Inl Undefined | Some dst \<Rightarrow> Inr (wr v dst)) = Inr w"
  then show "P w" using assms(3) by (auto split: option.splits)
qed

lemma per_component2_stores_Inr:
  assumes "per_component2 rd wr expr d n src = Inr d'" "n \<le> length d" "\<And>v x. P (wr v x)"
  shows "\<forall>i<n. P (d' ! i)"
proof (rule for_components_stores[OF assms(1)[unfolded per_component2_def] assms(2)])
  fix j v w
  assume "(case expr (rd (src ! 0 ! j)) (rd (src ! 1 ! j)) of None \<Rightarrow> Inl Undefined
           | Some dst \<Rightarrow> Inr (wr v dst)) = Inr w"
  then show "P w" using assms(3) by (auto split: option.splits)
qed

lemma bits_above_0_clear_set_b: "bits_above_0_clear (set_b v x)"
  by (simp add: bits_above_0_clear_def get_8_set_b)

lemma bits_above_0_clear_stores:
  "bits_above_0_clear (set_int1 v dst)" "bits_above_0_clear (set_uint1 v dst)"
  "bits_above_0_clear (set_bool1 v x)"
  by (simp_all add: set_int1_def set_uint1_def set_bool1_def bits_above_0_clear_set_b)

lemma one_bit_integer_opcodes_clear:
  assumes "n \<le> length d"
  shows "evaluate_iadd d n 1 src = Inr d' \<Longrightarrow> \<forall>i<n. bits_above_0_clear (d' ! i)"
    "evaluate_uadd_sat d n 1 src = Inr d' \<Longrightarrow> \<forall>i<n. bits_above_0_clear (d' ! i)"
    "evaluate_iadd_sat d n 1 src = Inr d' \<Longrightarrow> \<forall>i<n. bits_above_0_clear (d' ! i)"
    "evaluate_idiv d n 1 src = Inr d' \<Longrightarrow> \<forall>i<n. bits_above_0_clear (d' ! i)"
    "evaluate_udiv d n 1 src = Inr d' \<Longrightarrow> \<forall>i<n. bits_above_0_clear (d' ! i)"
    "evaluate_imod d n 1 src = Inr d' \<Longrightarrow> \<forall>i<n. bits_above_0_clear (d' ! i)"
    "evaluate_irem d n 1 src = Inr d' \<Longrightarrow> \<forall>i<n. bits_above_0_clear (d' ! i)"
    "evaluate_umod d n 1 src = Inr d' \<Longrightarrow> \<forall>i<n. bits_above_0_clear (d' ! i)"
  unfolding evaluate_iadd_def evaluate_uadd_sat_def evaluate_iadd_sat_def evaluate_idiv_def
    evaluate_udiv_def evaluate_imod_def evaluate_irem_def evaluate_umod_def
  by (simp_all only: if_True refl)
    (erule per_component2_stores_Inr[OF _ assms], rule bits_above_0_clear_stores)+

lemma f2i1_clear:
  assumes "n \<le> length d" "evaluate_f2i1 h d n bit_size src = Inr d'"
  shows "\<forall>i<n. bits_above_0_clear (d' ! i)"
proof -
  note r = per_component1_stores_Inr[OF _ assms(1), where wr = set_int1
      and P = bits_above_0_clear, OF _ bits_above_0_clear_stores(1)]
  consider "bit_size = 16" | "bit_size = 32" | "bit_size = 64"
    using assms(2) unfolding evaluate_f2i1_def by (auto split: if_splits)
  then show ?thesis
  proof cases
    case 1
    then show ?thesis using assms(2) unfolding evaluate_f2i1_def by (simp add: r)
  next
    case 2
    then show ?thesis using assms(2) unfolding evaluate_f2i1_def by (simp add: r)
  next
    case 3
    then show ?thesis using assms(2) unfolding evaluate_f2i1_def by (simp add: r)
  qed
qed

lemmas stores_bool1_Inr =
  per_component2_stores_Inr[where wr = set_bool1 and P = bits_above_0_clear,
    OF _ _ bits_above_0_clear_stores(3)]

lemma integer_comparisons_clear:
  assumes "n \<le> length d"
  shows "evaluate_ieq d n bit_size src = Inr d' \<Longrightarrow> \<forall>i<n. bits_above_0_clear (d' ! i)"
    "evaluate_ine d n bit_size src = Inr d' \<Longrightarrow> \<forall>i<n. bits_above_0_clear (d' ! i)"
    "evaluate_ilt d n bit_size src = Inr d' \<Longrightarrow> \<forall>i<n. bits_above_0_clear (d' ! i)"
    "evaluate_ige d n bit_size src = Inr d' \<Longrightarrow> \<forall>i<n. bits_above_0_clear (d' ! i)"
    "evaluate_ult d n bit_size src = Inr d' \<Longrightarrow> \<forall>i<n. bits_above_0_clear (d' ! i)"
    "evaluate_uge d n bit_size src = Inr d' \<Longrightarrow> \<forall>i<n. bits_above_0_clear (d' ! i)"
  unfolding evaluate_ieq_def evaluate_ine_def evaluate_ilt_def evaluate_ige_def evaluate_ult_def evaluate_uge_def
  by (auto split: if_splits dest!: stores_bool1_Inr[OF _ assms])

lemma float_comparisons_clear:
  assumes "n \<le> length d"
  shows "evaluate_feq h d n bit_size src = Inr d' \<Longrightarrow> \<forall>i<n. bits_above_0_clear (d' ! i)"
    "evaluate_fne h d n bit_size src = Inr d' \<Longrightarrow> \<forall>i<n. bits_above_0_clear (d' ! i)"
    "evaluate_flt h d n bit_size src = Inr d' \<Longrightarrow> \<forall>i<n. bits_above_0_clear (d' ! i)"
    "evaluate_fge h d n bit_size src = Inr d' \<Longrightarrow> \<forall>i<n. bits_above_0_clear (d' ! i)"
  unfolding evaluate_feq_def evaluate_fne_def evaluate_flt_def evaluate_fge_def
  by (auto split: if_splits dest!: stores_bool1_Inr[OF _ assms])

lemma ball_iequal4_clear:
  assumes "0 < length d" "evaluate_ball_iequal4 d n bit_size src = Inr d'"
  shows "bits_above_0_clear (d' ! 0)"
  using assms unfolding evaluate_ball_iequal4_def store_lane0_def
  by (auto split: if_splits simp add: bits_above_0_clear_stores)

lemma evaluate_iadd_1_returns:
  assumes "n \<le> length d"
  shows "\<exists>d'. evaluate_iadd d n 1 src = Inr d' \<and>
           (\<forall>i<n. get_b (d' ! i) = bit (iadd_8 (get_int1 (src ! 0 ! i)) (get_int1 (src ! 1 ! i))) 0)"
proof -
  from per_component2_Some_all[OF assms, of "\<lambda>src0 src1. Some (iadd_8 src0 src1)" get_int1 src
      "\<lambda>j. iadd_8 (get_int1 (src ! 0 ! j)) (get_int1 (src ! 1 ! j))" set_int1]
  obtain d' where d': "per_component2 get_int1 set_int1 (\<lambda>src0 src1. Some (iadd_8 src0 src1)) d n src = Inr d'"
    "\<forall>j<n. d' ! j = set_int1 (d ! j) (iadd_8 (get_int1 (src ! 0 ! j)) (get_int1 (src ! 1 ! j)))"
    by auto
  have "evaluate_iadd d n 1 src = Inr d'" by (simp add: evaluate_iadd_def d'(1))
  moreover have "\<forall>i<n. get_b (d' ! i) = bit (iadd_8 (get_int1 (src ! 0 ! i)) (get_int1 (src ! 1 ! i))) 0"
    using d'(2) by (simp add: get_b_set_int1)
  ultimately show ?thesis by blast
qed

lemma per_component1_Some_all:
  assumes "n \<le> length d" "\<forall>j<n. expr (rd (src ! 0 ! j)) = Some (g j)"
  shows "\<exists>d'. per_component1 rd wr expr d n src = Inr d' \<and> length d' = length d \<and>
           (\<forall>j<n. d' ! j = wr (d ! j) (g j)) \<and> (\<forall>j\<ge>n. d' ! j = d ! j)"
  unfolding per_component1_def
  using for_components_Inr[OF assms(1), of _ "\<lambda>j. wr (d ! j) (g j)"] assms(2) by simp

lemma evaluate_f2i1_returns:
  assumes "n \<le> length d" "bit_size \<in> {16, 32, 64}"
    "\<forall>i<n. f2i1_value h bit_size (src ! 0 ! i) \<noteq> None"
  shows "\<exists>d'. evaluate_f2i1 h d n bit_size src = Inr d' \<and>
           (\<forall>i<n. get_b (d' ! i) = bit (the (f2i1_value h bit_size (src ! 0 ! i))) 0)"
proof -
  let ?g = "\<lambda>j. the (f2i1_value h bit_size (src ! 0 ! j))"
  have s: "\<forall>j<n. f2i1_value h bit_size (src ! 0 ! j) = Some (?g j)" using assms(3) by simp
  have "\<exists>d'. evaluate_f2i1 h d n bit_size src = Inr d' \<and> (\<forall>j<n. d' ! j = set_int1 (d ! j) (?g j))"
  proof -
    consider "bit_size = 16" | "bit_size = 32" | "bit_size = 64" using assms(2) by auto
    then show ?thesis
    proof cases
      case 1
      then have "\<forall>j<n. int_to_int8 (f32_trunc (h (get_16 (src ! 0 ! j)))) = Some (?g j)"
        using s by (simp add: f2i1_value_def)
      from per_component1_Some_all[OF assms(1), of "\<lambda>src0. int_to_int8 (f32_trunc src0)"
          "\<lambda>v. h (get_16 v)" src ?g set_int1, OF this] 1
      show ?thesis by (auto simp add: evaluate_f2i1_def)
    next
      case 2
      then have "\<forall>j<n. int_to_int8 (f32_trunc (get_32 (src ! 0 ! j))) = Some (?g j)"
        using s by (simp add: f2i1_value_def)
      from per_component1_Some_all[OF assms(1), of "\<lambda>src0. int_to_int8 (f32_trunc src0)"
          get_32 src ?g set_int1, OF this] 2
      show ?thesis by (auto simp add: evaluate_f2i1_def)
    next
      case 3
      then have "\<forall>j<n. int_to_int8 (f64_trunc (get_64 (src ! 0 ! j))) = Some (?g j)"
        using s by (simp add: f2i1_value_def)
      from per_component1_Some_all[OF assms(1), of "\<lambda>src0. int_to_int8 (f64_trunc src0)"
          get_64 src ?g set_int1, OF this] 3
      show ?thesis by (auto simp add: evaluate_f2i1_def)
    qed
  qed
  then obtain d' where d': "evaluate_f2i1 h d n bit_size src = Inr d'"
    "\<forall>j<n. d' ! j = set_int1 (d ! j) (?g j)" by blast
  have "\<forall>i<n. get_b (d' ! i) = bit (?g i) 0" using d'(2) by (simp add: get_b_set_int1)
  then show ?thesis using d'(1) by blast
qed

text \<open>
  Claim C7. Every opcode with a 1-bit destination stores through the lane's boolean
  member in one of three ways: \<^verbatim>\<open>.b = dst & 1\<close> for a signed or an unsigned 1-bit integer
  result (the stored bit is bit 0 of the result, computed in a wider integer), and
  \<^verbatim>\<open>.b = -(int)dst\<close> for a boolean result. After each of them the bits above bit 0 of
  the stored value are zero. Hence every lane written by an integer opcode at bit width
  1, by a comparison without suffix, by \<^verbatim>\<open>f2i1\<close> or by \<^verbatim>\<open>ball_iequal4\<close> has them zero;
  \<^verbatim>\<open>iadd\<close> at bit width 1 always returns, and \<^verbatim>\<open>f2i1\<close> returns wherever C defines the
  conversion of its operands.
\<close>

theorem one_bit_destination_stores_masked:
  assumes "vec4 dst_val" "num_components \<le> 4"
  shows "bits_above_0_clear (set_int1 v dst) \<and> get_b (set_int1 v dst) = bit dst 0 \<and>
         bits_above_0_clear (set_uint1 v dst) \<and> get_b (set_uint1 v dst) = bit dst 0 \<and>
         bits_above_0_clear (set_bool1 v x) \<and> get_b (set_bool1 v x) = x \<and>
         (\<forall>ev \<in> set one_bit_integer_opcodes.
            \<forall>d. ev dst_val num_components 1 src = Inr d \<longrightarrow>
                (\<forall>i<num_components. bits_above_0_clear (d ! i))) \<and>
         (\<forall>ev \<in> set (one_bit_destination_opcodes half_to_float).
            \<forall>d. ev dst_val num_components bit_size src = Inr d \<longrightarrow>
                (\<forall>i<num_components. bits_above_0_clear (d ! i))) \<and>
         (\<forall>d. evaluate_ball_iequal4 dst_val num_components bit_size src = Inr d \<longrightarrow>
              bits_above_0_clear (d ! 0)) \<and>
         (\<exists>d. evaluate_iadd dst_val num_components 1 src = Inr d \<and>
              (\<forall>i<num_components.
                 get_b (d ! i) = bit (iadd_8 (get_int1 (src ! 0 ! i)) (get_int1 (src ! 1 ! i))) 0)) \<and>
         (bit_size \<in> {16, 32, 64} \<and>
          (\<forall>i<num_components. f2i1_value half_to_float bit_size (src ! 0 ! i) \<noteq> None) \<longrightarrow>
            (\<exists>d. evaluate_f2i1 half_to_float dst_val num_components bit_size src = Inr d \<and>
                 (\<forall>i<num_components.
                    get_b (d ! i) = bit (the (f2i1_value half_to_float bit_size (src ! 0 ! i))) 0)))"
proof -
  have n: "num_components \<le> length dst_val" and p: "0 < length dst_val"
    using assms by (simp_all add: vec4_def)
  have A: "\<forall>ev \<in> set one_bit_integer_opcodes.
      \<forall>d. ev dst_val num_components 1 src = Inr d \<longrightarrow>
          (\<forall>i<num_components. bits_above_0_clear (d ! i))"
    unfolding one_bit_integer_opcodes_def
    using one_bit_integer_opcodes_clear[OF n] by simp
  have B: "\<forall>ev \<in> set (one_bit_destination_opcodes half_to_float).
      \<forall>d. ev dst_val num_components bit_size src = Inr d \<longrightarrow>
          (\<forall>i<num_components. bits_above_0_clear (d ! i))"
    unfolding one_bit_destination_opcodes_def integer_comparisons_def float_comparisons_def
    using integer_comparisons_clear[OF n] float_comparisons_clear[OF n] f2i1_clear[OF n]
    by simp
  have C: "\<forall>d. evaluate_ball_iequal4 dst_val num_components bit_size src = Inr d \<longrightarrow>
      bits_above_0_clear (d ! 0)"
    using ball_iequal4_clear[OF p] by blast
  have D: "bit_size \<in> {16, 32, 64} \<and>
      (\<forall>i<num_components. f2i1_value half_to_float bit_size (src ! 0 ! i) \<noteq> None) \<longrightarrow>
        (\<exists>d. evaluate_f2i1 half_to_float dst_val num_components bit_size src = Inr d \<and>
             (\<forall>i<num_components.
                get_b (d ! i) = bit (the (f2i1_value half_to_float bit_size (src ! 0 ! i))) 0))"
    using evaluate_f2i1_returns[OF n] by blast
  show ?thesis
    by (intro conjI) (rule bits_above_0_clear_stores get_b_set_int1 get_b_set_uint1
        get_b_set_bool1 A B C D evaluate_iadd_1_returns[OF n])+
qed

theorem one_bit_destination_stores_masked_witness:
  "vec4 [0xFF, 0xFE, 0, 0] \<and> (2 :: nat) \<le> 4 \<and>
   evaluate_iadd \<in> set one_bit_integer_opcodes \<and>
   (\<exists>d. evaluate_iadd [0xFF, 0xFE, 0, 0] 2 1 [[1, 1, 0, 0], [1, 0, 0, 0]] = Inr d \<and>
        d = [0, 1, 0, 0] \<and> bits_above_0_clear (d ! 0) \<and> bits_above_0_clear (d ! 1)) \<and>
   (32 :: nat) \<in> {16, 32, 64} \<and>
   f2i1_value (\<lambda>x. 0) 32 ([0x40400000, 0xC0000000, 0, 0] ! 0) = Some 3 \<and>
   f2i1_value (\<lambda>x. 0) 32 ([0x40400000, 0xC0000000, 0, 0] ! 1) = Some 0xFE \<and>
   (\<exists>d. evaluate_f2i1 (\<lambda>x. 0) [0xFF, 0xFE, 0, 0] 2 32 [[0x40400000, 0xC0000000, 0, 0]] = Inr d \<and>
        d = [1, 0, 0, 0] \<and> get_b (d ! 0) \<and> \<not> get_b (d ! 1))"
proof -
  have v: "vec4 [0xFF, 0xFE, 0, 0]" "(2 :: nat) \<le> 4" by (simp_all add: vec4_def)
  have m: "evaluate_iadd \<in> set one_bit_integer_opcodes" by (simp add: one_bit_integer_opcodes_def)
  note t = one_bit_destination_stores_masked[OF v, of 0 0 True _ "\<lambda>x. 0" 32,
      THEN conjunct2, THEN conjunct2, THEN conjunct2, THEN conjunct2, THEN conjunct2, THEN conjunct2]
  have e1: "evaluate_iadd [0xFF, 0xFE, 0, 0] 2 1 [[1, 1, 0, 0], [1, 0, 0, 0]] = Inr [0, 1, 0, 0]"
    by code_simp
  from t[of "[[1, 1, 0, 0], [1, 0, 0, 0]]", THEN conjunct1]
  have "\<forall>ev \<in> set one_bit_integer_opcodes.
      \<forall>d. ev [0xFF, 0xFE, 0, 0] 2 1 [[1, 1, 0, 0], [1, 0, 0, 0]] = Inr d \<longrightarrow>
          (\<forall>i<2. bits_above_0_clear (d ! i))" .
  from this[THEN bspec, OF m, THEN spec, THEN mp, OF e1]
  have c2: "\<forall>i<2. bits_above_0_clear ([0, 1, 0, 0] ! i)" .
  have c: "bits_above_0_clear ([0, 1, 0, 0] ! 0)" "bits_above_0_clear ([0, 1, 0, 0] ! 1)"
    using c2[THEN spec, of 0] c2[THEN spec, of 1] by simp_all
  have A: "\<exists>d. evaluate_iadd [0xFF, 0xFE, 0, 0] 2 1 [[1, 1, 0, 0], [1, 0, 0, 0]] = Inr d \<and>
        d = [0, 1, 0, 0] \<and> bits_above_0_clear (d ! 0) \<and> bits_above_0_clear (d ! 1)"
    using e1 c by simp
  have s: "(32 :: nat) \<in> {16, 32, 64}" by simp
  have f: "f2i1_value (\<lambda>x. 0) 32 ([0x40400000, 0xC0000000, 0, 0] ! 0) = Some 3"
    "f2i1_value (\<lambda>x. 0) 32 ([0x40400000, 0xC0000000, 0, 0] ! 1) = Some 0xFE"
    by code_simp+
  have h: "\<forall>i<2. f2i1_value (\<lambda>x. 0) 32 ([[0x40400000, 0xC0000000, 0, 0]] ! 0 ! i) \<noteq> None"
    using f by (auto dest!: less_2_cases)
  from t[of "[[0x40400000, 0xC0000000, 0, 0]]", THEN conjunct2, THEN conjunct2, THEN conjunct2,
      THEN conjunct2]
  have "(32 :: nat) \<in> {16, 32, 64} \<and>
      (\<forall>i<2. f2i1_value (\<lambda>x. 0) 32 ([[0x40400000, 0xC0000000, 0, 0]] ! 0 ! i) \<noteq> None) \<longrightarrow>
        (\<exists>d. evaluate_f2i1 (\<lambda>x. 0) [0xFF, 0xFE, 0, 0] 2 32 [[0x40400000, 0xC0000000, 0, 0]] = Inr d \<and>
             (\<forall>i<2. get_b (d ! i) =
                bit (the (f2i1_value (\<lambda>x. 0) 32 ([[0x40400000, 0xC0000000, 0, 0]] ! 0 ! i))) 0))" .
  with s h obtain d where d:
    "evaluate_f2i1 (\<lambda>x. 0) [0xFF, 0xFE, 0, 0] 2 32 [[0x40400000, 0xC0000000, 0, 0]] = Inr d"
    "\<forall>i<2. get_b (d ! i) =
        bit (the (f2i1_value (\<lambda>x. 0) 32 ([[0x40400000, 0xC0000000, 0, 0]] ! 0 ! i))) 0"
    by blast
  have e2: "evaluate_f2i1 (\<lambda>x. 0) [0xFF, 0xFE, 0, 0] 2 32 [[0x40400000, 0xC0000000, 0, 0]] = Inr [1, 0, 0, 0]"
    by code_simp
  have g0: "get_b (d ! 0) = bit (the (f2i1_value (\<lambda>x. 0) 32 ([[0x40400000, 0xC0000000, 0, 0]] ! 0 ! 0))) 0"
    using d(2) by simp
  have g1: "get_b (d ! 1) = bit (the (f2i1_value (\<lambda>x. 0) 32 ([[0x40400000, 0xC0000000, 0, 0]] ! 0 ! 1))) 0"
    using d(2) by simp
  have "get_b (d ! 0)" "\<not> get_b (d ! 1)" using g0 g1 f by simp_all
  then have B: "\<exists>d. evaluate_f2i1 (\<lambda>x. 0) [0xFF, 0xFE, 0, 0] 2 32 [[0x40400000, 0xC0000000, 0, 0]] = Inr d \<and>
        d = [1, 0, 0, 0] \<and> get_b (d ! 0) \<and> \<not> get_b (d ! 1)"
    using d(1) e2 by simp
  show ?thesis by (intro conjI) (rule v m A s f B)+
qed

section \<open>The abort branches are reached only by illegal pairs\<close>
















end
